(* ===== verification/Prelude.thy ===== *)
theory Prelude
  imports Complex_Main "HOL-Library.Word"
begin

text \<open>
  Shared vocabulary of the development: bytes, Go's results, the error values of the program, the
  sequencing operator of fallible code, the byte streams that readers and connections present, and
  the fixed width big-endian encodings of the package \<^verbatim>\<open>encoding/binary\<close> with their round trips.
\<close>

unbundle bit_operations_syntax

section \<open>Automation shared by the components\<close>

named_theorems result_simps \<open>evaluation and inversion of sequenced fallible code\<close>
named_theorems wire_simps \<open>round trips and lengths of wire encodings\<close>

section \<open>Types\<close>

type_synonym byte = "8 word"
type_synonym u16 = "16 word"
type_synonym u64 = "64 word"
type_synonym i32 = "32 word"

text \<open>
  The \<^verbatim>\<open>error\<close> values: the sentinels the sources compare with or pass on (\<^verbatim>\<open>io.EOF\<close>,
  \<^verbatim>\<open>io.ErrUnexpectedEOF\<close>, \<^verbatim>\<open>context.Canceled\<close>, \<^verbatim>\<open>net.ErrClosed\<close>, an expired deadline, an error of the
  operating system by its number), \<^verbatim>\<open>errors.New\<close> with its message, \<^verbatim>\<open>fmt.Errorf\<close> with its format and
  arguments, \<^verbatim>\<open>fmt.Errorf\<close> around an inner error (the verb \<^verbatim>\<open>%w\<close>), and \<^verbatim>\<open>errors.Join\<close>.
\<close>

datatype goarg = AInt int | AStr string

datatype goerr =
    EOF
  | ErrUnexpectedEOF
  | ErrCanceled
  | ErrClosed
  | ErrTimeout
  | ErrOS nat
  | ErrNew string
  | Errorf string "goarg list"
  | Wrapf string "goarg list" goerr
  | Join "goerr list"

type_synonym 'a result = "goerr + 'a"

text \<open>
  Sequencing of fallible code: \<^verbatim>\<open>x, err := m; if err != nil { return err }; ...\<close>. The continuation
  runs on the value; an error is returned as it is.
\<close>

definition ebind :: "'e + 'a \<Rightarrow> ('a \<Rightarrow> 'e + 'b) \<Rightarrow> 'e + 'b" where
  "ebind m k = (case m of Inl e \<Rightarrow> Inl e | Inr x \<Rightarrow> k x)"

text \<open>An error that is wrapped on the way out, \<^verbatim>\<open>fmt.Errorf("context: %w", err)\<close>.\<close>

definition emap :: "('e \<Rightarrow> 'f) \<Rightarrow> 'e + 'a \<Rightarrow> 'f + 'a" where
  "emap f m = (case m of Inl e \<Rightarrow> Inl (f e) | Inr x \<Rightarrow> Inr x)"

section \<open>Byte streams\<close>

text \<open>
  A reader holds the bytes that can still be read and the error that a read past them gives:
  \<^const>\<open>EOF\<close> for a \<^verbatim>\<open>bytes.Reader\<close> or a closed connection, a timeout for a connection whose deadline
  expires. \<open>readFull n\<close> is \<^verbatim>\<open>io.ReadFull\<close> into a buffer of \<open>n\<close> bytes: a stream that ends after some
  but not all of the bytes gives \<^verbatim>\<open>io.ErrUnexpectedEOF\<close>, every other error is passed on.
\<close>

type_synonym reader = "byte list \<times> goerr"

definition readFull :: "nat \<Rightarrow> reader \<Rightarrow> (byte list \<times> reader) result" where
  "readFull n r = (case r of (bs, e) \<Rightarrow>
     if n \<le> length bs then Inr (take n bs, (drop n bs, e))
     else Inl (if e = EOF \<and> bs \<noteq> [] then ErrUnexpectedEOF else e))"

section \<open>Big-endian integers\<close>

text \<open>\<^verbatim>\<open>binary.BigEndian.PutUint16\<close>, \<^verbatim>\<open>PutUint64\<close> and the functions that read them back.\<close>

definition putUint16 :: "u16 \<Rightarrow> byte list" where
  "putUint16 v = [ucast (drop_bit 8 v), ucast v]"

definition putUint64 :: "u64 \<Rightarrow> byte list" where
  "putUint64 v = map (\<lambda>i. ucast (drop_bit (8 * i) v)) [7, 6, 5, 4, 3, 2, 1, 0]"

definition beUint :: "byte list \<Rightarrow> 'a::len word" where
  "beUint bs = foldl (\<lambda>acc b. push_bit 8 acc OR ucast b) 0 bs"

abbreviation getUint16 :: "byte list \<Rightarrow> u16" where
  "getUint16 \<equiv> beUint"

abbreviation getUint64 :: "byte list \<Rightarrow> u64" where
  "getUint64 \<equiv> beUint"

section \<open>Go strings as bytes\<close>

text \<open>A Go string is a sequence of bytes; \<^typ>\<open>string\<close> lists them as \<^typ>\<open>char\<close>.\<close>

definition bytes_of :: "string \<Rightarrow> byte list" where
  "bytes_of s = map of_char s"

definition string_of :: "byte list \<Rightarrow> string" where
  "string_of bs = map (\<lambda>b. char_of (unat b)) bs"

section \<open>Lemmas\<close>

lemma ebind_simps [simp, result_simps]:
  "ebind (Inl e) k = Inl e"
  "ebind (Inr x) k = k x"
  by (simp_all add: ebind_def)

lemma emap_simps [simp, result_simps]:
  "emap f (Inl e) = Inl (f e)"
  "emap f (Inr x) = Inr x"
  by (simp_all add: emap_def)

lemma ebind_eq_Inr_iff [result_simps]:
  "ebind m k = Inr y \<longleftrightarrow> (\<exists>x. m = Inr x \<and> k x = Inr y)"
  by (cases m) simp_all

lemma ebind_eq_Inl_iff [result_simps]:
  "ebind m k = Inl e \<longleftrightarrow> m = Inl e \<or> (\<exists>x. m = Inr x \<and> k x = Inl e)"
  by (cases m) auto

lemma emap_eq_Inr_iff [result_simps]: "emap f m = Inr y \<longleftrightarrow> m = Inr y"
  by (cases m) simp_all

lemma emap_eq_Inl_iff [result_simps]: "emap f m = Inl e \<longleftrightarrow> (\<exists>d. m = Inl d \<and> e = f d)"
  by (cases m) auto

lemma readFull_append [wire_simps]:
  "n = length xs \<Longrightarrow> readFull n (xs @ ys, e) = Inr (xs, (ys, e))"
  by (simp add: readFull_def)

lemma readFull_Inr_iff [result_simps]:
  "readFull n (bs, e) = Inr (xs, r) \<longleftrightarrow>
     n \<le> length bs \<and> xs = take n bs \<and> r = (drop n bs, e)"
  by (auto simp: readFull_def)

lemma readFull_short: "length bs < n \<Longrightarrow> \<exists>e'. readFull n (bs, e) = Inl e'"
  by (simp add: readFull_def)

lemma length_putUint16 [simp, wire_simps]: "length (putUint16 v) = 2"
  by (simp add: putUint16_def)

lemma length_putUint64 [simp, wire_simps]: "length (putUint64 v) = 8"
  by (simp add: putUint64_def)

text \<open>One step of the big-endian reader on the bytes of \<open>v\<close>, from the most significant byte down.\<close>

lemma beUint_step:
  "m = n + 8 \<Longrightarrow> push_bit 8 (drop_bit m v) OR ucast (ucast (drop_bit n v) :: byte) =
     drop_bit n (v :: 'a::len word)"
  by (rule bit_eqI) (auto simp: bit_simps dest: bit_imp_le_length)

lemma beUint_last:
  "push_bit 8 (drop_bit 8 v) OR ucast (ucast v :: byte) = (v :: 'a::len word)"
  using beUint_step [of 8 0 v] by simp

lemma beUint_first:
  "n + 8 = LENGTH('a) \<Longrightarrow> ucast (ucast (drop_bit n v) :: byte) = drop_bit n (v :: 'a::len word)"
  by (rule bit_eqI) (auto simp: bit_simps dest: bit_imp_le_length)

lemma getUint16_putUint16 [simp, wire_simps]: "getUint16 (putUint16 v) = v"
  by (simp add: beUint_def putUint16_def beUint_first beUint_last)

lemma getUint64_putUint64 [simp, wire_simps]: "getUint64 (putUint64 v) = v"
  by (simp add: beUint_def putUint64_def beUint_first beUint_step beUint_last)

lemma putUint64_inject [simp]: "putUint64 v = putUint64 w \<longleftrightarrow> v = w"
  by (metis getUint64_putUint64)

lemma length_bytes_of [simp, wire_simps]: "length (bytes_of s) = length s"
  by (simp add: bytes_of_def)

lemma length_string_of [simp, wire_simps]: "length (string_of bs) = length bs"
  by (simp add: string_of_def)

lemma unat_of_char: "unat (of_char c :: byte) = of_char c"
proof -
  have "(of_char c :: byte) = of_nat (of_char c)"
    by (simp only: of_nat_of_char)
  moreover have "unat (of_nat (of_char c) :: byte) = of_char c"
    using nat_of_char_less_256 [of c] by (simp add: unsigned_of_nat take_bit_nat_eq_self)
  ultimately show ?thesis
    by simp
qed

lemma of_char_char_of_unat [simp]: "of_char (char_of (unat b)) = (b :: byte)"
proof -
  have "(of_char (char_of (unat b)) :: byte) = of_nat (of_char (char_of (unat b)))"
    by (simp only: of_nat_of_char)
  also have "\<dots> = of_nat (unat b mod 256)"
    by (simp only: of_char_of)
  also have "unat b mod 256 = unat b"
    using unsigned_less [of b, where 'a = nat] by simp
  finally show ?thesis
    by simp
qed

lemma string_of_bytes_of [simp, wire_simps]: "string_of (bytes_of s) = s"
  by (induction s) (simp_all add: string_of_def bytes_of_def unat_of_char)

lemma bytes_of_string_of [simp, wire_simps]: "bytes_of (string_of bs) = bs"
  by (induction bs) (simp_all add: string_of_def bytes_of_def)

lemma bytes_of_simps [simp]:
  "bytes_of [] = []"
  "bytes_of (c # s) = of_char c # bytes_of s"
  by (simp_all add: bytes_of_def)

lemma bytes_of_append [simp]: "bytes_of (s @ t) = bytes_of s @ bytes_of t"
  by (simp add: bytes_of_def)

section \<open>Sums over lists\<close>

lemma sum_list_map_update:
  fixes f :: "'a \<Rightarrow> nat"
  assumes "i < length xs"
  shows "sum_list (map f (xs[i := a])) + f (xs ! i) = sum_list (map f xs) + f a"
  using assms by (induction xs arbitrary: i) (auto split: nat.split)

end
