(* ===== verification/Go_Text.thy ===== *)
theory Go_Text
  imports Prelude "HOL-Library.Sublist"
begin

text \<open>
  The functions of the packages \<^verbatim>\<open>strings\<close>, \<^verbatim>\<open>strconv\<close>, \<^verbatim>\<open>unicode/utf8\<close> and \<^verbatim>\<open>net\<close> on text that the
  sources call, on strings as byte sequences, with the round trips the components rely on:
  printing and parsing of integers, and joining and splitting of \<^verbatim>\<open>host:port\<close>.
\<close>

section \<open>Searching\<close>

text \<open>\<^verbatim>\<open>strings.IndexByte\<close> and \<^verbatim>\<open>LastIndexByte\<close>; \<^const>\<open>None\<close> is Go's \<open>-1\<close>.\<close>

fun indexByte :: "char \<Rightarrow> string \<Rightarrow> nat option" where
  "indexByte c [] = None"
| "indexByte c (x # xs) = (if x = c then Some 0 else map_option Suc (indexByte c xs))"

fun lastIndexByte :: "char \<Rightarrow> string \<Rightarrow> nat option" where
  "lastIndexByte c [] = None"
| "lastIndexByte c (x # xs) =
     (case lastIndexByte c xs of
        Some i \<Rightarrow> Some (Suc i)
      | None \<Rightarrow> if x = c then Some 0 else None)"

definition countByte :: "char \<Rightarrow> string \<Rightarrow> nat" where
  "countByte c s = length (filter (\<lambda>x. x = c) s)"

definition hasPrefix :: "string \<Rightarrow> string \<Rightarrow> bool" where
  "hasPrefix s p \<longleftrightarrow> take (length p) s = p"

definition hasSuffix :: "string \<Rightarrow> string \<Rightarrow> bool" where
  "hasSuffix s p \<longleftrightarrow> hasPrefix (rev s) (rev p)"

definition trimPrefix :: "string \<Rightarrow> string \<Rightarrow> string" where
  "trimPrefix s p = (if hasPrefix s p then drop (length p) s else s)"

definition trimSuffix :: "string \<Rightarrow> string \<Rightarrow> string" where
  "trimSuffix s p = (if hasSuffix s p then take (length s - length p) s else s)"

text \<open>\<^verbatim>\<open>strings.Split\<close> on a separator of one byte: always at least one field.\<close>

fun splitByte :: "char \<Rightarrow> string \<Rightarrow> string list" where
  "splitByte c [] = [[]]"
| "splitByte c (x # xs) =
     (if x = c then [] # splitByte c xs
      else (case splitByte c xs of f # fs \<Rightarrow> (x # f) # fs | [] \<Rightarrow> [[x]]))"

section \<open>White space and case\<close>

text \<open>
  The byte sequences of the runes \<^verbatim>\<open>unicode.IsSpace\<close> accepts, in UTF-8: the six of ASCII, U+0085,
  U+00A0, U+1680, U+2000 to U+200A, U+2028, U+2029, U+202F, U+205F and U+3000.
\<close>

definition spaceRunes :: "string list" where
  "spaceRunes =
     [[CHR 0x20], [CHR 0x09], [CHR 0x0A], [CHR 0x0B], [CHR 0x0C], [CHR 0x0D],
      [CHR 0xC2, CHR 0x85], [CHR 0xC2, CHR 0xA0], [CHR 0xE1, CHR 0x9A, CHR 0x80]] @
     map (\<lambda>k. [CHR 0xE2, CHR 0x80, char_of (k :: int)])
       [0x80, 0x81, 0x82, 0x83, 0x84, 0x85, 0x86, 0x87, 0x88, 0x89, 0x8A, 0xA8, 0xA9, 0xAF] @
     [[CHR 0xE2, CHR 0x81, CHR 0x9F], [CHR 0xE3, CHR 0x80, CHR 0x80]]"

text \<open>Removes sequences of a list from the front as long as one of them is a prefix.\<close>

function trimSeqs :: "string list \<Rightarrow> string \<Rightarrow> string" where
  "trimSeqs ps s =
     (if s = [] then []
      else (case find (hasPrefix s) ps of
              None \<Rightarrow> s
            | Some p \<Rightarrow> trimSeqs ps (drop (max 1 (length p)) s)))"
  by pat_completeness auto
termination
  by (relation "measure (\<lambda>(ps, s). length s)") auto

declare trimSeqs.simps [simp del]

definition trimSpace :: "string \<Rightarrow> string" where
  "trimSpace s = rev (trimSeqs (map rev spaceRunes) (rev (trimSeqs spaceRunes s)))"

text \<open>
  \<^verbatim>\<open>strings.ToLower\<close>, as far as its result is compared with ASCII text: the ASCII letters, and the two
  other runes whose lower case is an ASCII letter (U+0130 to \<^verbatim>\<open>i\<close>, the Kelvin sign U+212A to \<^verbatim>\<open>k\<close>).
  Every other rune stays outside ASCII and is kept as it is.
\<close>

definition lowerASCII :: "char \<Rightarrow> char" where
  "lowerASCII c = (let n = of_char c :: int in if 65 \<le> n \<and> n \<le> 90 then char_of (n + 32) else c)"

fun toLower :: "string \<Rightarrow> string" where
  "toLower [] = []"
| "toLower [a] = [lowerASCII a]"
| "toLower [a, b] = (if a = CHR 0xC4 \<and> b = CHR 0xB0 then ''i'' else lowerASCII a # toLower [b])"
| "toLower (a # b # c # s) =
     (if a = CHR 0xC4 \<and> b = CHR 0xB0 then CHR ''i'' # toLower (c # s)
      else if a = CHR 0xE2 \<and> b = CHR 0x84 \<and> c = CHR 0xAA then CHR ''k'' # toLower s
      else lowerASCII a # toLower (b # c # s))"

section \<open>Numbers\<close>

definition digitVal :: "char \<Rightarrow> int option" where
  "digitVal c = (let n = of_char c :: int in if 48 \<le> n \<and> n \<le> 57 then Some (n - 48) else None)"

definition isDigit :: "char \<Rightarrow> bool" where
  "isDigit c \<longleftrightarrow> digitVal c \<noteq> None"

definition digitChar :: "int \<Rightarrow> char" where
  "digitChar d = char_of (48 + d)"

fun parseDigits :: "int \<Rightarrow> string \<Rightarrow> int option" where
  "parseDigits acc [] = Some acc"
| "parseDigits acc (c # s) =
     (case digitVal c of None \<Rightarrow> None | Some d \<Rightarrow> parseDigits (10 * acc + d) s)"

definition atoiSyntax :: "string \<Rightarrow> goerr" where
  "atoiSyntax s = Errorf ''strconv.Atoi: parsing %q: invalid syntax'' [AStr s]"

definition atoiRange :: "string \<Rightarrow> goerr" where
  "atoiRange s = Errorf ''strconv.Atoi: parsing %q: value out of range'' [AStr s]"

text \<open>\<^verbatim>\<open>strconv.Atoi\<close>: an optional sign, at least one decimal digit, and a value of a 64-bit \<^verbatim>\<open>int\<close>.\<close>

definition atoi :: "string \<Rightarrow> int result" where
  "atoi s =
     (let neg = (s \<noteq> [] \<and> hd s = CHR ''-'');
          digits = (if s \<noteq> [] \<and> (hd s = CHR ''-'' \<or> hd s = CHR ''+'') then tl s else s)
      in if digits = [] then Inl (atoiSyntax s)
         else (case parseDigits 0 digits of
                 None \<Rightarrow> Inl (atoiSyntax s)
               | Some n \<Rightarrow>
                   let v = (if neg then - n else n)
                   in if v < - (2 ^ 63) \<or> 2 ^ 63 \<le> v then Inl (atoiRange s) else Inr v))"

text \<open>The decimal digits of a number that is not negative.\<close>

function natText :: "int \<Rightarrow> string" where
  "natText n = (if n < 10 then [digitChar n] else natText (n div 10) @ [digitChar (n mod 10)])"
  by pat_completeness auto
termination
  by (relation "measure nat") auto

declare natText.simps [simp del]

text \<open>\<^verbatim>\<open>strconv.Itoa\<close>, \<^verbatim>\<open>fmt.Sprint\<close> and the verb \<^verbatim>\<open>%d\<close>.\<close>

definition itoa :: "int \<Rightarrow> string" where
  "itoa v = (if v < 0 then CHR ''-'' # natText (- v) else natText v)"

section \<open>UTF-8\<close>

definition contByte :: "byte \<Rightarrow> bool" where
  "contByte b \<longleftrightarrow> 0x80 \<le> b \<and> b \<le> 0xBF"

text \<open>\<^verbatim>\<open>utf8.Valid\<close>: the well-formed sequences of one to four bytes, without overlong forms and surrogates.\<close>

fun utf8Valid :: "byte list \<Rightarrow> bool" where
  "utf8Valid [] = True"
| "utf8Valid (b0 # r) =
     (if b0 < 0x80 then utf8Valid r
      else if 0xC2 \<le> b0 \<and> b0 \<le> 0xDF then
        (case r of b1 # r' \<Rightarrow> contByte b1 \<and> utf8Valid r' | _ \<Rightarrow> False)
      else if 0xE0 \<le> b0 \<and> b0 \<le> 0xEF then
        (case r of
           b1 # b2 # r' \<Rightarrow>
             (if b0 = 0xE0 then 0xA0 \<le> b1 \<and> b1 \<le> 0xBF
              else if b0 = 0xED then 0x80 \<le> b1 \<and> b1 \<le> 0x9F
              else contByte b1) \<and> contByte b2 \<and> utf8Valid r'
         | _ \<Rightarrow> False)
      else if 0xF0 \<le> b0 \<and> b0 \<le> 0xF4 then
        (case r of
           b1 # b2 # b3 # r' \<Rightarrow>
             (if b0 = 0xF0 then 0x90 \<le> b1 \<and> b1 \<le> 0xBF
              else if b0 = 0xF4 then 0x80 \<le> b1 \<and> b1 \<le> 0x8F
              else contByte b1) \<and> contByte b2 \<and> contByte b3 \<and> utf8Valid r'
         | _ \<Rightarrow> False)
      else False)"

section \<open>Host and port\<close>

definition addrError :: "string \<Rightarrow> string \<Rightarrow> goerr" where
  "addrError addr why = Errorf ''address %s: %s'' [AStr addr, AStr why]"

text \<open>\<^verbatim>\<open>net.SplitHostPort\<close>, with the checks in the library's order.\<close>

definition splitHostPort :: "string \<Rightarrow> (string \<times> string) result" where
  "splitHostPort hp =
     (case lastIndexByte CHR '':'' hp of
        None \<Rightarrow> Inl (addrError hp ''missing port in address'')
      | Some i \<Rightarrow>
          ebind
            (if hd hp = CHR ''['' then
               (case indexByte CHR '']'' hp of
                  None \<Rightarrow> Inl (addrError hp ''missing ']' in address'')
                | Some e \<Rightarrow>
                    if e + 1 = length hp then Inl (addrError hp ''missing port in address'')
                    else if e + 1 = i then Inr (take (e - 1) (drop 1 hp), 1, e + 1)
                    else if hp ! (e + 1) = CHR '':'' then Inl (addrError hp ''too many colons in address'')
                    else Inl (addrError hp ''missing port in address''))
             else if indexByte CHR '':'' (take i hp) \<noteq> None then
               Inl (addrError hp ''too many colons in address'')
             else Inr (take i hp, 0, 0))
            (\<lambda>(host, j, k).
               if indexByte CHR ''['' (drop j hp) \<noteq> None then
                 Inl (addrError hp ''unexpected '[' in address'')
               else if indexByte CHR '']'' (drop k hp) \<noteq> None then
                 Inl (addrError hp ''unexpected ']' in address'')
               else Inr (host, drop (i + 1) hp)))"

definition joinHostPort :: "string \<Rightarrow> string \<Rightarrow> string" where
  "joinHostPort host port =
     (if indexByte CHR '':'' host \<noteq> None then ''['' @ host @ '']:'' @ port
      else host @ '':'' @ port)"

section \<open>Lemmas\<close>

subsection \<open>Searching\<close>

lemma indexByte_None_iff [simp]: "indexByte c s = None \<longleftrightarrow> c \<notin> set s"
  by (induction s) auto

lemma indexByte_append_sep: "c \<notin> set xs \<Longrightarrow> indexByte c (xs @ c # ys) = Some (length xs)"
  by (induction xs) auto

lemma lastIndexByte_None_iff [simp]: "lastIndexByte c s = None \<longleftrightarrow> c \<notin> set s"
  by (induction s) (auto split: option.splits)

lemma lastIndexByte_append_sep:
  "c \<notin> set ys \<Longrightarrow> lastIndexByte c (xs @ c # ys) = Some (length xs)"
  by (induction xs) (auto split: option.splits)

lemma splitByte_not_Nil [simp]: "splitByte c s \<noteq> []"
  by (induction s) (auto split: list.splits)

lemma splitByte_no_sep: "c \<notin> set s \<Longrightarrow> splitByte c s = [s]"
  by (induction s) (auto split: list.splits)

lemma splitByte_append_sep: "c \<notin> set f \<Longrightarrow> splitByte c (f @ c # s) = f # splitByte c s"
  by (induction f) (auto split: list.splits)

lemma splitByte_fields_no_sep: "f \<in> set (splitByte c s) \<Longrightarrow> c \<notin> set f"
proof (induction s arbitrary: f)
  case Nil
  then show ?case by simp
next
  case (Cons x s)
  obtain g gs where gs: "splitByte c s = g # gs"
    using splitByte_not_Nil [of c s] by (cases "splitByte c s") auto
  show ?case
    using Cons gs by (auto split: if_splits)
qed

subsection \<open>Numbers\<close>

lemma digitVal_digitChar [simp]: "0 \<le> d \<Longrightarrow> d < 10 \<Longrightarrow> digitVal (digitChar d) = Some d"
  by (simp add: digitVal_def digitChar_def)

lemma parseDigits_append:
  "parseDigits acc (xs @ ys) =
     (case parseDigits acc xs of None \<Rightarrow> None | Some a \<Rightarrow> parseDigits a ys)"
  by (induction xs arbitrary: acc) (auto split: option.splits)

lemma natText_not_Nil [simp]: "natText n \<noteq> []"
  by (subst natText.simps) simp

lemma parseDigits_natText:
  "0 \<le> n \<Longrightarrow> \<exists>k. parseDigits acc (natText n) = Some (10 ^ k * acc + n)"
proof (induction n arbitrary: acc rule: natText.induct)
  case (1 n)
  show ?case
  proof (cases "n < 10")
    case True
    with "1.prems" show ?thesis
      by (subst natText.simps) (auto intro: exI [of _ 1])
  next
    case False
    with "1.IH" "1.prems" obtain k
      where k: "parseDigits acc (natText (n div 10)) = Some (10 ^ k * acc + n div 10)"
      by (auto simp: pos_imp_zdiv_nonneg_iff)
    have "10 * (10 ^ k * acc + n div 10) + n mod 10 = 10 ^ Suc k * acc + n"
      by (simp add: algebra_simps)
    with False k show ?thesis
      by (subst natText.simps) (auto simp: parseDigits_append intro!: exI [of _ "Suc k"])
  qed
qed

lemma parseDigits_0_natText [simp]: "0 \<le> n \<Longrightarrow> parseDigits 0 (natText n) = Some n"
  using parseDigits_natText [of n 0] by auto

lemma digitVal_sign [simp]:
  "digitVal CHR ''-'' = None"
  "digitVal CHR ''+'' = None"
  by (simp_all add: digitVal_def)

lemma parseDigits_digits: "parseDigits acc s = Some n \<Longrightarrow> \<forall>c \<in> set s. digitVal c \<noteq> None"
  by (induction s arbitrary: acc) (auto split: option.splits)

lemma natText_digits: "0 \<le> n \<Longrightarrow> c \<in> set (natText n) \<Longrightarrow> digitVal c \<noteq> None"
  using parseDigits_digits [of 0 "natText n" n] by simp

lemma hd_natText_not_sign:
  "0 \<le> n \<Longrightarrow> hd (natText n) \<noteq> CHR ''-'' \<and> hd (natText n) \<noteq> CHR ''+''"
  using natText_digits [of n "hd (natText n)"] by (auto simp: digitVal_def)

lemma atoi_itoa: "- (2 ^ 63) \<le> v \<Longrightarrow> v < 2 ^ 63 \<Longrightarrow> atoi (itoa v) = Inr v"
  using hd_natText_not_sign [of v] by (auto simp: atoi_def itoa_def)

lemma atoi_range: "atoi s = Inr v \<Longrightarrow> - (2 ^ 63) \<le> v \<and> v < 2 ^ 63"
  by (auto simp: atoi_def Let_def split: if_splits option.splits)

lemma itoa_no_sep:
  "digitVal c = None \<Longrightarrow> c \<noteq> CHR ''-'' \<Longrightarrow> c \<notin> set (itoa v)"
  using natText_digits [of v c] natText_digits [of "- v" c] by (auto simp: itoa_def)

subsection \<open>UTF-8\<close>

lemma utf8Valid_ascii: "\<forall>b \<in> set bs. b < 0x80 \<Longrightarrow> utf8Valid bs"
  by (induction bs) auto

subsection \<open>Host and port\<close>

lemma splitHostPort_joinHostPort:
  assumes host: "CHR ''['' \<notin> set host" "CHR '']'' \<notin> set host"
    and port: "CHR '':'' \<notin> set port" "CHR ''['' \<notin> set port" "CHR '']'' \<notin> set port"
  shows "splitHostPort (joinHostPort host port) = Inr (host, port)"
proof (cases "CHR '':'' \<in> set host")
  case True
  let ?hp = "''['' @ host @ '']:'' @ port"
  have i: "lastIndexByte CHR '':'' ?hp = Some (length host + 2)"
    using lastIndexByte_append_sep [OF port(1), of "''['' @ host @ '']''"] by simp
  have e: "indexByte CHR '']'' ?hp = Some (length host + 1)"
    using indexByte_append_sep [of "CHR '']''" "''['' @ host" "CHR '':'' # port"] host(2) by simp
  from True i e host port show ?thesis
    by (simp add: joinHostPort_def splitHostPort_def)
next
  case False
  then have hd: "hd (host @ '':'' @ port) \<noteq> CHR ''[''"
    using host by (cases host) auto
  have i: "lastIndexByte CHR '':'' (host @ '':'' @ port) = Some (length host)"
    using lastIndexByte_append_sep [OF port(1), of host] by simp
  from False hd i host port show ?thesis
    by (simp add: joinHostPort_def splitHostPort_def)
qed

text \<open>Text that begins and ends with a printable ASCII character is not trimmed.\<close>

definition visible :: "char \<Rightarrow> bool" where
  "visible c \<longleftrightarrow> 33 \<le> (of_char c :: int) \<and> (of_char c :: int) \<le> 126"

lemma trimSeqs_keeps:
  assumes "\<forall>p \<in> set ps. p \<noteq> [] \<and> \<not> visible (hd p)" and "s = [] \<or> visible (hd s)"
  shows "trimSeqs ps s = s"
proof -
  have "\<not> hasPrefix s p" if "s \<noteq> []" "p \<in> set ps" for p
    using assms that by (cases p; cases s) (auto simp: hasPrefix_def)
  then have "s \<noteq> [] \<Longrightarrow> find (hasPrefix s) ps = None" by (simp add: find_None_iff)
  then show ?thesis by (subst trimSeqs.simps) simp
qed

lemma spaceRunes_ends: "\<forall>p \<in> set spaceRunes. p \<noteq> [] \<and> \<not> visible (hd p) \<and> \<not> visible (last p)"
  by code_simp

lemma trimSpace_keeps: "s = [] \<or> visible (hd s) \<and> visible (last s) \<Longrightarrow> trimSpace s = s"
proof -
  assume s: "s = [] \<or> visible (hd s) \<and> visible (last s)"
  have "\<forall>p \<in> set (map rev spaceRunes). p \<noteq> [] \<and> \<not> visible (hd p)"
    using spaceRunes_ends by (auto simp: hd_rev)
  then have "trimSeqs (map rev spaceRunes) (rev s) = rev s"
    using s by (intro trimSeqs_keeps) (auto simp only: rev_is_Nil_conv hd_rev)
  moreover have "trimSeqs spaceRunes s = s"
    using spaceRunes_ends s by (intro trimSeqs_keeps) blast+
  ultimately show ?thesis by (simp only: trimSpace_def rev_rev_ident)
qed

lemma digitVal_visible: "digitVal c \<noteq> None \<Longrightarrow> visible c"
  by (auto simp: digitVal_def visible_def Let_def split: if_splits)

lemma trimSpace_natText: "0 \<le> n \<Longrightarrow> trimSpace (natText n) = natText n"
  using natText_digits [of n "hd (natText n)"] natText_digits [of n "last (natText n)"]
  by (intro trimSpace_keeps) (simp add: digitVal_visible)

text \<open>Trimmed text stays as it is when a character outside of all space runes and more text follow.\<close>

lemma trimSeqs_drop: "\<exists>k. trimSeqs ps s = drop k s"
proof (induction ps s rule: trimSeqs.induct)
  case (1 ps s)
  show ?case
  proof (cases "find (hasPrefix s) ps")
    case None
    then show ?thesis by (intro exI [of _ 0]) (simp add: trimSeqs.simps [of ps s])
  next
    case (Some p)
    show ?thesis
    proof (cases "s = []")
      case False
      with 1 Some obtain k where "trimSeqs ps (drop (max 1 (length p)) s) = drop k (drop (max 1 (length p)) s)" by blast
      with False Some show ?thesis
        by (intro exI [of _ "k + max 1 (length p)"]) (simp add: trimSeqs.simps [of ps s] del: One_nat_def)
    qed (simp add: trimSeqs.simps [of ps "[]"])
  qed
qed

lemma trimSeqs_length: "length (trimSeqs ps s) \<le> length s"
  using trimSeqs_drop [of ps s] by auto

lemma trimSpace_set: "set (trimSpace s) \<subseteq> set s"
  using trimSeqs_drop [of spaceRunes s] trimSeqs_drop [of "map rev spaceRunes" "rev (trimSeqs spaceRunes s)"]
  by (auto simp: trimSpace_def dest!: in_set_dropD)

lemma trimSpace_left: "trimSpace s = s \<Longrightarrow> trimSeqs spaceRunes s = s"
proof -
  assume "trimSpace s = s"
  moreover have "length (trimSpace s) \<le> length (trimSeqs spaceRunes s)"
    using trimSeqs_length [of "map rev spaceRunes" "rev (trimSeqs spaceRunes s)"] by (simp add: trimSpace_def)
  ultimately have "length (trimSeqs spaceRunes s) = length s"
    using trimSeqs_length [of spaceRunes s] by simp
  moreover obtain k where "trimSeqs spaceRunes s = drop k s" using trimSeqs_drop by blast
  ultimately show ?thesis by (cases k; cases s) auto
qed

lemma trimSeqs_fixed:
  "s \<noteq> [] \<Longrightarrow> trimSeqs ps s = s \<longleftrightarrow> find (hasPrefix s) ps = None"
proof (cases "find (hasPrefix s) ps")
  case (Some p)
  assume "s \<noteq> []"
  then have "length (trimSeqs ps (drop (max 1 (length p)) s)) < length s"
    using trimSeqs_length [of ps "drop (max 1 (length p)) s"] by (cases s) auto
  then show ?thesis using Some \<open>s \<noteq> []\<close> by (subst trimSeqs.simps) auto
qed (simp add: trimSeqs.simps)

lemma hasPrefix_append_sep: "c \<notin> set p \<Longrightarrow> hasPrefix (s @ c # r) p \<longleftrightarrow> hasPrefix s p"
proof (induction p arbitrary: s)
  case (Cons x p)
  then show ?case by (cases s) (auto simp: hasPrefix_def)
qed (simp add: hasPrefix_def)

lemma spaceRunes_colon: "\<forall>p \<in> set spaceRunes. CHR '':'' \<notin> set p"
  by code_simp

lemma trimSpace_append_colon:
  assumes "trimSpace s = s" and "s \<noteq> []" and "r \<noteq> []" and "visible (last r)"
  shows "trimSpace (s @ CHR '':'' # r) = s @ CHR '':'' # r"
proof -
  have "find (hasPrefix s) spaceRunes = None"
    using trimSpace_left [OF assms(1)] trimSeqs_fixed [OF assms(2)] by blast
  then have "find (hasPrefix (s @ CHR '':'' # r)) spaceRunes = None"
    using spaceRunes_colon by (auto simp: find_None_iff hasPrefix_append_sep)
  then have "trimSeqs spaceRunes (s @ CHR '':'' # r) = s @ CHR '':'' # r"
    by (simp add: trimSeqs_fixed)
  moreover have "trimSeqs (map rev spaceRunes) (rev (s @ CHR '':'' # r)) = rev (s @ CHR '':'' # r)"
    by (rule trimSeqs_keeps) (use spaceRunes_ends assms in \<open>auto simp: hd_append hd_rev\<close>)
  ultimately show ?thesis by (simp add: trimSpace_def)
qed

text \<open>The length of a decimal number, and its bytes.\<close>

lemma natText_length: "n < 10 ^ Suc k \<Longrightarrow> length (natText n) \<le> Suc k"
proof (induction k arbitrary: n)
  case 0
  then show ?case by (simp add: natText.simps [of n])
next
  case (Suc k)
  have "n div 10 < 10 ^ Suc k" using Suc.prems by simp
  from Suc.IH [OF this] show ?case by (simp add: natText.simps [of n])
qed

lemma digit_byte: "digitVal c \<noteq> None \<Longrightarrow> (of_char c :: byte) < 0x80"
  using of_nat_of_char [of c, where ?'a = int]
  by (auto simp: digitVal_def Let_def word_less_nat_alt unat_of_char split: if_splits)

end
