(* ===== verification/Go_Netip.thy ===== *)
theory Go_Netip
  imports Go_Text
begin

text \<open>
  The part of the package \<^verbatim>\<open>net/netip\<close> the sources call: addresses, their parser and printer,
  prefixes and membership, and pairs of an address and a port. An address is invalid, an IPv4
  address, or an IPv6 address with a zone (empty when it has none).
\<close>

datatype addr = AddrInvalid | Addr4 "32 word" | Addr6 "128 word" string

section \<open>Parsing\<close>

text \<open>
  \<^verbatim>\<open>parseIPv4Fields\<close>: the loop over the characters, with the value and the number of digits of the
  current octet, the previous character and the octets that are complete.
\<close>

fun ipv4Loop :: "int \<Rightarrow> nat \<Rightarrow> char option \<Rightarrow> int list \<Rightarrow> string \<Rightarrow> int list option" where
  "ipv4Loop val digLen prev fields [] = (if length fields < 3 then None else Some (fields @ [val]))"
| "ipv4Loop val digLen prev fields (c # s) =
     (case digitVal c of
        Some d \<Rightarrow>
          if digLen = 1 \<and> val = 0 then None
          else if val * 10 + d > 255 then None
          else ipv4Loop (val * 10 + d) (digLen + 1) (Some c) fields s
      | None \<Rightarrow>
          if c = CHR ''.'' then
            if prev = None \<or> s = [] \<or> prev = Some CHR ''.'' then None
            else if length fields = 3 then None
            else ipv4Loop 0 0 (Some c) (fields @ [val]) s
          else None)"

definition parseIPv4Fields :: "string \<Rightarrow> int list option" where
  "parseIPv4Fields s = ipv4Loop 0 0 None [] s"

definition base256 :: "int list \<Rightarrow> int" where
  "base256 bs = foldl (\<lambda>a b. 256 * a + b) 0 bs"

definition parseIPv4 :: "string \<Rightarrow> addr option" where
  "parseIPv4 s = map_option (\<lambda>fs. Addr4 (of_int (base256 fs))) (parseIPv4Fields s)"

definition hexVal :: "char \<Rightarrow> int option" where
  "hexVal c =
     (let n = of_char c :: int in
      if 48 \<le> n \<and> n \<le> 57 then Some (n - 48)
      else if 97 \<le> n \<and> n \<le> 102 then Some (n - 87)
      else if 65 \<le> n \<and> n \<le> 70 then Some (n - 55)
      else None)"

text \<open>One group of hexadecimal digits: how many there are, the value and the rest of the text.\<close>

fun hexGroup :: "nat \<Rightarrow> int \<Rightarrow> string \<Rightarrow> (nat \<times> int \<times> string) option" where
  "hexGroup off acc [] = Some (off, acc, [])"
| "hexGroup off acc (c # s) =
     (case hexVal c of
        None \<Rightarrow> Some (off, acc, c # s)
      | Some d \<Rightarrow>
          if off > 3 then None
          else if acc * 16 + d > 65535 then None
          else hexGroup (off + 1) (acc * 16 + d) s)"

text \<open>
  The loop of \<^verbatim>\<open>parseIPv6\<close>: the bytes parsed so far (their number is the library's \<open>i\<close>), the
  position of the ellipsis and the rest of the text.
\<close>

function ipv6Loop :: "int list \<Rightarrow> nat option \<Rightarrow> string \<Rightarrow> (int list \<times> nat option \<times> string) option" where
  "ipv6Loop ip ell s =
     (if 16 \<le> length ip then Some (ip, ell, s)
      else
        (case hexGroup 0 0 s of
           None \<Rightarrow> None
         | Some (off, acc, rest) \<Rightarrow>
             if off = 0 then None
             else if rest \<noteq> [] \<and> hd rest = CHR ''.'' then
               if ell = None \<and> length ip \<noteq> 12 then None
               else if 16 < length ip + 4 then None
               else map_option (\<lambda>fs. (ip @ fs, ell, [])) (parseIPv4Fields s)
             else
               (case rest of
                  [] \<Rightarrow> Some (ip @ [acc div 256, acc mod 256], ell, [])
                | c # s1 \<Rightarrow>
                    if c \<noteq> CHR '':'' then None
                    else
                      (case s1 of
                         [] \<Rightarrow> None
                       | c2 # s2 \<Rightarrow>
                           if c2 = CHR '':'' then
                             if ell \<noteq> None then None
                             else if s2 = [] then Some (ip @ [acc div 256, acc mod 256], Some (length ip + 2), [])
                             else ipv6Loop (ip @ [acc div 256, acc mod 256]) (Some (length ip + 2)) s2
                           else ipv6Loop (ip @ [acc div 256, acc mod 256]) ell s1))))"
  by pat_completeness auto
termination
  by (relation "measure (\<lambda>(ip, ell, s). 16 - length ip)") auto

declare ipv6Loop.simps [simp del]

definition ipv6Finish :: "int list \<Rightarrow> nat option \<Rightarrow> string \<Rightarrow> int list option" where
  "ipv6Finish ip ell s =
     (if s \<noteq> [] then None
      else if length ip < 16 then
        (case ell of
           None \<Rightarrow> None
         | Some e \<Rightarrow> Some (take e ip @ replicate (16 - length ip) 0 @ drop e ip))
      else if ell \<noteq> None then None
      else Some ip)"

definition parseIPv6 :: "string \<Rightarrow> addr option" where
  "parseIPv6 inp =
     (let (s, zone, badZone) =
        (case indexByte CHR ''%'' inp of
           None \<Rightarrow> (inp, [], False)
         | Some i \<Rightarrow> (take i inp, drop (i + 1) inp, drop (i + 1) inp = []));
          (ell, body) = (if hasPrefix s ''::'' then (Some 0, drop 2 s) else (None, s))
      in if badZone then None
         else if ell = Some 0 \<and> body = [] then Some (Addr6 0 zone)
         else
           (case ipv6Loop [] ell body of
              None \<Rightarrow> None
            | Some (ip, ell', rest) \<Rightarrow>
                map_option (\<lambda>bs. Addr6 (of_int (base256 bs)) zone) (ipv6Finish ip ell' rest)))"

text \<open>\<^verbatim>\<open>netip.ParseAddr\<close>: the first dot, colon or percent sign decides; \<^const>\<open>None\<close> is the error.\<close>

fun parseAddrScan :: "string \<Rightarrow> string \<Rightarrow> addr option" where
  "parseAddrScan whole [] = None"
| "parseAddrScan whole (c # s) =
     (if c = CHR ''.'' then parseIPv4 whole
      else if c = CHR '':'' then parseIPv6 whole
      else if c = CHR ''%'' then None
      else parseAddrScan whole s)"

definition parseAddr :: "string \<Rightarrow> addr option" where
  "parseAddr s = parseAddrScan s s"

section \<open>Classification\<close>

fun isValid :: "addr \<Rightarrow> bool" where
  "isValid AddrInvalid = False"
| "isValid _ = True"

fun is4 :: "addr \<Rightarrow> bool" where
  "is4 (Addr4 _) = True"
| "is4 _ = False"

fun is6 :: "addr \<Rightarrow> bool" where
  "is6 (Addr6 _ _) = True"
| "is6 _ = False"

text \<open>An IPv4-mapped IPv6 address becomes the IPv4 address; its zone is dropped.\<close>

fun unmap :: "addr \<Rightarrow> addr" where
  "unmap (Addr6 v z) = (if drop_bit 32 v = 0xFFFF then Addr4 (ucast v) else Addr6 v z)"
| "unmap a = a"

section \<open>Prefixes\<close>

type_synonym prefix = "addr \<times> nat"

text \<open>\<^verbatim>\<open>netip.ParsePrefix\<close>.\<close>

definition parsePrefix :: "string \<Rightarrow> prefix option" where
  "parsePrefix s =
     (case lastIndexByte CHR ''/'' s of
        None \<Rightarrow> None
      | Some i \<Rightarrow>
          (let bitsText = drop (i + 1) s in
           case parseAddr (take i s) of
             None \<Rightarrow> None
           | Some ip \<Rightarrow>
               if (case ip of Addr6 _ z \<Rightarrow> z \<noteq> [] | _ \<Rightarrow> False) then None
               else if 1 < length bitsText \<and> (hd bitsText = CHR ''0'' \<or> digitVal (hd bitsText) = None) then None
               else
                 (case atoi bitsText of
                    Inl _ \<Rightarrow> None
                  | Inr bits \<Rightarrow>
                      if bits < 0 \<or> (if is6 ip then 128 else 32) < bits then None
                      else Some (ip, nat bits))))"

text \<open>
  \<^verbatim>\<open>Prefix.Contains\<close>: an address of the other family is not contained, and neither is any address with a
  zone, as the library documents.
\<close>

fun prefixContains :: "prefix \<Rightarrow> addr \<Rightarrow> bool" where
  "prefixContains (Addr4 p, bits) (Addr4 a) = (drop_bit (32 - bits) (a XOR p) = 0)"
| "prefixContains (Addr6 p _, bits) (Addr6 a z) = (z = [] \<and> drop_bit (128 - bits) (a XOR p) = 0)"
| "prefixContains _ _ = False"

section \<open>Printing\<close>

definition octet :: "nat \<Rightarrow> 32 word \<Rightarrow> int" where
  "octet i v = uint (drop_bit (8 * i) v AND 0xFF)"

definition ipv4Text :: "32 word \<Rightarrow> string" where
  "ipv4Text v =
     natText (octet 3 v) @ ''.'' @ natText (octet 2 v) @ ''.'' @ natText (octet 1 v) @ ''.'' @ natText (octet 0 v)"

definition group16 :: "128 word \<Rightarrow> nat \<Rightarrow> int" where
  "group16 v i = uint (drop_bit (16 * (7 - i)) v AND 0xFFFF)"

definition hexDigit :: "int \<Rightarrow> char" where
  "hexDigit d = (if d < 10 then char_of (48 + d) else char_of (87 + d))"

function hexText :: "int \<Rightarrow> string" where
  "hexText n = (if n < 16 then [hexDigit n] else hexText (n div 16) @ [hexDigit (n mod 16)])"
  by pat_completeness auto
termination
  by (relation "measure nat") auto

declare hexText.simps [simp del]

text \<open>The end of the run of zero groups that starts at \<open>i\<close>, then the first longest run of at least two.\<close>

definition zeroRun :: "128 word \<Rightarrow> nat \<Rightarrow> nat" where
  "zeroRun v i = i + length (takeWhile (\<lambda>j. group16 v j = 0) [i..<8])"

definition zeroSpan :: "128 word \<Rightarrow> nat \<times> nat" where
  "zeroSpan v =
     foldl (\<lambda>(zs, ze) i. let j = zeroRun v i in if 2 \<le> j - i \<and> ze - zs < j - i then (i, j) else (zs, ze))
       (255, 255) [0..<8]"

definition groupsText :: "128 word \<Rightarrow> nat list \<Rightarrow> string" where
  "groupsText v is = concat (map (\<lambda>i. (if i = hd is then [] else '':'') @ hexText (group16 v i)) is)"

definition ipv6Text :: "128 word \<Rightarrow> string" where
  "ipv6Text v =
     (let (zs, ze) = zeroSpan v in
      if zs = 255 then groupsText v [0..<8]
      else groupsText v [0..<zs] @ ''::'' @ groupsText v [ze..<8])"

definition zoneText :: "string \<Rightarrow> string" where
  "zoneText z = (if z = [] then [] else ''%'' @ z)"

text \<open>\<^verbatim>\<open>Addr.String\<close>\<close>

fun addrString :: "addr \<Rightarrow> string" where
  "addrString AddrInvalid = ''invalid IP''"
| "addrString (Addr4 v) = ipv4Text v"
| "addrString (Addr6 v z) =
     (if drop_bit 32 v = 0xFFFF then ''::ffff:'' @ ipv4Text (ucast v) @ zoneText z
      else ipv6Text v @ zoneText z)"

section \<open>Address and port\<close>

record addrPort =
  ap_addr :: addr
  ap_port :: u16

definition addrPortFrom :: "addr \<Rightarrow> u16 \<Rightarrow> addrPort" where
  "addrPortFrom a p = \<lparr>ap_addr = a, ap_port = p\<rparr>"

definition zeroAddrPort :: addrPort where
  "zeroAddrPort = \<lparr>ap_addr = AddrInvalid, ap_port = 0\<rparr>"

definition apIsValid :: "addrPort \<Rightarrow> bool" where
  "apIsValid ap = isValid (ap_addr ap)"

definition addrPortString :: "addrPort \<Rightarrow> string" where
  "addrPortString ap =
     (case ap_addr ap of
        AddrInvalid \<Rightarrow> ''invalid AddrPort''
      | Addr4 v \<Rightarrow> ipv4Text v @ '':'' @ natText (uint (ap_port ap))
      | Addr6 v z \<Rightarrow> ''['' @ addrString (Addr6 v z) @ '']:'' @ natText (uint (ap_port ap)))"

text \<open>
  \<^verbatim>\<open>netip.ParseAddrPort\<close>: the last colon splits; brackets are for IPv6 only; the port is a decimal
  number of 16 bits without a sign.
\<close>

definition parsePort16 :: "string \<Rightarrow> u16 option" where
  "parsePort16 s =
     (if s = [] then None
      else (case parseDigits 0 s of
              None \<Rightarrow> None
            | Some n \<Rightarrow> if n \<le> 65535 then Some (of_int n) else None))"

definition parseAddrPort :: "string \<Rightarrow> addrPort option" where
  "parseAddrPort s =
     (case lastIndexByte CHR '':'' s of
        None \<Rightarrow> None
      | Some i \<Rightarrow>
          (let ip = take i s; port = drop (i + 1) s in
           if ip = [] \<or> port = [] then None
           else if hd ip = CHR ''['' \<and> (length ip < 2 \<or> last ip \<noteq> CHR '']'') then None
           else
             (let bracketed = (hd ip = CHR ''['');
                  text = (if bracketed then butlast (tl ip) else ip)
              in case parsePort16 port of
                   None \<Rightarrow> None
                 | Some p \<Rightarrow>
                     (case parseAddr text of
                        None \<Rightarrow> None
                      | Some a \<Rightarrow>
                          if bracketed \<and> is4 a \<or> \<not> bracketed \<and> is6 a then None
                          else Some (addrPortFrom a p)))))"

section \<open>Lemmas\<close>

lemma unmap_unmap [simp]: "unmap (unmap a) = unmap a"
  by (cases a) auto

lemma isValid_unmap [simp]: "isValid (unmap a) = isValid a"
  by (cases a) auto

lemma is4_is6_isValid: "isValid a \<longleftrightarrow> is4 a \<or> is6 a"
  by (cases a) auto

lemma is4_not_is6: "is4 a \<Longrightarrow> \<not> is6 a"
  by (cases a) auto

lemma parseAddrScan_valid: "parseAddrScan w s = Some a \<Longrightarrow> isValid a"
  by (induction w s rule: parseAddrScan.induct)
    (auto simp: parseIPv4_def parseIPv6_def Let_def split: if_splits option.splits prod.splits)

lemma parseAddr_valid: "parseAddr s = Some a \<Longrightarrow> isValid a"
  unfolding parseAddr_def by (rule parseAddrScan_valid)

text \<open>Membership in a prefix as an interval of numbers.\<close>

lemma xor_eq_0_iff: "x XOR y = 0 \<longleftrightarrow> x = (y :: 'a::len word)"
proof
  assume "x XOR y = 0"
  then have "(x XOR y) XOR y = y" by simp
  then show "x = y" by (simp add: xor.assoc)
qed simp

lemma drop_bit_xor_eq_0:
  "drop_bit n (a XOR p) = 0 \<longleftrightarrow> uint a div 2 ^ n = uint (p :: 'a::len word) div 2 ^ n"
proof -
  have "drop_bit n (a XOR p) = 0 \<longleftrightarrow> drop_bit n a XOR drop_bit n p = 0"
    by (simp add: drop_bit_xor)
  also have "\<dots> \<longleftrightarrow> drop_bit n a = drop_bit n p"
    by (simp add: xor_eq_0_iff)
  also have "\<dots> \<longleftrightarrow> uint (drop_bit n a) = uint (drop_bit n p)"
    by (rule word_uint_eq_iff)
  also have "\<dots> \<longleftrightarrow> uint a div 2 ^ n = uint p div 2 ^ n"
    by (simp only: unsigned_drop_bit_eq bintr_uint order_refl) (simp add: drop_bit_eq_div)
  finally show ?thesis .
qed

lemma int_div_eq_interval:
  assumes "0 < (d :: int)"
  shows "x div d = k \<longleftrightarrow> k * d \<le> x \<and> x < (k + 1) * d"
proof
  assume "x div d = k"
  moreover have "x = d * (x div d) + x mod d" by simp
  moreover have "0 \<le> x mod d" and "x mod d < d" using assms by simp_all
  ultimately show "k * d \<le> x \<and> x < (k + 1) * d" by (simp add: algebra_simps)
next
  assume "k * d \<le> x \<and> x < (k + 1) * d"
  then show "x div d = k"
    by (intro int_div_pos_eq [of x d k "x - d * k"]) (simp_all add: algebra_simps)
qed

text \<open>
  Membership in a prefix of \<open>bits\<close> bits, as the interval of numbers it covers: \<open>k\<close> is the prefix
  without its host part.
\<close>

lemma drop_bit_xor_interval:
  "uint p = k * 2 ^ n \<Longrightarrow>
     drop_bit n (a XOR p) = 0 \<longleftrightarrow> uint p \<le> uint a \<and> uint a < uint (p :: 'a::len word) + 2 ^ n"
  by (simp add: drop_bit_xor_eq_0 int_div_eq_interval algebra_simps del: drop_bit_xor)

lemma drop_bit_eq_0_interval: "drop_bit n a = 0 \<longleftrightarrow> uint (a :: 'a::len word) < 2 ^ n"
  using drop_bit_xor_interval [of 0 0 n a] by simp

lemmas prefix_intervals = drop_bit_xor_eq_0 int_div_eq_interval

subsection \<open>Dotted addresses\<close>

lemma natText_octet:
  assumes "0 \<le> n" and "n \<le> 255"
  obtains (one) "n < 10" "natText n = [digitChar n]"
    | (two) a b where "0 < a" "a < 10" "0 \<le> b" "b < 10" "n = a * 10 + b" "natText n = [digitChar a, digitChar b]"
    | (three) a b c where "0 < a" "a < 10" "0 \<le> b" "b < 10" "0 \<le> c" "c < 10" "n = (a * 10 + b) * 10 + c"
        "natText n = [digitChar a, digitChar b, digitChar c]"
proof -
  have o: "natText m = [digitChar m]" if "m < 10" for m
    using that by (simp add: natText.simps)
  have t: "natText m = [digitChar (m div 10), digitChar (m mod 10)]" if "10 \<le> m" "m < 100" for m
    using that by (simp add: natText.simps [of m] o)
  consider "n < 10" | "10 \<le> n" "n < 100" | "100 \<le> n" by linarith
  then show ?thesis
  proof cases
    case 1
    with o show ?thesis by (intro one)
  next
    case 2
    then show ?thesis
      using t by (intro two [of "n div 10" "n mod 10"]) simp_all
  next
    case 3
    let ?m = "n div 10"
    have m: "10 \<le> ?m" "?m < 100" using 3 assms by simp_all
    show ?thesis
    proof (rule three [of "?m div 10" "?m mod 10" "n mod 10"])
      show "0 < ?m div 10" "?m div 10 < 10" using m by simp_all
      have "natText n = natText ?m @ [digitChar (n mod 10)]"
        using 3 by (subst natText.simps) simp
      then show "natText n = [digitChar (?m div 10), digitChar (?m mod 10), digitChar (n mod 10)]"
        using t [OF m] by (simp only: append.simps)
      show "n = (?m div 10 * 10 + ?m mod 10) * 10 + n mod 10" by (simp only: div_mult_mod_eq)
    qed simp_all
  qed
qed

lemma digitVal_separators [simp]:
  "digitVal CHR ''.'' = None" "digitVal CHR '':'' = None" "digitVal CHR ''%'' = None"
  by code_simp+

lemma ipv4Loop_digit:
  "0 \<le> d \<Longrightarrow> d < 10 \<Longrightarrow> \<not> (k = 1 \<and> val = 0) \<Longrightarrow> val * 10 + d \<le> 255 \<Longrightarrow>
     ipv4Loop val k prev fs (digitChar d # s) = ipv4Loop (val * 10 + d) (k + 1) (Some (digitChar d)) fs s"
  by auto

lemma ipv4Loop_octet:
  assumes "0 \<le> n" and "n \<le> 255"
  shows "\<exists>k. ipv4Loop 0 0 prev fs (natText n @ s) = ipv4Loop n k (Some (last (natText n))) fs s"
  using assms
proof (cases rule: natText_octet)
  case one
  then show ?thesis
    using ipv4Loop_digit [of n 0 0 prev fs s] assms by auto
next
  case (two a b)
  then show ?thesis
    using ipv4Loop_digit [of a 0 0 prev fs "digitChar b # s"] ipv4Loop_digit [of b 1 a "Some (digitChar a)" fs s]
    by auto
next
  case (three a b c)
  then show ?thesis
    using ipv4Loop_digit [of a 0 0 prev fs "digitChar b # digitChar c # s"]
      ipv4Loop_digit [of b 1 a "Some (digitChar a)" fs "digitChar c # s"]
      ipv4Loop_digit [of c 2 "a * 10 + b" "Some (digitChar b)" fs s] assms
    by auto
qed

lemma last_natText_not_dot: "0 \<le> n \<Longrightarrow> last (natText n) \<noteq> CHR ''.''"
  using natText_digits [of n "last (natText n)"] by auto

lemma octet_eq: "octet i v = uint v div 2 ^ (8 * i) mod 256"
proof -
  have "(0xFF :: 32 word) = mask 8" by (simp add: mask_eq_exp_minus_1)
  then have "octet i v = uint (take_bit 8 (drop_bit (8 * i) v))"
    by (simp only: octet_def take_bit_eq_mask)
  then have "octet i v = take_bit 8 (uint (drop_bit (8 * i) v))"
    by (simp only: unsigned_take_bit_eq)
  moreover have "take_bit LENGTH(32) (uint v) = uint v"
    by (rule take_bit_int_eq_self) (use uint_lt2p [of v] in simp_all)
  then have "uint (drop_bit (8 * i) v) = uint v div 2 ^ (8 * i)"
    by (simp only: unsigned_drop_bit_eq) (simp only: drop_bit_eq_div)
  ultimately show ?thesis
    by (simp add: take_bit_eq_mod)
qed

lemma octet_bounds: "0 \<le> octet i v \<and> octet i v \<le> 255"
  using pos_mod_bound [of 256 "uint v div 2 ^ (8 * i)"] by (simp add: octet_eq)

lemma ipv4Loop_octet_dot:
  assumes "0 \<le> n" and "n \<le> 255" and "s \<noteq> []" and "length fs \<noteq> 3"
  shows "ipv4Loop 0 0 prev fs (natText n @ CHR ''.'' # s) = ipv4Loop 0 0 (Some CHR ''.'') (fs @ [n]) s"
  using ipv4Loop_octet [OF assms(1,2), of prev fs "CHR ''.'' # s"] assms(3,4) last_natText_not_dot [OF assms(1)]
  by auto

lemma ipv4Loop_octet_end:
  assumes "0 \<le> n" and "n \<le> 255" and "length fs = 3"
  shows "ipv4Loop 0 0 prev fs (natText n) = Some (fs @ [n])"
  using ipv4Loop_octet [OF assms(1,2), of prev fs "[]"] assms(3) by auto

lemma parseIPv4Fields_ipv4Text:
  "parseIPv4Fields (ipv4Text v) = Some [octet 3 v, octet 2 v, octet 1 v, octet 0 v]"
  using octet_bounds [of _ v]
  by (simp add: parseIPv4Fields_def ipv4Text_def ipv4Loop_octet_dot ipv4Loop_octet_end)

lemma base256_octets: "base256 [octet 3 v, octet 2 v, octet 1 v, octet 0 v] = uint v"
proof -
  let ?u = "uint v"
  have "?u < 2 ^ 32" "0 \<le> ?u" using uint_lt2p [of v] by simp_all
  then have "?u div 256 div 256 div 256 < 256" "0 \<le> ?u div 256 div 256 div 256"
    by (simp_all add: pos_imp_zdiv_nonneg_iff)
  moreover have "?u div 16777216 = ?u div 256 div 256 div 256" by simp
  ultimately have top: "octet 3 v = ?u div 256 div 256 div 256" by (simp add: octet_eq)
  have "?u div 65536 = ?u div 256 div 256" by simp
  then have "octet 2 v = ?u div 256 div 256 mod 256" by (simp add: octet_eq)
  moreover have "octet 1 v = ?u div 256 mod 256" "octet 0 v = ?u mod 256"
    by (simp_all add: octet_eq)
  ultimately show ?thesis
    by (simp only: base256_def top foldl.simps mult_zero_right add_0 mult_div_mod_eq)
qed

lemma parseIPv4_ipv4Text: "parseIPv4 (ipv4Text v) = Some (Addr4 v)"
  by (simp only: parseIPv4_def parseIPv4Fields_ipv4Text base256_octets option.map word_of_int_uint)

text \<open>The first character that decides is the dot after the first octet.\<close>

lemma parseAddrScan_digits:
  "\<forall>c \<in> set ds. digitVal c \<noteq> None \<Longrightarrow> parseAddrScan w (ds @ s) = parseAddrScan w s"
  by (induction ds) auto

lemma parseAddr_ipv4Text: "parseAddr (ipv4Text v) = Some (Addr4 v)"
proof -
  have "\<forall>c \<in> set (natText (octet 3 v)). digitVal c \<noteq> None"
    using octet_bounds [of 3 v] natText_digits by blast
  then have "parseAddrScan w (ipv4Text v) = parseIPv4 w" for w
    by (simp only: ipv4Text_def parseAddrScan_digits) simp
  then show ?thesis
    by (simp add: parseAddr_def parseIPv4_ipv4Text)
qed

subsection \<open>Texts that are no addresses\<close>

lemma ipv4Loop_foreign:
  "c \<in> set s \<Longrightarrow> digitVal c = None \<Longrightarrow> c \<noteq> CHR ''.'' \<Longrightarrow> ipv4Loop val k prev fs s = None"
  by (induction val k prev fs s rule: ipv4Loop.induct) (auto split: option.split)

lemma parseIPv4_foreign: "c \<in> set s \<Longrightarrow> digitVal c = None \<Longrightarrow> c \<noteq> CHR ''.'' \<Longrightarrow> parseIPv4 s = None"
  by (simp add: parseIPv4_def parseIPv4Fields_def ipv4Loop_foreign)

lemma parseAddrScan_cases:
  "parseIPv4 w = None \<Longrightarrow> parseIPv6 w = None \<Longrightarrow> parseAddrScan w s = None"
  by (induction s) auto

lemma hexGroup_suffix: "hexGroup off acc s = Some (off', acc', rest) \<Longrightarrow> \<exists>pre. s = pre @ rest \<and> off \<le> off'"
proof (induction off acc s rule: hexGroup.induct)
  case (2 off acc c s)
  show ?case
  proof (cases "hexVal c")
    case (Some d)
    with 2 obtain pre where "s = pre @ rest" "off + 1 \<le> off'" by (fastforce split: if_splits)
    then show ?thesis by (intro exI [of _ "c # pre"]) simp
  qed (use 2 in auto)
qed auto

lemma ipv6Loop_bracket: "ipv6Loop [] ell (CHR ''['' # s) = None"
  by (simp add: ipv6Loop.simps [of "[]"] hexVal_def)

lemma parseAddr_bracket: "parseAddr (CHR ''['' # s) = None"
proof -
  have "parseIPv4 (CHR ''['' # s) = None" by (rule parseIPv4_foreign [of "CHR ''[''"]) (simp_all add: digitVal_def)
  moreover have "parseIPv6 (CHR ''['' # s) = None"
    by (simp add: parseIPv6_def hasPrefix_def ipv6Loop_bracket Let_def split: option.split)
  ultimately show ?thesis by (simp add: parseAddr_def parseAddrScan_cases)
qed

text \<open>Without an ellipsis, one colon separates at most two groups.\<close>

lemma ipv6Loop_step:
  assumes "ipv6Loop ip None s = Some (ip', ell, rest)" and "length ip < 12"
  obtains (last) off acc where "hexGroup 0 0 s = Some (off, acc, [])" "ip' = ip @ [acc div 256, acc mod 256]" "ell = None"
  | (more) off acc s1 where "hexGroup 0 0 s = Some (off, acc, CHR '':'' # s1)"
      "CHR '':'' \<notin> set s1 \<Longrightarrow> ipv6Loop (ip @ [acc div 256, acc mod 256]) None s1 = Some (ip', ell, rest)"
proof -
  obtain off acc rest' where group: "hexGroup 0 0 s = Some (off, acc, rest')"
    using assms by (cases "hexGroup 0 0 s") (auto simp: ipv6Loop.simps [of ip])
  show thesis
  proof (cases rest')
    case Nil
    with assms group show thesis by (intro last) (auto simp: ipv6Loop.simps [of ip] split: if_splits)
  next
    case (Cons c s1)
    with assms group have "c = CHR '':''" by (auto simp: ipv6Loop.simps [of ip] split: if_splits)
    with assms group Cons show thesis
      by (intro more [of off acc s1]) (cases s1; auto simp: ipv6Loop.simps [of ip] split: if_splits)+
  qed
qed

lemma ipv6Loop_no_colon:
  assumes "ipv6Loop ip None s = Some (ip', ell, rest)" and "CHR '':'' \<notin> set s" and "length ip < 12"
  shows "length ip' \<le> length ip + 2 \<and> ell = None"
  using assms(1,3)
proof (cases rule: ipv6Loop_step)
  case (more off acc s1)
  with hexGroup_suffix assms(2) show ?thesis by fastforce
qed simp

lemma ipv6Loop_one_colon:
  assumes "countByte CHR '':'' s \<le> 1" and "ipv6Loop [] None s = Some (ip, ell, rest)"
  shows "length ip \<le> 4 \<and> ell = None"
proof (cases rule: ipv6Loop_step [OF assms(2)])
  case (3 off acc s1)
  from hexGroup_suffix [OF 3(1)] obtain pre where "s = pre @ CHR '':'' # s1" by blast
  then have "CHR '':'' \<notin> set s1" using assms(1) by (auto simp: countByte_def filter_empty_conv)
  with 3(2) ipv6Loop_no_colon [of "[] @ [acc div 256, acc mod 256]" s1 ip ell rest] show ?thesis by simp
qed simp_all

lemma parseIPv6_one_colon:
  assumes "countByte CHR '':'' s \<le> 1"
  shows "parseIPv6 s = None"
proof -
  have no_ellipsis: "\<not> hasPrefix t ''::''" if "countByte CHR '':'' t \<le> 1" for t
    using that by (cases t; cases "tl t") (auto simp: hasPrefix_def countByte_def)
  have finish: "ipv6Finish ip ell rest = None" if "countByte CHR '':'' t \<le> 1" "ipv6Loop [] None t = Some (ip, ell, rest)" for t ip ell rest
    using ipv6Loop_one_colon [OF that] by (simp add: ipv6Finish_def)
  have few: "countByte CHR '':'' (take i s) \<le> 1" for i
  proof -
    have "countByte CHR '':'' s = countByte CHR '':'' (take i s) + countByte CHR '':'' (drop i s)"
      unfolding countByte_def by (metis append_take_drop_id filter_append length_append)
    with assms show ?thesis by simp
  qed
  show ?thesis
  proof (cases "indexByte CHR ''%'' s")
    case None
    show ?thesis
      using no_ellipsis [OF assms] finish [OF assms] by (simp add: parseIPv6_def None split: option.split)
  next
    case (Some i)
    show ?thesis
      using no_ellipsis [OF few [of i]] finish [OF few [of i]] by (simp add: parseIPv6_def Some split: option.split)
  qed
qed

lemma parseAddr_one_colon:
  assumes "countByte CHR '':'' s = 1"
  shows "parseAddr s = None"
proof -
  have "filter (\<lambda>x. x = CHR '':'') s \<noteq> []" using assms by (auto simp: countByte_def)
  then have "CHR '':'' \<in> set s" by (auto simp: filter_empty_conv)
  then have "parseIPv4 s = None" by (rule parseIPv4_foreign) simp_all
  moreover have "parseIPv6 s = None" using assms by (simp add: parseIPv6_one_colon)
  ultimately show ?thesis by (simp add: parseAddr_def parseAddrScan_cases)
qed

end
