(* ===== verification/Endpoint.thy ===== *)
theory Endpoint
  imports Go_Netip
begin

text \<open>
  \<^verbatim>\<open>endpoint.go\<close>: address families, the endpoint of a connection, normalisation and validation of a
  server name, the checked conversion to 16 bits, and the filter of non-public addresses with its
  list of prefixes.
\<close>

section \<open>Definitions\<close>

definition defaultJavaPort :: int where
  "defaultJavaPort = 25565"

definition defaultMinecraftPort :: int where
  "defaultMinecraftPort = defaultJavaPort"

definition maxServerAddressLength :: int where
  "maxServerAddressLength = 253"

text \<open>The byte \<^verbatim>\<open>addressFamily\<close>: its three named values, and the other 253 in one constructor.\<close>

datatype addressFamily = addressFamilyAny | addressFamily4 | addressFamily6 | addressFamilyOther byte

record pingOptions =
  addressFamily_of :: addressFamily
  allowPrivateAddresses :: bool

text \<open>\<^verbatim>\<open>mustParsePrefix\<close> panics on a text that is not a prefix: no prefix is the panic.\<close>

definition mustParsePrefix :: "string \<Rightarrow> prefix option" where
  "mustParsePrefix raw = parsePrefix raw"

definition nonPublicIPPrefixes :: "prefix option list" where
  "nonPublicIPPrefixes =
     [mustParsePrefix ''0.0.0.0/8'',
      mustParsePrefix ''10.0.0.0/8'',
      mustParsePrefix ''100.64.0.0/10'',
      mustParsePrefix ''127.0.0.0/8'',
      mustParsePrefix ''169.254.0.0/16'',
      mustParsePrefix ''172.16.0.0/12'',
      mustParsePrefix ''192.0.0.0/24'',
      mustParsePrefix ''192.0.2.0/24'',
      mustParsePrefix ''192.168.0.0/16'',
      mustParsePrefix ''198.18.0.0/15'',
      mustParsePrefix ''198.51.100.0/24'',
      mustParsePrefix ''203.0.113.0/24'',
      mustParsePrefix ''224.0.0.0/4'',
      mustParsePrefix ''240.0.0.0/4'',
      mustParsePrefix ''::/128'',
      mustParsePrefix ''::1/128'',
      mustParsePrefix ''100::/64'',
      mustParsePrefix ''2001:db8::/32'',
      mustParsePrefix ''fc00::/7'',
      mustParsePrefix ''fe80::/10'',
      mustParsePrefix ''ff00::/8'']"

record endpoint =
  Host :: string
  Port :: int

record endpointRoute =
  Dial :: endpoint
  Handshake :: endpoint

fun family_validate :: "addressFamily \<Rightarrow> unit result" where
  "family_validate (addressFamilyOther f) = Inl (Errorf ''invalid address family: %d'' [AInt (uint f)])"
| "family_validate _ = Inr ()"

fun resolverNetwork :: "addressFamily \<Rightarrow> string" where
  "resolverNetwork addressFamily4 = ''ip4''"
| "resolverNetwork addressFamily6 = ''ip6''"
| "resolverNetwork _ = ''ip''"

fun family_matches :: "addressFamily \<Rightarrow> addr \<Rightarrow> bool" where
  "family_matches addressFamily4 a = is4 (unmap a)"
| "family_matches addressFamily6 a = is6 (unmap a)"
| "family_matches _ a = isValid (unmap a)"

fun forcedFlag :: "addressFamily \<Rightarrow> string" where
  "forcedFlag addressFamily4 = ''-4''"
| "forcedFlag addressFamily6 = ''-6''"
| "forcedFlag _ = ''''"

fun family_String :: "addressFamily \<Rightarrow> string" where
  "family_String addressFamily4 = ''IPv4''"
| "family_String addressFamily6 = ''IPv6''"
| "family_String _ = ''IP''"

definition addressFamilyForAddr :: "addr \<Rightarrow> addressFamily" where
  "addressFamilyForAddr a = (if is6 (unmap a) then addressFamily6 else addressFamily4)"

definition unbracketIPv6Literal :: "string \<Rightarrow> string option" where
  "unbracketIPv6Literal host =
     (if length host < 2 \<or> hd host \<noteq> CHR ''['' \<or> last host \<noteq> CHR '']'' then None
      else
        (let literal = butlast (tl host) in
         if parseAddr literal = None then None else Some literal))"

definition normalizeHost :: "string \<Rightarrow> string" where
  "normalizeHost host =
     (let host = trimSpace host in
      case unbracketIPv6Literal host of Some unbracketed \<Rightarrow> unbracketed | None \<Rightarrow> host)"

definition newEndpoint :: "string \<Rightarrow> int \<Rightarrow> endpoint" where
  "newEndpoint host port = \<lparr>Host = normalizeHost host, Port = port\<rparr>"

definition toUint16 :: "int \<Rightarrow> u16 result" where
  "toUint16 value =
     (if value < 0 \<or> value > 65535 then Inl (Errorf ''value %d is out of uint16 range'' [AInt value])
      else Inr (of_int value))"

definition uint16Port :: "endpoint \<Rightarrow> u16 result" where
  "uint16Port e = toUint16 (Port e)"

definition endpoint_literalIP :: "endpoint \<Rightarrow> addr option" where
  "endpoint_literalIP e = map_option unmap (parseAddr (Host e))"

definition controlChar :: "char \<Rightarrow> bool" where
  "controlChar c \<longleftrightarrow> (of_char c :: int) \<le> 0x1F \<or> (of_char c :: int) = 0x7F"

definition validateServerAddress :: "string \<Rightarrow> unit result" where
  "validateServerAddress server =
     (if int (length server) > maxServerAddressLength then
        Inl (Errorf ''server must not exceed %d bytes'' [AInt maxServerAddressLength])
      else if CHR ''['' \<in> set server \<or> CHR '']'' \<in> set server then
        Inl (ErrNew ''server must not use brackets'')
      else if list_ex controlChar server then
        Inl (ErrNew ''server contains control characters'')
      else if CHR '':'' \<in> set server \<and> parseAddr server = None then
        Inl (ErrNew ''server must not include a port'')
      else Inr ())"

text \<open>The loop over the prefixes; a prefix that did not parse would have stopped the program before.\<close>

definition isNonPublicAddr :: "addr \<Rightarrow> bool" where
  "isNonPublicAddr a =
     (let a = unmap a in
      if \<not> isValid a then True
      else list_ex (\<lambda>p. case p of Some q \<Rightarrow> prefixContains q a | None \<Rightarrow> False) nonPublicIPPrefixes)"

section \<open>Lemmas\<close>

lemma toUint16_Inr_iff [result_simps]:
  "toUint16 v = Inr p \<longleftrightarrow> 0 \<le> v \<and> v \<le> 65535 \<and> p = of_int v"
  by (auto simp: toUint16_def)

lemma uint_toUint16: "toUint16 v = Inr p \<Longrightarrow> uint p = v"
  by (auto simp: toUint16_def take_bit_int_eq_self_iff unsigned_of_int split: if_splits)

text \<open>The table of prefixes, parsed.\<close>

lemma nonPublicIPPrefixes_eq:
  "nonPublicIPPrefixes =
     map Some
       [(Addr4 0, 8), (Addr4 0x0A000000, 8), (Addr4 0x64400000, 10), (Addr4 0x7F000000, 8),
        (Addr4 0xA9FE0000, 16), (Addr4 0xAC100000, 12), (Addr4 0xC0000000, 24), (Addr4 0xC0000200, 24),
        (Addr4 0xC0A80000, 16), (Addr4 0xC6120000, 15), (Addr4 0xC6336400, 24), (Addr4 0xCB007100, 24),
        (Addr4 0xE0000000, 4), (Addr4 0xF0000000, 4),
        (Addr6 0 [], 128), (Addr6 1 [], 128), (Addr6 0x01000000000000000000000000000000 [], 64),
        (Addr6 0x20010DB8000000000000000000000000 [], 32), (Addr6 0xFC000000000000000000000000000000 [], 7),
        (Addr6 0xFE800000000000000000000000000000 [], 10), (Addr6 0xFF000000000000000000000000000000 [], 8)]"
  by code_simp

section \<open>Properties\<close>

text \<open>
  C28: the non-public IPv4 addresses are exactly these ranges of numbers, which are the blocks of the table:
  0/8, 10/8, 100.64/10, 127/8, 169.254/16, 172.16/12, 192.0.0/24, 192.0.2/24, 192.168/16, 198.18/15,
  198.51.100/24, 203.0.113/24 and everything from 224.0.0.0 on.
\<close>

theorem nonpublic_ipv4_ranges:
  "isNonPublicAddr (Addr4 a) \<longleftrightarrow>
     (let x = uint a in
        x < 0x01000000 \<or>
        (0x0A000000 \<le> x \<and> x < 0x0B000000) \<or>
        (0x64400000 \<le> x \<and> x < 0x64800000) \<or>
        (0x7F000000 \<le> x \<and> x < 0x80000000) \<or>
        (0xA9FE0000 \<le> x \<and> x < 0xA9FF0000) \<or>
        (0xAC100000 \<le> x \<and> x < 0xAC200000) \<or>
        (0xC0000000 \<le> x \<and> x < 0xC0000100) \<or>
        (0xC0000200 \<le> x \<and> x < 0xC0000300) \<or>
        (0xC0A80000 \<le> x \<and> x < 0xC0A90000) \<or>
        (0xC6120000 \<le> x \<and> x < 0xC6140000) \<or>
        (0xC6336400 \<le> x \<and> x < 0xC6336500) \<or>
        (0xCB007100 \<le> x \<and> x < 0xCB007200) \<or>
        (0xE0000000 \<le> x \<and> x < 0xF0000000) \<or>
        0xF0000000 \<le> x)"
proof -
  have lt: "uint a < 2 ^ 32"
    using uint_lt2p [of a] by simp
  show ?thesis
    using lt
    by (simp add: isNonPublicAddr_def nonPublicIPPrefixes_eq Let_def prefix_intervals
        del: drop_bit_xor) (simp add: drop_bit_eq_0_interval)
qed

text \<open>
  C29: the non-public IPv6 addresses, without a zone and not IPv4-mapped, are exactly the unspecified and the
  loopback address, 100::/64, 2001:db8::/32, fc00::/7, fe80::/10 and ff00::/8.
\<close>

theorem nonpublic_ipv6_ranges:
  assumes "drop_bit 32 a \<noteq> 0xFFFF"
  shows "isNonPublicAddr (Addr6 a []) \<longleftrightarrow>
     (let x = uint a in
        x = 0 \<or> x = 1 \<or>
        (0x01000000000000000000000000000000 \<le> x \<and> x < 0x01000000000000010000000000000000) \<or>
        (0x20010DB8000000000000000000000000 \<le> x \<and> x < 0x20010DB9000000000000000000000000) \<or>
        (0xFC000000000000000000000000000000 \<le> x \<and> x < 0xFE000000000000000000000000000000) \<or>
        (0xFE800000000000000000000000000000 \<le> x \<and> x < 0xFEC00000000000000000000000000000) \<or>
        0xFF000000000000000000000000000000 \<le> x)"
proof -
  have lt: "uint a < 2 ^ 128"
    using uint_lt2p [of a] by simp
  have zero: "a = 0 \<longleftrightarrow> uint a = 0"
    by (simp add: word_uint_eq_iff [of a 0])
  have "a XOR 1 = 0 \<longleftrightarrow> a = 1"
    by (rule xor_eq_0_iff)
  then have one: "a XOR 1 = 0 \<longleftrightarrow> uint a = 1"
    by (simp add: word_uint_eq_iff [of a 1])
  show ?thesis
    using lt assms
    by (simp add: isNonPublicAddr_def nonPublicIPPrefixes_eq Let_def prefix_intervals zero one
        del: drop_bit_xor)
qed

theorem nonpublic_ipv6_ranges_witness:
  "isNonPublicAddr (Addr6 0xFE800000000000000000000000000001 []) \<and>
   \<not> isNonPublicAddr (Addr6 0x20014860486000000000000000008888 [])"
proof -
  have "drop_bit 32 (0xFE800000000000000000000000000001 :: 128 word) \<noteq> 0xFFFF"
    "drop_bit 32 (0x20014860486000000000000000008888 :: 128 word) \<noteq> 0xFFFF"
    by code_simp+
  from this [THEN nonpublic_ipv6_ranges] show ?thesis by simp
qed

text \<open>
  C38: an address with a zone, unless it is IPv4-mapped, is never taken for a non-public one: the loopback
  address and every link-local address pass the filter when they are written with a zone.
\<close>

theorem zoned_address_passes_filter:
  "drop_bit 32 a \<noteq> 0xFFFF \<Longrightarrow> z \<noteq> [] \<Longrightarrow> \<not> isNonPublicAddr (Addr6 a z)"
  by (simp add: isNonPublicAddr_def nonPublicIPPrefixes_eq Let_def del: drop_bit_xor)

theorem zoned_address_passes_filter_witness:
  "\<not> isNonPublicAddr (Addr6 1 ''lo'') \<and> isNonPublicAddr (Addr6 1 [])"
proof -
  have "drop_bit 32 (1 :: 128 word) \<noteq> 0xFFFF" by code_simp
  then have "\<not> isNonPublicAddr (Addr6 1 ''lo'')" by (rule zoned_address_passes_filter) simp
  moreover have "isNonPublicAddr (Addr6 1 [])" by code_simp
  ultimately show ?thesis ..
qed

end
