(* ===== verification/Editions.thy ===== *)
theory Editions
  imports Endpoint
begin

text \<open>
  \<^verbatim>\<open>editions.go\<close>: the two editions, the target of a probe with its default ports, and the parser of
  the positional destination.
\<close>

section \<open>Definitions\<close>

definition defaultBedrockPort :: int where
  "defaultBedrockPort = 19132"

definition defaultBedrockPortV6 :: int where
  "defaultBedrockPortV6 = 19133"

datatype edition = editionJava | editionBedrock

fun edition_String :: "edition \<Rightarrow> string" where
  "edition_String editionBedrock = ''bedrock''"
| "edition_String editionJava = ''java''"

definition parseEdition :: "string \<Rightarrow> edition result" where
  "parseEdition raw =
     (let s = toLower (trimSpace raw) in
      if s = '''' \<or> s = ''java'' then Inr editionJava
      else if s = ''bedrock'' then Inr editionBedrock
      else Inl (Errorf ''unsupported edition %q'' [AStr raw]))"

record targetSpec =
  t_Host :: string
  t_Port :: int
  PortExplicit :: bool

definition newTargetSpec :: "string \<Rightarrow> int \<Rightarrow> bool \<Rightarrow> targetSpec" where
  "newTargetSpec host port explicit =
     \<lparr>t_Host = normalizeHost host, t_Port = port, PortExplicit = explicit\<rparr>"

definition target_String :: "targetSpec \<Rightarrow> string" where
  "target_String t = (if PortExplicit t then joinHostPort (t_Host t) (itoa (t_Port t)) else t_Host t)"

definition target_validate :: "targetSpec \<Rightarrow> unit result" where
  "target_validate t =
     (if trimSpace (t_Host t) = '''' then Inl (ErrNew ''missing destination'')
      else
        ebind (validateServerAddress (t_Host t)) (\<lambda>_.
          if PortExplicit t \<and> (t_Port t < 1 \<or> t_Port t > 65535) then
            Inl (Errorf ''invalid port: %d'' [AInt (t_Port t)])
          else Inr ()))"

definition target_literalIP :: "targetSpec \<Rightarrow> addr option" where
  "target_literalIP t = map_option unmap (parseAddr (t_Host t))"

definition defaultPort :: "targetSpec \<Rightarrow> addressFamily \<Rightarrow> edition \<Rightarrow> int" where
  "defaultPort t family ed =
     (if PortExplicit t then t_Port t
      else if ed = editionBedrock \<and> family = addressFamily6 then defaultBedrockPortV6
      else if ed = editionBedrock then defaultBedrockPort
      else defaultJavaPort)"

definition portForAddr :: "targetSpec \<Rightarrow> addr \<Rightarrow> edition \<Rightarrow> int" where
  "portForAddr t a ed =
     (if PortExplicit t then t_Port t
      else if ed = editionBedrock \<and> is6 (unmap a) then defaultBedrockPortV6
      else if ed = editionBedrock then defaultBedrockPort
      else defaultJavaPort)"

definition fallbackEndpoint :: "targetSpec \<Rightarrow> addressFamily \<Rightarrow> edition \<Rightarrow> endpoint" where
  "fallbackEndpoint t family ed = \<lparr>Host = t_Host t, Port = defaultPort t family ed\<rparr>"

definition parseDestination :: "string \<Rightarrow> targetSpec result" where
  "parseDestination raw0 =
     (let raw = trimSpace raw0 in
      if raw = '''' then Inl (ErrNew ''missing destination'')
      else
        (case unbracketIPv6Literal raw of
           Some literal \<Rightarrow> Inr (newTargetSpec literal 0 False)
         | None \<Rightarrow>
             if parseAddr raw \<noteq> None then Inr (newTargetSpec raw 0 False)
             else
               (let looksLikeHostPort = (hasPrefix raw ''['' \<or> countByte CHR '':'' raw = 1);
                    fallthrough =
                      (if countByte CHR '':'' raw > 1 then Inl (Errorf ''invalid destination %q'' [AStr raw])
                       else Inr (newTargetSpec raw 0 False))
                in if looksLikeHostPort then
                     (case splitHostPort raw of
                        Inl _ \<Rightarrow> fallthrough
                      | Inr (host, portText) \<Rightarrow>
                          (case atoi portText of
                             Inl _ \<Rightarrow> Inl (Errorf ''invalid port: %s'' [AStr portText])
                           | Inr port \<Rightarrow> Inr (newTargetSpec host port True)))
                   else fallthrough)))"

section \<open>Lemmas\<close>

text \<open>A host as a target holds it: trimmed and without brackets.\<close>

lemma normalizeHost_fixed:
  assumes "normalizeHost h = h" and "CHR ''['' \<notin> set h"
  shows "trimSpace h = h"
proof -
  have "unbracketIPv6Literal (trimSpace h) = None"
  proof (cases "trimSpace h")
    case (Cons c s)
    with trimSpace_set [of h] assms(2) have "c \<noteq> CHR ''[''" by auto
    with Cons show ?thesis by (simp add: unbracketIPv6Literal_def)
  qed (simp add: unbracketIPv6Literal_def)
  with assms(1) show ?thesis by (simp add: normalizeHost_def)
qed

lemma target_validate_Inr:
  assumes "target_validate t = Inr ()"
  shows "trimSpace (t_Host t) \<noteq> ''''" and "CHR ''['' \<notin> set (t_Host t)" and "CHR '']'' \<notin> set (t_Host t)"
    and "CHR '':'' \<in> set (t_Host t) \<Longrightarrow> parseAddr (t_Host t) \<noteq> None"
    and "PortExplicit t \<Longrightarrow> 1 \<le> t_Port t \<and> t_Port t \<le> 65535"
  using assms by (auto simp: target_validate_def validateServerAddress_def result_simps split: if_splits)

lemma parseDestination_plain:
  assumes "target_validate t = Inr ()" and "normalizeHost (t_Host t) = t_Host t" and "\<not> PortExplicit t" and "t_Port t = 0"
  shows "parseDestination (t_Host t) = Inr t"
proof -
  note valid = target_validate_Inr [OF assms(1)]
  have trim: "trimSpace (t_Host t) = t_Host t" using normalizeHost_fixed [OF assms(2) valid(2)] .
  have "newTargetSpec (t_Host t) 0 False = t" using assms(2-4) by (simp add: newTargetSpec_def)
  moreover have "unbracketIPv6Literal (t_Host t) = None" "\<not> hasPrefix (t_Host t) ''[''"
    using valid(2) by (cases "t_Host t"; auto simp: unbracketIPv6Literal_def hasPrefix_def)+
  moreover have "countByte CHR '':'' (t_Host t) = 0" if "parseAddr (t_Host t) = None"
    using valid(4) that by (auto simp: countByte_def filter_empty_conv)
  ultimately show ?thesis
    using valid(1) trim by (auto simp: parseDestination_def Let_def)
qed

lemma parseDestination_port:
  assumes "target_validate t = Inr ()" and "normalizeHost (t_Host t) = t_Host t" and "PortExplicit t"
  shows "parseDestination (joinHostPort (t_Host t) (itoa (t_Port t))) = Inr t"
proof -
  let ?h = "t_Host t" and ?p = "itoa (t_Port t)"
  let ?s = "joinHostPort ?h ?p"
  note valid = target_validate_Inr [OF assms(1)]
  have port: "0 \<le> t_Port t" "?p = natText (t_Port t)" "atoi ?p = Inr (t_Port t)"
    using valid(5) [OF assms(3)] atoi_itoa [of "t_Port t"] by (simp_all add: itoa_def)
  have p: "?p \<noteq> []" "visible (last ?p)" "CHR '':'' \<notin> set ?p" "CHR ''['' \<notin> set ?p" "CHR '']'' \<notin> set ?p"
    using natText_digits [OF port(1), of "last ?p"] itoa_no_sep [of _ "t_Port t"]
    by (simp_all add: port(2) digitVal_visible, simp_all add: digitVal_def)
  have h: "trimSpace ?h = ?h" "?h \<noteq> []" using normalizeHost_fixed [OF assms(2) valid(2)] valid(1) by auto
  have shape: "(\<exists>r. ?s = CHR ''['' # r) \<or> CHR '':'' \<notin> set ?h \<and> ?s = ?h @ CHR '':'' # ?p"
    by (simp add: joinHostPort_def)
  have last: "last ?s \<noteq> CHR '']''" "visible (last ?s)" "?s \<noteq> []"
    using p by (auto simp: joinHostPort_def dest: last_in_set)
  have "trimSpace ?s = ?s"
    using shape trimSpace_keeps [of ?s] last trimSpace_append_colon [OF h p(1,2)] by (auto simp: visible_def)
  moreover have colon: "hasPrefix ?s ''['' \<or> countByte CHR '':'' ?s = 1"
    using shape p(3) by (auto simp: hasPrefix_def countByte_def filter_empty_conv)
  moreover have "parseAddr ?s = None"
    using shape
  proof
    assume "CHR '':'' \<notin> set ?h \<and> ?s = ?h @ CHR '':'' # ?p"
    with p(3) have "countByte CHR '':'' ?s = 1" by (auto simp: countByte_def filter_empty_conv)
    then show ?thesis by (rule parseAddr_one_colon)
  qed (auto simp: parseAddr_bracket)
  moreover have "unbracketIPv6Literal ?s = None" using last by (simp add: unbracketIPv6Literal_def)
  moreover have "newTargetSpec ?h (t_Port t) True = t" using assms(2,3) by (simp add: newTargetSpec_def)
  ultimately show ?thesis
    using splitHostPort_joinHostPort [OF valid(2,3) p(3-5)] last(3) port(3)
    by (simp add: parseDestination_def Let_def)
qed

section \<open>Properties\<close>

text \<open>
  C19: a target survives the round trip through its text. For every target that passes validation, with a host
  in the form the program keeps it (trimmed, IPv6 literals without brackets) and no port where none is
  explicit, the parser of destinations reads the text that \<^verbatim>\<open>String\<close> prints back as the same target.
\<close>

theorem destination_roundtrip:
  assumes "target_validate t = Inr ()" and "normalizeHost (t_Host t) = t_Host t" and "PortExplicit t \<or> t_Port t = 0"
  shows "parseDestination (target_String t) = Inr t"
  using assms parseDestination_plain [of t] parseDestination_port [of t] by (auto simp: target_String_def)

theorem destination_roundtrip_witness:
  "parseDestination (target_String \<lparr>t_Host = ''2001:db8::1'', t_Port = 25570, PortExplicit = True\<rparr>) =
     Inr \<lparr>t_Host = ''2001:db8::1'', t_Port = 25570, PortExplicit = True\<rparr>"
proof (rule destination_roundtrip)
  let ?t = "\<lparr>t_Host = ''2001:db8::1'', t_Port = 25570, PortExplicit = True\<rparr>"
  show "target_validate ?t = Inr ()" by code_simp
  show "normalizeHost (t_Host ?t) = t_Host ?t" by code_simp
qed simp

end
