(* ===== verification/Address.thy ===== *)
theory Address
  imports Editions
begin

text \<open>
  \<^verbatim>\<open>address.go\<close>: the candidates a probe may dial. A literal address gives one candidate; a list of
  resolved addresses is filtered by family and by the non-public ranges, freed of duplicates, and the
  two families are interleaved, the family of the first address first.
\<close>

section \<open>Definitions\<close>

record dialCandidate =
  cand_address :: addrPort

definition cand_Network :: "dialCandidate \<Rightarrow> string" where
  "cand_Network c = (if is4 (ap_addr (cand_address c)) then ''tcp4'' else ''tcp6'')"

definition cand_UDPNetwork :: "dialCandidate \<Rightarrow> string" where
  "cand_UDPNetwork c = (if is4 (ap_addr (cand_address c)) then ''udp4'' else ''udp6'')"

definition cand_String :: "dialCandidate \<Rightarrow> string" where
  "cand_String c = addrPortString (cand_address c)"

definition dialCandidateForLiteralIP :: "endpoint \<Rightarrow> pingOptions \<Rightarrow> dialCandidate list result" where
  "dialCandidateForLiteralIP target options =
     (case endpoint_literalIP target of
        None \<Rightarrow> Inl (Errorf ''invalid IP literal %q'' [AStr (Host target)])
      | Some a \<Rightarrow>
          if \<not> family_matches (addressFamily_of options) a then
            Inl (Errorf ''%s is an %s address but %s was requested''
              [AStr (Host target), AStr (family_String (addressFamilyForAddr a)),
               AStr (forcedFlag (addressFamily_of options))])
          else if \<not> allowPrivateAddresses options \<and> isNonPublicAddr a then
            Inl (Errorf ''refusing to connect to non-public address %s (pass --allow-private to override)''
              [AStr (Host target)])
          else
            ebind (uint16Port target) (\<lambda>port.
              Inr [\<lparr>cand_address = addrPortFrom a port\<rparr>]))"

text \<open>
  The loop of \<^verbatim>\<open>interleaveDialCandidates\<close> over \<open>i\<close> from \<open>0\<close> below the longer length: the candidate of each
  list at \<open>i\<close>, where there is one.
\<close>

definition interleaveDialCandidates :: "'a list \<Rightarrow> 'a list \<Rightarrow> 'a list" where
  "interleaveDialCandidates primary secondary =
     (let limit = max (length secondary) (length primary) in
      concat (map (\<lambda>i. (if i < length primary then [primary ! i] else []) @
                       (if i < length secondary then [secondary ! i] else [])) [0..<limit]))"

text \<open>The variables of the loop of \<^verbatim>\<open>buildDialCandidatesWithPortFunc\<close>.\<close>

record buildState =
  seen :: "addr set"
  ipv4 :: "dialCandidate list"
  ipv6 :: "dialCandidate list"
  primaryFamilyIsV6 :: bool
  primaryFamilySet :: bool

definition buildInit :: buildState where
  "buildInit = \<lparr>seen = {}, ipv4 = [], ipv6 = [], primaryFamilyIsV6 = False, primaryFamilySet = False\<rparr>"

definition buildStep :: "(addr \<Rightarrow> u16) \<Rightarrow> buildState \<Rightarrow> addr \<Rightarrow> buildState" where
  "buildStep portOf st addr0 =
     (let a = unmap addr0 in
      if \<not> isValid a then st
      else if a \<in> seen st then st
      else
        (let candidate = \<lparr>cand_address = addrPortFrom a (portOf a)\<rparr>;
             st1 = st\<lparr>seen := insert a (seen st)\<rparr>;
             st2 = (if primaryFamilySet st1 then st1
                    else st1\<lparr>primaryFamilyIsV6 := is6 a, primaryFamilySet := True\<rparr>)
         in if is6 a then st2\<lparr>ipv6 := ipv6 st2 @ [candidate]\<rparr>
            else st2\<lparr>ipv4 := ipv4 st2 @ [candidate]\<rparr>))"

definition buildDialCandidatesWithPortFunc :: "addr list \<Rightarrow> (addr \<Rightarrow> u16) \<Rightarrow> dialCandidate list" where
  "buildDialCandidatesWithPortFunc addrs portOf =
     (let st = foldl (buildStep portOf) buildInit addrs in
      if ipv4 st = [] then ipv6 st
      else if ipv6 st = [] then ipv4 st
      else if primaryFamilyIsV6 st then interleaveDialCandidates (ipv6 st) (ipv4 st)
      else interleaveDialCandidates (ipv4 st) (ipv6 st))"

text \<open>The filter loop: the addresses kept, whether one had the family, whether one was not public.\<close>

definition filterStep ::
  "addressFamily \<Rightarrow> bool \<Rightarrow> addr list \<times> bool \<times> bool \<Rightarrow> addr \<Rightarrow> addr list \<times> bool \<times> bool" where
  "filterStep family allowPrivate st addr0 =
     (case st of (filtered, matchedFamily, filteredNonPublic) \<Rightarrow>
        let a = unmap addr0 in
        if \<not> isValid a then st
        else if \<not> family_matches family a then st
        else if \<not> allowPrivate \<and> isNonPublicAddr a then (filtered, True, True)
        else (filtered @ [a], True, filteredNonPublic))"

definition dialCandidatesForResolvedIPsByAddr ::
  "string \<Rightarrow> addr list \<Rightarrow> addressFamily \<Rightarrow> bool \<Rightarrow> (addr \<Rightarrow> u16) \<Rightarrow> dialCandidate list result" where
  "dialCandidatesForResolvedIPsByAddr host addrs family allowPrivate portOf =
     (if addrs = [] then Inl (Errorf ''no addresses resolved for %s'' [AStr host])
      else
        (case foldl (filterStep family allowPrivate) ([], False, False) addrs of
           (filtered, matchedFamily, filteredNonPublic) \<Rightarrow>
             let candidates = buildDialCandidatesWithPortFunc filtered portOf in
             if candidates \<noteq> [] then Inr candidates
             else if matchedFamily \<and> filteredNonPublic then
               Inl (Errorf ''resolved only to non-public addresses for %s (pass --allow-private to override)''
                 [AStr host])
             else Inl (Errorf ''no dialable addresses resolved for %s'' [AStr host])))"

definition dialCandidatesForResolvedIPs ::
  "string \<Rightarrow> u16 \<Rightarrow> addr list \<Rightarrow> pingOptions \<Rightarrow> dialCandidate list result" where
  "dialCandidatesForResolvedIPs host port addrs options =
     dialCandidatesForResolvedIPsByAddr host addrs (addressFamily_of options)
       (allowPrivateAddresses options) (\<lambda>_. port)"

section \<open>Reference definitions\<close>

text \<open>What the loops compute: the alternation of two lists, and the list without later duplicates.\<close>

fun alternate :: "'a list \<Rightarrow> 'a list \<Rightarrow> 'a list" where
  "alternate [] ys = ys"
| "alternate xs [] = xs"
| "alternate (x # xs) (y # ys) = x # y # alternate xs ys"

definition dedupStep :: "'a list \<Rightarrow> 'a \<Rightarrow> 'a list" where
  "dedupStep ds x = (if x \<in> set ds then ds else ds @ [x])"

definition dedup :: "'a list \<Rightarrow> 'a list" where
  "dedup xs = foldl dedupStep [] xs"

definition candidateAt :: "(addr \<Rightarrow> u16) \<Rightarrow> addr \<Rightarrow> dialCandidate" where
  "candidateAt portOf a = \<lparr>cand_address = addrPortFrom a (portOf a)\<rparr>"

text \<open>An address the policy of the options lets through.\<close>

definition dialable :: "addressFamily \<Rightarrow> bool \<Rightarrow> addr \<Rightarrow> bool" where
  "dialable family allowPrivate a \<longleftrightarrow>
     isValid a \<and> family_matches family a \<and> (allowPrivate \<or> \<not> isNonPublicAddr a)"

definition keptAddrs :: "addressFamily \<Rightarrow> bool \<Rightarrow> addr list \<Rightarrow> addr list" where
  "keptAddrs family allowPrivate addrs = filter (dialable family allowPrivate) (map unmap addrs)"

text \<open>The state of the candidate loop that stands for the distinct addresses \<open>ds\<close>.\<close>

definition buildAbs :: "(addr \<Rightarrow> u16) \<Rightarrow> addr list \<Rightarrow> buildState" where
  "buildAbs portOf ds =
     \<lparr>seen = set ds,
      ipv4 = map (candidateAt portOf) (filter is4 ds),
      ipv6 = map (candidateAt portOf) (filter is6 ds),
      primaryFamilyIsV6 = (ds \<noteq> [] \<and> is6 (hd ds)),
      primaryFamilySet = (ds \<noteq> [])\<rparr>"

section \<open>Lemmas\<close>

subsection \<open>Interleaving\<close>

lemma upt_0_Suc: "[0..<Suc n] = 0 # map Suc [0..<n]"
  by (simp add: map_Suc_upt upt_conv_Cons)

lemma concat_nth: "concat (map (\<lambda>i. if i < length ys then [ys ! i] else []) [0..<length ys]) = ys"
proof -
  have "map (\<lambda>i. if i < length ys then [ys ! i] else []) [0..<length ys] = map (\<lambda>i. [ys ! i]) [0..<length ys]"
    by (rule map_cong) auto
  also have "concat \<dots> = map ((!) ys) [0..<length ys]"
    by (rule concat_map_singleton)
  also have "\<dots> = ys" by (rule map_nth)
  finally show ?thesis .
qed

lemma interleaveDialCandidates_eq_alternate:
  "interleaveDialCandidates xs ys = alternate xs ys"
proof (induction xs ys rule: alternate.induct)
  case (1 ys)
  show ?case
    using concat_nth [of ys] by (simp add: interleaveDialCandidates_def)
next
  case (2 x xs)
  show ?case
    using concat_nth [of "x # xs"] by (simp add: interleaveDialCandidates_def del: upt_Suc)
next
  case (3 x xs y ys)
  then show ?case
    by (simp add: interleaveDialCandidates_def upt_0_Suc comp_def del: upt_Suc cong: if_cong)
qed

lemma set_alternate [simp]: "set (alternate xs ys) = set xs \<union> set ys"
  by (induction xs ys rule: alternate.induct) auto

lemma alternate_eq_Nil_iff [simp]: "alternate xs ys = [] \<longleftrightarrow> xs = [] \<and> ys = []"
  by (cases "(xs, ys)" rule: alternate.cases) auto

lemma distinct_alternate:
  "distinct xs \<Longrightarrow> distinct ys \<Longrightarrow> set xs \<inter> set ys = {} \<Longrightarrow> distinct (alternate xs ys)"
  by (induction xs ys rule: alternate.induct) auto

lemma hd_alternate: "xs \<noteq> [] \<Longrightarrow> hd (alternate xs ys) = hd xs"
  by (cases "(xs, ys)" rule: alternate.cases) auto

subsection \<open>Duplicates\<close>

lemma foldl_dedupStep:
  "distinct ds \<Longrightarrow>
     distinct (foldl dedupStep ds xs) \<and> set (foldl dedupStep ds xs) = set ds \<union> set xs \<and>
     (\<exists>es. foldl dedupStep ds xs = ds @ es)"
proof (induction xs arbitrary: ds)
  case Nil
  then show ?case by simp
next
  case (Cons x xs)
  have "distinct (dedupStep ds x)" using Cons.prems by (simp add: dedupStep_def)
  from Cons.IH [OF this] show ?case
    by (auto simp: dedupStep_def split: if_splits)
qed

lemma distinct_dedup [simp]: "distinct (dedup xs)"
  using foldl_dedupStep [of "[]" xs] by (simp add: dedup_def)

lemma set_dedup [simp]: "set (dedup xs) = set xs"
  using foldl_dedupStep [of "[]" xs] by (simp add: dedup_def)

lemma dedup_eq_Nil_iff [simp]: "dedup xs = [] \<longleftrightarrow> xs = []"
  by (metis set_dedup set_empty)

lemma hd_dedup: "xs \<noteq> [] \<Longrightarrow> hd (dedup xs) = hd xs"
proof (cases xs)
  case (Cons x ys)
  then show ?thesis
    using foldl_dedupStep [of "[x]" ys] by (auto simp: dedup_def dedupStep_def)
qed simp

text \<open>The library's \<open>remdups\<close> keeps the last occurrence of an element, the loop the first one.\<close>

lemma dedup_snoc: "dedup (xs @ [x]) = (if x \<in> set xs then dedup xs else dedup xs @ [x])"
  using set_dedup [of xs] by (simp add: dedup_def dedupStep_def)

lemma dedup_eq_remdups: "dedup xs = rev (remdups (rev xs))"
proof (induction xs rule: rev_induct)
  case Nil
  show ?case by (simp add: dedup_def)
next
  case (snoc x xs)
  then show ?case by (simp add: dedup_snoc)
qed

subsection \<open>The loops refine the reference definitions\<close>

lemma buildStep_buildAbs:
  "buildStep portOf (buildAbs portOf ds) a =
     buildAbs portOf (if isValid a then dedupStep ds (unmap a) else ds)"
proof (cases "isValid a \<and> unmap a \<notin> set ds")
  case True
  then have valid: "isValid (unmap a)" by simp
  show ?thesis
  proof (cases "is6 (unmap a)")
    case True6: True
    then have "\<not> is4 (unmap a)" by (cases "unmap a") auto
    with True True6 show ?thesis
      by (cases ds) (simp_all add: buildStep_def buildAbs_def dedupStep_def candidateAt_def Let_def insert_commute)
  next
    case False
    with valid have "is4 (unmap a)" by (cases "unmap a") auto
    with True False show ?thesis
      by (cases ds) (simp_all add: buildStep_def buildAbs_def dedupStep_def candidateAt_def Let_def insert_commute)
  qed
next
  case False
  then show ?thesis
    by (auto simp: buildStep_def buildAbs_def dedupStep_def Let_def)
qed

lemma foldl_buildStep:
  "foldl (buildStep portOf) (buildAbs portOf ds) addrs =
     buildAbs portOf (foldl dedupStep ds (filter isValid (map unmap addrs)))"
  by (induction addrs arbitrary: ds) (simp_all add: buildStep_buildAbs)

lemma buildAbs_Nil [simp]: "buildAbs portOf [] = buildInit"
  by (simp add: buildAbs_def buildInit_def)

lemma foldl_buildStep_init:
  "foldl (buildStep portOf) buildInit addrs =
     buildAbs portOf (dedup (filter isValid (map unmap addrs)))"
  using foldl_buildStep [of portOf "[]" addrs] by (simp add: dedup_def)

text \<open>The candidates of a list of distinct valid addresses, in terms of the reference definitions.\<close>

definition orderedCandidates :: "(addr \<Rightarrow> u16) \<Rightarrow> addr list \<Rightarrow> dialCandidate list" where
  "orderedCandidates portOf ds =
     map (candidateAt portOf)
       (if ds \<noteq> [] \<and> is6 (hd ds) then alternate (filter is6 ds) (filter is4 ds)
        else alternate (filter is4 ds) (filter is6 ds))"

lemma map_alternate: "map f (alternate xs ys) = alternate (map f xs) (map f ys)"
  by (induction xs ys rule: alternate.induct) auto

lemma alternate_Nil2 [simp]: "alternate xs [] = xs"
  by (cases xs) auto

lemma buildDialCandidates_eq:
  "buildDialCandidatesWithPortFunc addrs portOf =
     orderedCandidates portOf (dedup (filter isValid (map unmap addrs)))"
  by (simp add: buildDialCandidatesWithPortFunc_def foldl_buildStep_init buildAbs_def Let_def
      orderedCandidates_def interleaveDialCandidates_eq_alternate map_alternate)

lemma foldl_filterStep:
  "foldl (filterStep family allow) (kept, m, n) addrs =
     (kept @ keptAddrs family allow addrs,
      m \<or> (\<exists>a \<in> unmap ` set addrs. isValid a \<and> family_matches family a),
      n \<or> (\<exists>a \<in> unmap ` set addrs. isValid a \<and> family_matches family a \<and> \<not> allow \<and> isNonPublicAddr a))"
  by (induction addrs arbitrary: kept m n)
    (auto simp: filterStep_def keptAddrs_def dialable_def Let_def)

lemma keptAddrs_unmapped: "a \<in> set (keptAddrs family allow addrs) \<Longrightarrow> unmap a = a \<and> isValid a"
  by (auto simp: keptAddrs_def dialable_def)

lemma filter_kept [simp]:
  "filter isValid (map unmap (keptAddrs family allow addrs)) = keptAddrs family allow addrs"
proof -
  have "map unmap (keptAddrs family allow addrs) = keptAddrs family allow addrs"
    by (rule map_idI) (auto dest: keptAddrs_unmapped)
  then show ?thesis
    by (auto simp: filter_id_conv dest: keptAddrs_unmapped)
qed

lemma orderedCandidates_eq_Nil_iff:
  "(\<And>a. a \<in> set ds \<Longrightarrow> isValid a) \<Longrightarrow> orderedCandidates portOf ds = [] \<longleftrightarrow> ds = []"
  by (cases ds) (auto simp: orderedCandidates_def is4_is6_isValid split: if_splits)

lemma dialCandidatesForResolvedIPsByAddr_eq:
  "dialCandidatesForResolvedIPsByAddr host addrs family allow portOf =
     (if addrs = [] then Inl (Errorf ''no addresses resolved for %s'' [AStr host])
      else if keptAddrs family allow addrs \<noteq> [] then
        Inr (orderedCandidates portOf (dedup (keptAddrs family allow addrs)))
      else if \<exists>a \<in> unmap ` set addrs. isValid a \<and> family_matches family a then
        Inl (Errorf ''resolved only to non-public addresses for %s (pass --allow-private to override)''
          [AStr host])
      else Inl (Errorf ''no dialable addresses resolved for %s'' [AStr host]))"
proof -
  let ?k = "keptAddrs family allow addrs"
  have nil: "orderedCandidates portOf (dedup ?k) = [] \<longleftrightarrow> ?k = []"
    using orderedCandidates_eq_Nil_iff [of "dedup ?k" portOf] keptAddrs_unmapped
    by (metis dedup_eq_Nil_iff set_dedup)
  have priv: "?k = [] \<Longrightarrow>
      (\<exists>a \<in> unmap ` set addrs. isValid a \<and> family_matches family a) =
      (\<exists>a \<in> unmap ` set addrs. isValid a \<and> family_matches family a \<and> \<not> allow \<and> isNonPublicAddr a)"
    by (auto simp: keptAddrs_def dialable_def filter_empty_conv)
  show ?thesis
    using nil priv
    by (simp add: dialCandidatesForResolvedIPsByAddr_def foldl_filterStep buildDialCandidates_eq Let_def)
qed

lemma set_orderedCandidates:
  "(\<And>a. a \<in> set ds \<Longrightarrow> isValid a) \<Longrightarrow> set (orderedCandidates portOf ds) = candidateAt portOf ` set ds"
  by (auto simp: orderedCandidates_def is4_is6_isValid)

lemma inj_candidateAt: "inj (candidateAt portOf)"
  by (rule injI) (simp add: candidateAt_def addrPortFrom_def)

lemma distinct_orderedCandidates: "distinct ds \<Longrightarrow> distinct (orderedCandidates portOf ds)"
  by (auto simp: orderedCandidates_def distinct_map is4_not_is6
      intro!: distinct_alternate inj_on_subset [OF inj_candidateAt])

lemma hd_orderedCandidates:
  assumes "ds \<noteq> []" and "isValid (hd ds)"
  shows "hd (orderedCandidates portOf ds) = candidateAt portOf (hd ds)"
proof -
  obtain a as where ds: "ds = a # as" using assms(1) by (cases ds) auto
  then show ?thesis
    using assms(2) by (cases a) (simp_all add: orderedCandidates_def hd_map hd_alternate)
qed

section \<open>Properties\<close>

text \<open>
  C8: whatever a resolver returns, the candidates of a successful resolution are exactly the distinct
  addresses, freed of the IPv4-mapping, that are valid, have the requested family and are public or
  explicitly allowed, each with the port chosen for it; there is at least one, none occurs twice, and
  the first one is the first such address the resolver returned. Their order is fixed, too: each address
  counts where the resolver returned it first, the two families alternate, beginning with the family of the
  first address, each family in the order of the resolver, and what is left of the longer family comes last.
\<close>

theorem dialCandidates_policy:
  assumes "dialCandidatesForResolvedIPsByAddr host addrs family allow portOf = Inr cs"
  shows "cs \<noteq> [] \<and> distinct cs \<and>
    set cs = candidateAt portOf ` {a \<in> unmap ` set addrs. dialable family allow a} \<and>
    hd cs = candidateAt portOf (hd (filter (dialable family allow) (map unmap addrs))) \<and>
    (let firsts = rev (remdups (rev (filter (dialable family allow) (map unmap addrs))));
         v4 = filter is4 firsts; v6 = filter is6 firsts
     in cs = map (candidateAt portOf) (if is6 (hd firsts) then alternate v6 v4 else alternate v4 v6))"
proof -
  let ?k = "keptAddrs family allow addrs"
  from assms have k: "?k \<noteq> []" and cs: "cs = orderedCandidates portOf (dedup ?k)"
    by (auto simp: dialCandidatesForResolvedIPsByAddr_eq split: if_splits)
  have valid: "a \<in> set (dedup ?k) \<Longrightarrow> isValid a" for a
    by (auto dest: keptAddrs_unmapped)
  have "hd (dedup ?k) \<in> set (dedup ?k)"
    using k by (intro hd_in_set) simp
  with valid have "isValid (hd (dedup ?k))" by blast
  with k have "hd cs = candidateAt portOf (hd ?k)"
    unfolding cs by (subst hd_orderedCandidates) (simp_all add: hd_dedup)
  moreover have "set cs = candidateAt portOf ` set ?k"
    unfolding cs using valid by (subst set_orderedCandidates) auto
  moreover have "cs \<noteq> []"
    unfolding cs using k valid by (subst orderedCandidates_eq_Nil_iff) auto
  moreover have "distinct cs"
    unfolding cs by (simp add: distinct_orderedCandidates)
  moreover have "cs = map (candidateAt portOf) (if is6 (hd (dedup ?k)) then alternate (filter is6 (dedup ?k)) (filter is4 (dedup ?k))
      else alternate (filter is4 (dedup ?k)) (filter is6 (dedup ?k)))"
    using k by (simp add: cs orderedCandidates_def)
  ultimately show ?thesis
    unfolding keptAddrs_def dedup_eq_remdups by (simp add: Let_def)
qed

theorem dialCandidates_policy_witness:
  "set [candidateAt (\<lambda>_. 25565) (Addr4 0x08080808)] =
     candidateAt (\<lambda>_. 25565) `
       {a \<in> unmap ` set [Addr4 0x0A000001, Addr6 0xFFFF08080808 [], Addr4 0x08080808].
          dialable addressFamilyAny False a}"
proof -
  have "dialCandidatesForResolvedIPsByAddr ''h'' [Addr4 0x0A000001, Addr6 0xFFFF08080808 [], Addr4 0x08080808]
      addressFamilyAny False (\<lambda>_. 25565) = Inr [candidateAt (\<lambda>_. 25565) (Addr4 0x08080808)]"
    by code_simp
  from dialCandidates_policy [OF this] show ?thesis by blast
qed

text \<open>
  The two ways in which a resolution fails to give a candidate: the list is empty, or no address
  of it passes the policy. The error says that only non-public addresses were left exactly when an
  address of the family was there.
\<close>

theorem dialCandidates_errors:
  "dialCandidatesForResolvedIPsByAddr host addrs family allow portOf = Inl err \<longleftrightarrow>
     filter (dialable family allow) (map unmap addrs) = [] \<and>
     err = Errorf
       (if addrs = [] then ''no addresses resolved for %s''
        else if list_ex (\<lambda>a. isValid a \<and> family_matches family a) (map unmap addrs)
          then ''resolved only to non-public addresses for %s (pass --allow-private to override)''
        else ''no dialable addresses resolved for %s'') [AStr host]"
  by (auto simp: dialCandidatesForResolvedIPsByAddr_eq keptAddrs_def list_ex_iff)

text \<open>
  The index loop that orders the candidates is the alternation of its two lists: it starts with
  the primary list, takes one of each in turn while both last, and appends what is left of the longer.
\<close>

theorem interleave_is_alternation:
  "interleaveDialCandidates xs ys = alternate xs ys \<and>
   length (interleaveDialCandidates xs ys) = length xs + length ys \<and>
   set (interleaveDialCandidates xs ys) = set xs \<union> set ys"
proof -
  have "length (alternate xs ys) = length xs + length ys"
    by (induction xs ys rule: alternate.induct) auto
  then show ?thesis
    by (simp add: interleaveDialCandidates_eq_alternate)
qed

end
