(* ===== verification/Go_Conn.thy ===== *)
theory Go_Conn
  imports Prelude
begin

text \<open>
  Connections as the sources use them. A stream connection is an exchange with a peer: the peer is a
  function that says which bytes it has sent in total once it has received a given stream, so that a
  read can return what the peer answers to the bytes written before. A datagram connection carries one
  request and its reply.
\<close>

text \<open>
  \<open>conn_peer\<close> is the peer, \<open>conn_sent\<close> what was written so far, \<open>conn_taken\<close> how many bytes of the peer's
  were read, \<open>conn_rerr\<close> the error of a read when the peer sends no more (a timeout, or the end of the
  stream), \<open>conn_wfail\<close> the error of a write that would bring the sent bytes to the given stream, and
  \<open>conn_dlfail\<close> the error of \<^verbatim>\<open>SetDeadline\<close> at a time. An expired deadline shows as the error of a read or a write.
  \<open>conn_reply\<close> is the datagram that answers the datagram sent, where one comes, and \<open>conn_remote\<close> the text
  of \<^verbatim>\<open>RemoteAddr\<close>, where it is not \<^verbatim>\<open>nil\<close>.
\<close>

record conn =
  conn_peer :: "byte list \<Rightarrow> byte list"
  conn_sent :: "byte list"
  conn_taken :: nat
  conn_rerr :: goerr
  conn_wfail :: "byte list \<Rightarrow> goerr option"
  conn_dlfail :: "int \<Rightarrow> goerr option"
  conn_reply :: "byte list \<Rightarrow> byte list option"
  conn_remote :: "string option"

definition setDeadline :: "conn \<Rightarrow> int \<Rightarrow> unit result" where
  "setDeadline c t = (case conn_dlfail c t of Some e \<Rightarrow> Inl e | None \<Rightarrow> Inr ())"

definition connWrite :: "conn \<Rightarrow> byte list \<Rightarrow> conn result" where
  "connWrite c bs =
     (case conn_wfail c (conn_sent c @ bs) of
        Some e \<Rightarrow> Inl e
      | None \<Rightarrow> Inr (c\<lparr>conn_sent := conn_sent c @ bs\<rparr>))"

definition connReader :: "conn \<Rightarrow> reader" where
  "connReader c = (drop (conn_taken c) (conn_peer c (conn_sent c)), conn_rerr c)"

text \<open>A parser that reads from the connection: the bytes it consumed are taken.\<close>

definition connRead :: "(reader \<Rightarrow> ('a \<times> reader) result) \<Rightarrow> conn \<Rightarrow> ('a \<times> conn) result" where
  "connRead parse c =
     ebind (parse (connReader c)) (\<lambda>(x, r).
       Inr (x, c\<lparr>conn_taken := conn_taken c + (length (fst (connReader c)) - length (fst r))\<rparr>))"

text \<open>
  One \<^verbatim>\<open>Read\<close> of a datagram connection into a buffer of \<open>n\<close> bytes: the rest of a longer datagram is lost.
\<close>

definition readDatagram :: "nat \<Rightarrow> conn \<Rightarrow> byte list result" where
  "readDatagram n c =
     (case conn_reply c (conn_sent c) of None \<Rightarrow> Inl (conn_rerr c) | Some d \<Rightarrow> Inr (take n d))"

text \<open>\<^verbatim>\<open>errors.Is\<close>: the error itself, what it wraps, or one of the joined errors.\<close>

fun errorsIs :: "goerr \<Rightarrow> goerr \<Rightarrow> bool" where
  "errorsIs (Wrapf f args e) target \<longleftrightarrow> Wrapf f args e = target \<or> errorsIs e target"
| "errorsIs (Join es) target \<longleftrightarrow> Join es = target \<or> list_ex (\<lambda>e. errorsIs e target) es"
| "errorsIs e target \<longleftrightarrow> e = target"

text \<open>A fresh connection to a peer whose writes never fail and whose reads time out at the end.\<close>

definition connTo :: "(byte list \<Rightarrow> byte list) \<Rightarrow> conn" where
  "connTo peer =
     \<lparr>conn_peer = peer, conn_sent = [], conn_taken = 0, conn_rerr = ErrTimeout, conn_wfail = (\<lambda>_. None),
      conn_dlfail = (\<lambda>_. None), conn_reply = (\<lambda>_. None), conn_remote = None\<rparr>"

text \<open>A datagram connection to a peer at an address.\<close>

definition udpTo :: "(byte list \<Rightarrow> byte list option) \<Rightarrow> string \<Rightarrow> conn" where
  "udpTo reply remote = (connTo (\<lambda>_. []))\<lparr>conn_reply := reply, conn_remote := Some remote\<rparr>"

lemma connWrite_ok:
  "conn_wfail c = (\<lambda>_. None) \<Longrightarrow> connWrite c bs = Inr (c\<lparr>conn_sent := conn_sent c @ bs\<rparr>)"
  by (simp add: connWrite_def)

lemma connTo_simps [simp]:
  "conn_peer (connTo p) = p" "conn_sent (connTo p) = []" "conn_taken (connTo p) = 0"
  "conn_rerr (connTo p) = ErrTimeout" "conn_wfail (connTo p) = (\<lambda>_. None)"
  "conn_dlfail (connTo p) = (\<lambda>_. None)" "conn_reply (connTo p) = (\<lambda>_. None)" "conn_remote (connTo p) = None"
  by (simp_all add: connTo_def)

text \<open>
  A read of a message \<open>msg\<close> that the peer has sent after the bytes \<open>past\<close> already taken, by a parser that
  leaves the bytes after the message.
\<close>

lemma connRead_msg:
  assumes "conn_peer c (conn_sent c) = past @ msg @ rest"
    and "length past = conn_taken c"
    and "parse (msg @ rest, conn_rerr c) = Inr (x, (rest, conn_rerr c))"
  shows "connRead parse c = Inr (x, c\<lparr>conn_taken := conn_taken c + length msg\<rparr>)"
  using assms by (simp add: connRead_def connReader_def)

end
