(* ===== verification/Go_Json.thy ===== *)
theory Go_Json
  imports Go_Text
begin

text \<open>
  The part of \<^verbatim>\<open>encoding/json\<close> the sources use: \<^verbatim>\<open>json.Valid\<close>, and whether \<^verbatim>\<open>json.Unmarshal\<close> into an empty
  interface succeeds and gives an object, and the text \<^verbatim>\<open>json.Marshal\<close> gives for a string. The validity
  check is the library's own scanner: a state, a stack that says which composite value is open, and one
  step for each byte.
\<close>

datatype jstate =
    beginValue | beginValueOrEmpty | beginStringOrEmpty | beginString | endValue | endTop
  | inString | inStringEsc | inStringEscU nat
  | numNeg | numInt | numZero | numDot | numFrac | numE | numESign | numExp
  | inLiteral string
  | scanError

datatype jparse = parseObjectKey | parseObjectValue | parseArrayValue

type_synonym jscan = "jstate \<times> jparse list"

definition jsonSpace :: "char \<Rightarrow> bool" where
  "jsonSpace c \<longleftrightarrow> c = CHR '' '' \<or> c = CHR 0x09 \<or> c = CHR 0x0D \<or> c = CHR 0x0A"

definition isHex :: "char \<Rightarrow> bool" where
  "isHex c \<longleftrightarrow> c \<in> set ''0123456789abcdefABCDEF''"

definition jerr :: jscan where
  "jerr = (scanError, [])"

text \<open>\<^verbatim>\<open>pushParseState\<close>, with the limit of the nesting, and \<^verbatim>\<open>popParseState\<close>.\<close>

definition jpush :: "jparse \<Rightarrow> jstate \<Rightarrow> jparse list \<Rightarrow> jscan" where
  "jpush p st stack = (if int (length stack) < 10000 then (st, p # stack) else jerr)"

definition jpop :: "jparse list \<Rightarrow> jscan" where
  "jpop stack = (if tl stack = [] then (endTop, []) else (endValue, tl stack))"

definition stepEndTop :: "char \<Rightarrow> jscan" where
  "stepEndTop c = (if jsonSpace c then (endTop, []) else jerr)"

fun stepEndValue :: "jparse list \<Rightarrow> char \<Rightarrow> jscan" where
  "stepEndValue [] c = stepEndTop c"
| "stepEndValue (p # ps) c =
     (if jsonSpace c then (endValue, p # ps)
      else
        (case p of
           parseObjectKey \<Rightarrow> if c = CHR '':'' then (beginValue, parseObjectValue # ps) else jerr
         | parseObjectValue \<Rightarrow>
             if c = CHR '','' then (beginString, parseObjectKey # ps)
             else if c = CHR ''}'' then jpop (p # ps) else jerr
         | parseArrayValue \<Rightarrow>
             if c = CHR '','' then (beginValue, p # ps)
             else if c = CHR '']'' then jpop (p # ps) else jerr))"

definition stepBeginValue :: "jstate \<Rightarrow> jparse list \<Rightarrow> char \<Rightarrow> jscan" where
  "stepBeginValue here ps c =
     (if jsonSpace c then (here, ps)
      else if c = CHR ''{'' then jpush parseObjectKey beginStringOrEmpty ps
      else if c = CHR ''['' then jpush parseArrayValue beginValueOrEmpty ps
      else if c = CHR 0x22 then (inString, ps)
      else if c = CHR ''-'' then (numNeg, ps)
      else if c = CHR ''0'' then (numZero, ps)
      else if c = CHR ''t'' then (inLiteral ''rue'', ps)
      else if c = CHR ''f'' then (inLiteral ''alse'', ps)
      else if c = CHR ''n'' then (inLiteral ''ull'', ps)
      else if isDigit c then (numInt, ps)
      else jerr)"

definition stepBeginString :: "jstate \<Rightarrow> jparse list \<Rightarrow> char \<Rightarrow> jscan" where
  "stepBeginString here ps c =
     (if jsonSpace c then (here, ps) else if c = CHR 0x22 then (inString, ps) else jerr)"

definition stepZero :: "jparse list \<Rightarrow> char \<Rightarrow> jscan" where
  "stepZero ps c =
     (if c = CHR ''.'' then (numDot, ps)
      else if c = CHR ''e'' \<or> c = CHR ''E'' then (numE, ps)
      else stepEndValue ps c)"

definition stepESign :: "jparse list \<Rightarrow> char \<Rightarrow> jscan" where
  "stepESign ps c = (if isDigit c then (numExp, ps) else jerr)"

fun jstep :: "jscan \<Rightarrow> char \<Rightarrow> jscan" where
  "jstep (beginValueOrEmpty, ps) c =
     (if c = CHR '']'' then stepEndValue ps c else stepBeginValue beginValueOrEmpty ps c)"
| "jstep (beginValue, ps) c = stepBeginValue beginValue ps c"
| "jstep (beginStringOrEmpty, ps) c =
     (if c = CHR ''}'' then stepEndValue (parseObjectValue # tl ps) c
      else stepBeginString beginStringOrEmpty ps c)"
| "jstep (beginString, ps) c = stepBeginString beginString ps c"
| "jstep (endValue, ps) c = stepEndValue ps c"
| "jstep (endTop, ps) c = stepEndTop c"
| "jstep (inString, ps) c =
     (if c = CHR 0x22 then (endValue, ps)
      else if c = CHR 0x5C then (inStringEsc, ps)
      else if (of_char c :: int) < 0x20 then jerr
      else (inString, ps))"
| "jstep (inStringEsc, ps) c =
     (if c \<in> {CHR ''b'', CHR ''f'', CHR ''n'', CHR ''r'', CHR ''t'', CHR 0x5C, CHR ''/'', CHR 0x22} then (inString, ps)
      else if c = CHR ''u'' then (inStringEscU 4, ps)
      else jerr)"
| "jstep (inStringEscU n, ps) c =
     (if \<not> isHex c then jerr else if n \<le> 1 then (inString, ps) else (inStringEscU (n - 1), ps))"
| "jstep (numNeg, ps) c =
     (if c = CHR ''0'' then (numZero, ps) else if isDigit c then (numInt, ps) else jerr)"
| "jstep (numInt, ps) c = (if isDigit c then (numInt, ps) else stepZero ps c)"
| "jstep (numZero, ps) c = stepZero ps c"
| "jstep (numDot, ps) c = (if isDigit c then (numFrac, ps) else jerr)"
| "jstep (numFrac, ps) c =
     (if isDigit c then (numFrac, ps)
      else if c = CHR ''e'' \<or> c = CHR ''E'' then (numE, ps)
      else stepEndValue ps c)"
| "jstep (numE, ps) c = (if c = CHR ''+'' \<or> c = CHR ''-'' then (numESign, ps) else stepESign ps c)"
| "jstep (numESign, ps) c = stepESign ps c"
| "jstep (numExp, ps) c = (if isDigit c then (numExp, ps) else stepEndValue ps c)"
| "jstep (inLiteral s, ps) c =
     (if s = [] \<or> c \<noteq> hd s then jerr
      else if tl s = [] then (endValue, ps) else (inLiteral (tl s), ps))"
| "jstep (scanError, ps) c = jerr"

text \<open>\<^verbatim>\<open>json.Valid\<close>: the scan of all bytes, and of one space at the end, reaches the end of the value.\<close>

definition jsonValid :: "string \<Rightarrow> bool" where
  "jsonValid s = (fst (jstep (foldl jstep (beginValue, []) s) CHR '' '') = endTop)"

section \<open>Decoding into an empty interface\<close>

text \<open>
  A valid text still fails to decode when a number exceeds the range of a \<^verbatim>\<open>float64\<close>. The numbers of the
  text are the runs of bytes the scanner reads in a number state.
\<close>

definition inNumber :: "jscan \<Rightarrow> bool" where
  "inNumber st \<longleftrightarrow> fst st \<in> {numNeg, numInt, numZero, numDot, numFrac, numE, numESign, numExp}"

fun jsonNumbers :: "jscan \<Rightarrow> string \<Rightarrow> string \<Rightarrow> string list" where
  "jsonNumbers st acc [] = (if acc = [] then [] else [acc])"
| "jsonNumbers st acc (c # s) =
     (let st' = jstep st c in
      if inNumber st' then jsonNumbers st' (acc @ [c]) s
      else (if acc = [] then [] else [acc]) @ jsonNumbers st' [] s)"

definition digitsVal :: "string \<Rightarrow> int" where
  "digitsVal s = (case parseDigits 0 s of Some n \<Rightarrow> n | None \<Rightarrow> 0)"

definition float64Overflow :: int where
  "float64Overflow = 2 ^ 1024 - 2 ^ 970"

text \<open>The number, without its sign, is below the bound that rounds to infinity.\<close>

definition numberInRange :: "string \<Rightarrow> bool" where
  "numberInRange s =
     (let s = (if hasPrefix s ''-'' then tl s else s);
          mant = takeWhile (\<lambda>c. c \<noteq> CHR ''e'' \<and> c \<noteq> CHR ''E'') s;
          expo = drop (length mant + 1) s;
          ipart = takeWhile isDigit mant;
          fpart = drop (length ipart + 1) mant;
          eneg = hasPrefix expo ''-'';
          edig = digitsVal (filter isDigit expo);
          e = (if eneg then - edig else edig) - int (length fpart);
          m = digitsVal (ipart @ fpart)
      in if 0 \<le> e then m * 10 ^ nat e < float64Overflow
         else m < float64Overflow * 10 ^ nat (- e))"

datatype jtop = JObject | JOther

text \<open>\<^verbatim>\<open>json.Unmarshal\<close> into \<^verbatim>\<open>any\<close>: an error, a \<^verbatim>\<open>map[string]any\<close>, or another value.\<close>

definition unmarshalAny :: "string \<Rightarrow> jtop option" where
  "unmarshalAny s =
     (if \<not> jsonValid s then None
      else if \<not> list_all numberInRange (jsonNumbers (beginValue, []) [] s) then None
      else Some (case dropWhile jsonSpace s of c # _ \<Rightarrow> if c = CHR ''{'' then JObject else JOther | [] \<Rightarrow> JOther))"

section \<open>Encoding of strings\<close>

definition jsonHexDigit :: "nat \<Rightarrow> char" where
  "jsonHexDigit n = ''0123456789abcdef'' ! n"

text \<open>A byte below 0x80, with the escapes that keep the text safe inside HTML.\<close>

definition jsonEscape :: "char \<Rightarrow> string" where
  "jsonEscape c =
     (let n = of_char c :: nat in
      if c = CHR 0x22 \<or> c = CHR 0x5C then [CHR 0x5C, c]
      else if n = 8 then [CHR 0x5C, CHR ''b'']
      else if n = 12 then [CHR 0x5C, CHR ''f'']
      else if n = 10 then [CHR 0x5C, CHR ''n'']
      else if n = 13 then [CHR 0x5C, CHR ''r'']
      else if n = 9 then [CHR 0x5C, CHR ''t'']
      else if n < 32 \<or> c = CHR ''<'' \<or> c = CHR ''>'' \<or> c = CHR ''&'' then
        [CHR 0x5C, CHR ''u'', CHR ''0'', CHR ''0'', jsonHexDigit (n div 16), jsonHexDigit (n mod 16)]
      else [c])"

text \<open>The length of the UTF-8 sequence of several bytes at the start of a text.\<close>

definition runeSize :: "string \<Rightarrow> nat option" where
  "runeSize s = find (\<lambda>n. n \<le> length s \<and> utf8Valid (bytes_of (take n s))) [2, 3, 4]"

text \<open>The bytes of a sequence as they are, but the two line separators of JavaScript escaped.\<close>

definition jsonRune :: "string \<Rightarrow> string" where
  "jsonRune r =
     (if r = [CHR 0xE2, CHR 0x80, CHR 0xA8] then CHR 0x5C # ''u2028''
      else if r = [CHR 0xE2, CHR 0x80, CHR 0xA9] then CHR 0x5C # ''u2029''
      else r)"

function jsonStringBody :: "string \<Rightarrow> string" where
  "jsonStringBody [] = []"
| "jsonStringBody (c # s) =
     (if (of_char c :: nat) < 128 then jsonEscape c @ jsonStringBody s
      else
        (case runeSize (c # s) of
           None \<Rightarrow> (CHR 0x5C # ''ufffd'') @ jsonStringBody s
         | Some n \<Rightarrow> jsonRune (take n (c # s)) @ jsonStringBody (drop n (c # s))))"
  by pat_completeness auto
termination
  by (relation "measure length") (auto simp: runeSize_def split: if_splits)

declare jsonStringBody.simps [simp del]

definition jsonString :: "string \<Rightarrow> string" where
  "jsonString s = CHR 0x22 # jsonStringBody s @ [CHR 0x22]"

section \<open>Lemmas\<close>

lemma unmarshalAny_valid: "unmarshalAny s \<noteq> None \<Longrightarrow> jsonValid s"
  by (auto simp: unmarshalAny_def split: if_splits)

text \<open>The scanner stays inside the string on what the encoder writes for it.\<close>

lemma isHex_jsonHexDigit: "n < 16 \<Longrightarrow> isHex (jsonHexDigit n)"
proof -
  have "\<forall>n \<in> {..<16}. isHex (jsonHexDigit n)" by code_simp
  then show "n < 16 \<Longrightarrow> isHex (jsonHexDigit n)" by simp
qed

lemma isHex_literals: "isHex CHR ''0''" "isHex CHR ''2''" "isHex CHR ''8''" "isHex CHR ''9''" "isHex CHR ''f''" "isHex CHR ''d''"
  by (simp_all add: isHex_def)

lemma jstep_plain:
  "c \<noteq> CHR 0x22 \<Longrightarrow> c \<noteq> CHR 0x5C \<Longrightarrow> 32 \<le> (of_char c :: nat) \<Longrightarrow> jstep (inString, ps) c = (inString, ps)"
  using of_nat_of_char [of c, where ?'a = int] by simp

lemma scan_jsonEscape:
  assumes "(of_char c :: nat) < 128"
  shows "foldl jstep (inString, ps) (jsonEscape c) = (inString, ps)"
proof -
  have "(of_char c :: nat) div 16 < 16" "(of_char c :: nat) mod 16 < 16" using assms by simp_all
  note hex = this [THEN isHex_jsonHexDigit]
  show ?thesis
    using jstep_plain [of c ps] hex by (simp add: jsonEscape_def Let_def isHex_literals)
qed

lemma scan_plain:
  "\<forall>c \<in> set r. 128 \<le> (of_char c :: nat) \<Longrightarrow> foldl jstep (inString, ps) r = (inString, ps)"
proof (induction r)
  case (Cons c r)
  have "c \<noteq> CHR 0x22" "c \<noteq> CHR 0x5C" using Cons.prems by auto
  with Cons show ?case using jstep_plain [of c ps] by simp
qed simp

lemma utf8Valid_first:
  assumes "utf8Valid (b0 # r)" and "0x80 \<le> b0"
  shows "\<exists>n \<in> {2, 3, 4}. n \<le> Suc (length r) \<and> utf8Valid (take n (b0 # r)) \<and> (\<forall>b \<in> set (take n (b0 # r)). 0x80 \<le> b)"
proof -
  have cont: "0x80 \<le> b" if "contByte b \<or> 0xA0 \<le> b \<or> 0x90 \<le> b" for b
    using that order_trans [of "0x80" "0xA0" b] order_trans [of "0x80" "0x90" b] by (auto simp: contByte_def)
  have "\<not> b0 < 0x80" using assms(2) by simp
  then consider (two) b1 r' where "r = b1 # r'" "contByte b1" "0xC2 \<le> b0 \<and> b0 \<le> 0xDF"
    | (three) b1 b2 r' where "r = b1 # b2 # r'" "0x80 \<le> b1" "contByte b2" "utf8Valid [b0, b1, b2]"
    | (four) b1 b2 b3 r' where "r = b1 # b2 # b3 # r'" "0x80 \<le> b1" "contByte b2" "contByte b3" "utf8Valid [b0, b1, b2, b3]"
    using assms(1) cont by (auto split: if_splits list.splits)
  then show ?thesis
  proof cases
    case two
    with assms(2) cont show ?thesis by (intro bexI [of _ 2]) (auto simp: not_less)
  next
    case three
    with assms(2) cont show ?thesis by (intro bexI [of _ 3]) auto
  next
    case four
    with assms(2) cont show ?thesis by (intro bexI [of _ 4]) auto
  qed
qed

lemma runeSize_high:
  assumes "runeSize (c # s) = Some n" and "128 \<le> (of_char c :: nat)"
  shows "\<forall>x \<in> set (take n (c # s)). 128 \<le> (of_char x :: nat)"
proof -
  let ?t = "take n (c # s)"
  have high: "128 \<le> (of_char x :: nat) \<longleftrightarrow> 0x80 \<le> (of_char x :: byte)" for x
    by (simp add: word_le_nat_alt unat_of_char)
  have n: "n \<in> {2, 3, 4}" "n \<le> Suc (length s)" "utf8Valid (bytes_of ?t)"
    and least: "m \<in> {2, 3, 4} \<Longrightarrow> m \<le> n \<Longrightarrow> utf8Valid (bytes_of (take m (c # s))) \<Longrightarrow> m = n" for m
    using assms(1) by (auto simp: runeSize_def split: if_splits)
  have t: "bytes_of ?t = of_char c # bytes_of (take (n - 1) s)"
    using n(1) by (auto simp: take_Cons')
  have "\<exists>m \<in> {2, 3, 4}. m \<le> Suc (length (bytes_of (take (n - 1) s))) \<and>
      utf8Valid (take m (bytes_of ?t)) \<and> (\<forall>b \<in> set (take m (bytes_of ?t)). 0x80 \<le> b)"
    unfolding t by (rule utf8Valid_first) (use n(3) t assms(2) high in simp_all)
  moreover have "Suc (length (bytes_of (take (n - 1) s))) \<le> n" using n(1) by auto
  ultimately obtain m where m: "m \<in> {2, 3, 4}" "m \<le> n" "utf8Valid (take m (bytes_of ?t))"
      "\<forall>b \<in> set (take m (bytes_of ?t)). 0x80 \<le> b"
    using order_trans by blast
  have "take m (bytes_of ?t) = bytes_of (take m (c # s))"
    using m(2) by (simp add: bytes_of_def take_map min_def)
  then have "m = n" using m least by simp
  then have "take m (bytes_of ?t) = bytes_of ?t" by simp
  then have "\<forall>b \<in> set (bytes_of ?t). 0x80 \<le> b" using m(4) by simp
  then show ?thesis by (simp add: high bytes_of_def)
qed

lemma scan_jsonRune:
  "\<forall>c \<in> set r. 128 \<le> (of_char c :: nat) \<Longrightarrow> foldl jstep (inString, ps) (jsonRune r) = (inString, ps)"
  by (auto simp: jsonRune_def isHex_literals scan_plain)

lemma scan_jsonStringBody: "foldl jstep (inString, ps) (jsonStringBody s) = (inString, ps)"
proof (induction s rule: jsonStringBody.induct)
  case (2 c s)
  then show ?case
    using scan_jsonEscape [of c ps] runeSize_high [of c s] scan_jsonRune
    by (auto simp: jsonStringBody.simps(2) isHex_literals not_less simp del: take_Cons' drop_Cons' split: option.split)
qed (simp add: jsonStringBody.simps(1))

lemma scan_jsonString:
  "st \<in> {beginValue, beginString, beginStringOrEmpty} \<Longrightarrow> foldl jstep (st, ps) (jsonString s) = (endValue, ps)"
  by (auto simp: jsonString_def scan_jsonStringBody stepBeginValue_def stepBeginString_def jsonSpace_def)

lemma scan_natText:
  "0 < n \<Longrightarrow> foldl jstep (beginValue, ps) (natText n) = (numInt, ps)"
proof (induction n rule: natText.induct)
  case (1 n)
  show ?case
  proof (cases "n < 10")
    case True
    with 1 have "n \<in> {1..9}" by simp
    moreover have "\<forall>n \<in> {1..9}. (\<lambda>c. isDigit c \<and> c \<notin> {CHR 0x20, CHR 9, CHR 10, CHR 13, CHR ''{'', CHR ''['', CHR 0x22, CHR ''-'', CHR ''0'', CHR ''t'', CHR ''f'', CHR ''n''}) (digitChar n)"
      by code_simp
    ultimately show ?thesis
      using True by (auto simp: natText.simps [of n] stepBeginValue_def jsonSpace_def)
  next
    case False
    with 1 show ?thesis by (simp add: natText.simps [of n] isDigit_def)
  qed
qed

end
