(* ===== verification/Wire.thy ===== *)
theory Wire
  imports Go_Text Go_Conn
begin

text \<open>
  The contract between the writer and the reader of a wire format, as locales. The program has two
  implementations of the Java Edition format (the client's and the staging server's), each with a
  writer and a reader; each link below is interpreted for every writer together with every reader.
\<close>

text \<open>A VarInt writer and a stream reader that understand each other.\<close>

locale varint_link =
  fixes enc :: "i32 \<Rightarrow> byte list"
    and dec :: "reader \<Rightarrow> (i32 \<times> reader) result"
  assumes dec_enc: "dec (enc v @ rest, e) = Inr (v, (rest, e))"
begin

lemma enc_not_Nil: "enc v \<noteq> []"
proof
  assume nil: "enc v = []"
  have "dec (enc 0 @ [], EOF) = dec (enc v @ enc 0, EOF)" by (simp add: nil)
  then have v: "v = 0" by (simp only: dec_enc) simp
  have "dec (enc 1 @ [], EOF) = dec (enc v @ enc 1, EOF)" by (simp add: nil)
  then have "v = 1" by (simp only: dec_enc) simp
  with v show False by simp
qed

lemma enc_prefix_free:
  assumes "enc v @ xs = enc w @ ys"
  shows "v = w \<and> xs = ys"
proof -
  have "dec (enc v @ xs, EOF) = dec (enc w @ ys, EOF)" by (simp only: assms)
  then show ?thesis by (simp only: dec_enc) simp
qed

lemma enc_inject: "enc v = enc w \<longleftrightarrow> v = w"
  using enc_prefix_free [of v "[]" w "[]"] by auto

end

text \<open>
  A packet reader on top of it: the length, then as many bytes, where the length is positive and within
  the limit of the call.
\<close>

locale packet_link = varint_link +
  fixes unpack :: "reader \<Rightarrow> int \<Rightarrow> (byte list \<times> reader) result"
  assumes unpack_eq:
    "dec r = Inr (n, r1) \<Longrightarrow> 0 < sint n \<Longrightarrow> sint n \<le> limit \<Longrightarrow> unpack r limit = readFull (nat (sint n)) r1"
begin

lemma unpack_frame:
  assumes "payload \<noteq> []" and "int (length payload) \<le> limit" and "limit < 2 ^ 31"
  shows "unpack (enc (of_nat (length payload)) @ payload @ rest, e) limit = Inr (payload, (rest, e))"
proof -
  have "sint (of_nat (length payload) :: i32) = int (length payload)"
    using assms by (simp add: signed_of_nat signed_take_bit_int_eq_self)
  with assms unpack_eq [OF dec_enc, of "of_nat (length payload)" limit] show ?thesis
    by (simp add: readFull_append)
qed

text \<open>Two frames in a row are read one after the other.\<close>

lemma unpack_two_frames:
  assumes "p \<noteq> []" "int (length p) \<le> limit" "q \<noteq> []" "int (length q) \<le> limit" "limit < 2 ^ 31"
  shows "ebind (unpack (enc (of_nat (length p)) @ p @ enc (of_nat (length q)) @ q @ rest, e) limit)
      (\<lambda>(x, r). ebind (unpack r limit) (\<lambda>(y, r'). Inr (x, y, r'))) = Inr (p, q, (rest, e))"
  using assms by (simp add: unpack_frame)

end

text \<open>A VarInt writer and a reader of the fields of a packet, which counts the bytes consumed.\<close>

locale field_link =
  fixes enc :: "i32 \<Rightarrow> byte list"
    and field :: "byte list \<Rightarrow> (i32 \<times> nat) result"
  assumes field_enc: "field (enc v @ rest) = Inr (v, length (enc v))"

text \<open>A reader of a string field: its length, the limit, the end of the packet and UTF-8.\<close>

locale string_link = field_link +
  fixes str :: "byte list \<Rightarrow> int \<Rightarrow> (string \<times> nat) result"
  assumes str_eq:
    "field data = Inr (n, consumed) \<Longrightarrow> 0 \<le> sint n \<Longrightarrow> sint n \<le> limit \<Longrightarrow>
     consumed + nat (sint n) \<le> length data \<Longrightarrow>
     utf8Valid (drop consumed (take (consumed + nat (sint n)) data)) \<Longrightarrow>
     str data limit =
       Inr (string_of (drop consumed (take (consumed + nat (sint n)) data)), consumed + nat (sint n))"
begin

lemma str_enc:
  assumes "int (length s) \<le> limit" and "limit < 2 ^ 31" and "utf8Valid (bytes_of s)"
  shows "str (enc (of_nat (length s)) @ bytes_of s @ rest) limit =
    Inr (s, length (enc (of_nat (length s))) + length s)"
proof -
  have n: "sint (of_nat (length s) :: i32) = int (length s)"
    using assms by (simp add: signed_of_nat signed_take_bit_int_eq_self)
  show ?thesis
    using str_eq [OF field_enc, of "of_nat (length s)" limit "bytes_of s @ rest"] assms
    by (simp add: n)
qed

end

end
