(* ===== verification/Protocol.thy ===== *)
theory Protocol
  imports Endpoint Go_Conn Go_Json Wire
begin

text \<open>
  \<^verbatim>\<open>protocol.go\<close>: the Java Edition wire format of the client. VarInts of at most five bytes, length
  prefixed packets and strings, and the packets of the status exchange. An \<^verbatim>\<open>int32\<close> is a word of 32
  bits read as a signed number; a writer is a connection.
\<close>

section \<open>Definitions\<close>

definition statusProtocolVersion :: i32 where
  "statusProtocolVersion = -1"

definition maxPacketLength :: int where
  "maxPacketLength = 2 * 1024 * 1024"

definition maxStatusJSONLength :: int where
  "maxStatusJSONLength = 1 * 1024 * 1024"

definition maxHandshakeHostByteSize :: int where
  "maxHandshakeHostByteSize = 255"

definition packetIDHandshake :: i32 where
  "packetIDHandshake = 0x00"

definition nextStateStatus :: i32 where
  "nextStateStatus = 0x01"

definition packetIDStatusRequest :: byte where
  "packetIDStatusRequest = 0x00"

definition packetIDStatusResponse :: i32 where
  "packetIDStatusResponse = 0x00"

definition packetIDPing :: i32 where
  "packetIDPing = 0x01"

definition packetIDPong :: i32 where
  "packetIDPong = 0x01"

definition errVarIntTooLong :: goerr where
  "errVarIntTooLong = ErrNew ''varint is too long''"

text \<open>\<^verbatim>\<open>rand.Read\<close> fills the payload or fails; the token is the payload as a number.\<close>

definition generatePingToken :: "byte list result \<Rightarrow> u64 result" where
  "generatePingToken random =
     ebind (emap (Wrapf ''failed to generate ping token: %w'' []) random) (\<lambda>payload.
       Inr (getUint64 payload))"

text \<open>The loop of \<^verbatim>\<open>readVarInt\<close>; the shift of an \<^verbatim>\<open>int32\<close> drops the bits beyond its width.\<close>

function readVarInt_loop :: "nat \<Rightarrow> i32 \<Rightarrow> reader \<Rightarrow> (i32 \<times> reader) result" where
  "readVarInt_loop numRead res r =
     (if numRead \<ge> 5 then Inl errVarIntTooLong
      else
        ebind (readFull 1 r) (\<lambda>(one, r').
          let res' = res OR push_bit (7 * numRead) (ucast (one ! 0 AND 0x7F))
          in if one ! 0 AND 0x80 = 0 then Inr (res', r')
             else readVarInt_loop (numRead + 1) res' r'))"
  by pat_completeness auto
termination
  by (relation "measure (\<lambda>(n, _, _). 5 - n)") auto

declare readVarInt_loop.simps [simp del]

definition readVarInt :: "reader \<Rightarrow> (i32 \<times> reader) result" where
  "readVarInt r = readVarInt_loop 0 0 r"

text \<open>The loop of \<^verbatim>\<open>writeVarInt\<close>, as the bytes it appends to the buffer.\<close>

function writeVarInt_loop :: "32 word \<Rightarrow> byte list" where
  "writeVarInt_loop u =
     (if u AND NOT 0x7F = 0 then [ucast u]
      else ucast (u AND 0x7F OR 0x80) # writeVarInt_loop (drop_bit 7 u))"
  by pat_completeness auto
termination
proof (relation "measure unat")
  fix u :: "32 word"
  assume "u AND NOT 0x7F \<noteq> 0"
  then have "u \<noteq> 0" by auto
  then have "0 < unat u" by (simp add: unat_gt_0)
  moreover have "unat (drop_bit 7 u) = unat u div 128"
    by (simp only: unat_drop_bit_eq) (simp add: drop_bit_eq_div)
  ultimately show "(drop_bit 7 u, u) \<in> measure unat" by simp
qed simp

declare writeVarInt_loop.simps [simp del]

definition writeVarInt :: "i32 \<Rightarrow> byte list" where
  "writeVarInt value = writeVarInt_loop value"

definition writePacket :: "conn \<Rightarrow> byte list \<Rightarrow> conn result" where
  "writePacket w payload =
     (if payload = [] then Inl (ErrNew ''packet payload must not be empty'')
      else if int (length payload) > maxPacketLength then
        Inl (Errorf ''packet payload exceeds maximum size: %d'' [AInt (int (length payload))])
      else connWrite w (writeVarInt (of_nat (length payload)) @ payload))"

definition readPacket :: "reader \<Rightarrow> int \<Rightarrow> (byte list \<times> reader) result" where
  "readPacket r maxLength =
     ebind (readVarInt r) (\<lambda>(packetLength, r1).
       if sint packetLength \<le> 0 then Inl (Errorf ''invalid packet length: %d'' [AInt (sint packetLength)])
       else if sint packetLength > maxLength then
         Inl (Errorf ''packet length %d exceeds limit %d'' [AInt (sint packetLength), AInt maxLength])
       else readFull (nat (sint packetLength)) r1)"

text \<open>A \<^verbatim>\<open>bytes.Reader\<close> over \<open>data\<close> ends with \<^const>\<open>EOF\<close>; what it has left gives the bytes consumed.\<close>

definition readVarIntFromBytes :: "byte list \<Rightarrow> (i32 \<times> nat) result" where
  "readVarIntFromBytes data =
     ebind (readVarInt (data, EOF)) (\<lambda>(v, rest). Inr (v, length data - length (fst rest)))"

definition validateStringByteLength :: "int \<Rightarrow> int \<Rightarrow> unit result" where
  "validateStringByteLength len maxBytes =
     (if len > maxBytes then Inl (Errorf ''string size %d exceeds max of %d bytes'' [AInt len, AInt maxBytes])
      else if len > 2 ^ 31 - 1 then Inl (Errorf ''string size %d exceeds int32 max'' [AInt len])
      else Inr ())"

definition writeString :: "string \<Rightarrow> int \<Rightarrow> byte list result" where
  "writeString val maxBytes =
     ebind (validateStringByteLength (int (length val)) maxBytes) (\<lambda>_.
       Inr (writeVarInt (of_nat (length val)) @ bytes_of val))"

definition readStringFromBytes :: "byte list \<Rightarrow> int \<Rightarrow> (string \<times> nat) result" where
  "readStringFromBytes data maxBytes =
     ebind (readVarIntFromBytes data) (\<lambda>(size, consumed).
       if sint size < 0 then Inl (Errorf ''invalid string size: %d'' [AInt (sint size)])
       else if sint size > maxBytes then
         Inl (Errorf ''string size %d exceeds max of %d bytes'' [AInt (sint size), AInt maxBytes])
       else
         (let total = consumed + nat (sint size) in
          if total > length data then Inl ErrUnexpectedEOF
          else
            (let raw = drop consumed (take total data) in
             if \<not> utf8Valid raw then Inl (ErrNew ''string payload is not valid UTF-8'')
             else Inr (string_of raw, total))))"

definition sendHandshakePacket :: "conn \<Rightarrow> endpoint \<Rightarrow> conn result" where
  "sendHandshakePacket w target =
     ebind (uint16Port target) (\<lambda>port.
     ebind (writeString (Host target) maxHandshakeHostByteSize) (\<lambda>host.
       writePacket w
         (writeVarInt packetIDHandshake @ writeVarInt statusProtocolVersion @ host @
          putUint16 port @ writeVarInt nextStateStatus)))"

definition sendStatusRequestPacket :: "conn \<Rightarrow> conn result" where
  "sendStatusRequestPacket w = writePacket w [packetIDStatusRequest]"

definition sendPingPacket :: "conn \<Rightarrow> u64 \<Rightarrow> conn result" where
  "sendPingPacket w payloadValue = writePacket w (writeVarInt packetIDPing @ putUint64 payloadValue)"

definition readStatusResponse :: "reader \<Rightarrow> (unit \<times> reader) result" where
  "readStatusResponse r =
     ebind (readPacket r maxPacketLength) (\<lambda>(payload, r1).
     ebind (readVarIntFromBytes payload) (\<lambda>(packetID, consumed).
       if packetID \<noteq> packetIDStatusResponse then
         Inl (Errorf ''unexpected status packet id: %d'' [AInt (sint packetID)])
       else
         ebind (readStringFromBytes (drop consumed payload) maxStatusJSONLength) (\<lambda>(jsonPayload, jsonConsumed).
           if consumed + jsonConsumed \<noteq> length payload then
             Inl (ErrNew ''invalid status response payload framing'')
           else
             (case unmarshalAny jsonPayload of
                None \<Rightarrow> Inl (ErrNew ''invalid status response JSON'')
              | Some JOther \<Rightarrow> Inl (ErrNew ''invalid status response JSON: expected top-level object'')
              | Some JObject \<Rightarrow> Inr ((), r1)))))"

definition readPongPacket :: "reader \<Rightarrow> u64 \<Rightarrow> (unit \<times> reader) result" where
  "readPongPacket r expected =
     ebind (readPacket r maxPacketLength) (\<lambda>(payload, r1).
     ebind (readVarIntFromBytes payload) (\<lambda>(packetID, consumed).
       if packetID \<noteq> packetIDPong then Inl (Errorf ''unexpected pong packet id: %d'' [AInt (sint packetID)])
       else if length (drop consumed payload) \<noteq> 8 then Inl (ErrNew ''invalid pong payload size'')
       else if getUint64 (drop consumed payload) \<noteq> expected then Inl (ErrNew ''pong payload mismatch'')
       else Inr ((), r1)))"

section \<open>VarInts\<close>

lemma bit_int_0x7F: "bit (0x7F :: int) n \<longleftrightarrow> n < 7"
proof -
  have "(0x7F :: int) = mask 7" by (simp add: mask_eq_exp_minus_1)
  then show ?thesis by (simp only: bit_mask_iff) simp
qed

lemma bit_int_0x80: "bit (0x80 :: int) n \<longleftrightarrow> n = 7"
proof -
  have "(0x80 :: int) = 2 ^ 7" by simp
  then show ?thesis by (simp only: bit_exp_iff) auto
qed

lemma bit_int_not_0x7F: "bit (- 0x80 :: int) n \<longleftrightarrow> 7 \<le> n"
proof -
  have "(- 0x80 :: int) = NOT 0x7F" by simp
  then show ?thesis by (simp only: bit_not_int_iff bit_int_0x7F not_less)
qed

text \<open>The simplifier reads the bits of a literal word off the integer.\<close>

lemmas varint_bits = bit_int_0x7F bit_int_0x80 bit_int_not_0x7F bit_simps

lemma varint_low_bits:
  assumes "u AND NOT 0x7F = (0 :: 32 word)" and "bit u n"
  shows "n < 7"
proof (rule ccontr)
  assume "\<not> n < 7"
  moreover have "n < 32" using bit_imp_le_length [OF assms(2)] by simp
  ultimately have "bit (u AND NOT 0x7F) n" using assms(2) by (simp add: varint_bits)
  with assms(1) show False by simp
qed

lemma writeVarInt_loop_last:
  assumes "u AND NOT 0x7F = (0 :: 32 word)"
  shows "(ucast u :: byte) AND 0x80 = 0"
    and "ucast ((ucast u :: byte) AND 0x7F) = u"
    and "u AND 0x7F = u"
proof -
  note low = varint_low_bits [OF assms]
  show "(ucast u :: byte) AND 0x80 = 0"
    by (rule bit_eqI) (auto simp: varint_bits dest: low)
  show "ucast ((ucast u :: byte) AND 0x7F) = u"
    by (rule bit_eqI) (auto simp: varint_bits dest: low)
  show "u AND 0x7F = u"
    by (rule bit_eqI) (auto simp: varint_bits dest: low)
qed

lemma writeVarInt_loop_more:
  fixes u :: "32 word"
  shows "(ucast (u AND 0x7F OR 0x80) :: byte) AND 0x80 \<noteq> 0"
    and "ucast ((ucast (u AND 0x7F OR 0x80) :: byte) AND 0x7F) = u AND 0x7F"
proof -
  have "bit ((ucast (u AND 0x7F OR 0x80) :: byte) AND 0x80) 7"
    by (simp add: varint_bits)
  then show "(ucast (u AND 0x7F OR 0x80) :: byte) AND 0x80 \<noteq> 0"
    by auto
  show "ucast ((ucast (u AND 0x7F OR 0x80) :: byte) AND 0x7F) = u AND 0x7F"
    by (rule bit_eqI) (auto simp: varint_bits)
qed

lemma shifted_groups:
  fixes u :: "32 word"
  shows "(r OR push_bit n (u AND 0x7F)) OR push_bit (n + 7) (drop_bit 7 u) = r OR push_bit n u"
proof (rule bit_eqI)
  fix i
  assume "possible_bit TYPE(32 word) i"
  then show "bit ((r OR push_bit n (u AND 0x7F)) OR push_bit (n + 7) (drop_bit 7 u)) i \<longleftrightarrow>
      bit (r OR push_bit n u) i"
    by (cases "i < n + 7") (auto simp: varint_bits)
qed

lemma readVarInt_loop_write:
  "n \<le> 4 \<Longrightarrow> drop_bit (32 - 7 * n) u = 0 \<Longrightarrow>
     readVarInt_loop n res (writeVarInt_loop u @ rest, e) = Inr (res OR push_bit (7 * n) u, (rest, e))"
proof (induction u arbitrary: n res rule: writeVarInt_loop.induct)
  case (1 u)
  show ?case
  proof (cases "u AND NOT 0x7F = 0")
    case True
    then have "writeVarInt_loop u = [ucast u]"
      by (subst writeVarInt_loop.simps) simp
    then show ?thesis
      using 1 True writeVarInt_loop_last [OF True]
      by (subst readVarInt_loop.simps) (simp add: readFull_def)
  next
    case False
    let ?b = "ucast (u AND 0x7F OR 0x80) :: byte"
    have n: "n \<le> 3"
    proof (rule ccontr)
      assume "\<not> n \<le> 3"
      with 1 have "n = 4" by simp
      with 1 have "drop_bit 4 u = 0" by simp
      have low: "i < 4" if "bit u i" for i
      proof (rule ccontr)
        assume "\<not> i < 4"
        then have "bit (drop_bit 4 u) (i - 4)" using that by (simp add: varint_bits)
        with \<open>drop_bit 4 u = 0\<close> show False by simp
      qed
      have "u AND NOT 0x7F = 0"
        by (rule bit_eqI) (auto simp: varint_bits dest: low)
      with False show False ..
    qed
    have w: "writeVarInt_loop u = ?b # writeVarInt_loop (drop_bit 7 u)"
      using False by (subst writeVarInt_loop.simps) simp
    have "drop_bit (32 - 7 * (n + 1)) (drop_bit 7 u) = drop_bit (32 - 7 * n) u"
      using n by (simp add: ac_simps)
    with "1.IH" [OF False, of "n + 1" "res OR push_bit (7 * n) (u AND 0x7F)"] "1.prems" n
    have "readVarInt_loop (n + 1) (res OR push_bit (7 * n) (u AND 0x7F)) (writeVarInt_loop (drop_bit 7 u) @ rest, e) =
        Inr (res OR push_bit (7 * n) u, (rest, e))"
      using shifted_groups [of res "7 * n" u] by (simp add: algebra_simps)
    then show ?thesis
      using n writeVarInt_loop_more [of u] unfolding w
      by (subst readVarInt_loop.simps) (simp add: readFull_def Let_def)
  qed
qed

lemma readVarInt_writeVarInt [wire_simps]:
  "readVarInt (writeVarInt v @ rest, e) = Inr (v, (rest, e))"
proof -
  have "drop_bit 32 v = 0" by (rule bit_eqI) (simp add: bit_simps)
  then show ?thesis
    using readVarInt_loop_write [of 0 v 0 rest e] by (simp add: readVarInt_def writeVarInt_def)
qed

interpretation client: packet_link writeVarInt readVarInt readPacket
  by unfold_locales (simp_all add: readVarInt_writeVarInt readPacket_def)

interpretation client_fields: string_link writeVarInt readVarIntFromBytes readStringFromBytes
  by unfold_locales (simp_all add: readVarIntFromBytes_def readVarInt_writeVarInt readStringFromBytes_def Let_def)

text \<open>
  What a successful read took: a prefix of one to five bytes of the stream. The value depends on these
  bytes alone.
\<close>

lemma readVarInt_loop_step:
  "n < 5 \<Longrightarrow> readVarInt_loop n res (b # xs, e) =
     (if b AND 0x80 = 0 then Inr (res OR push_bit (7 * n) (ucast (b AND 0x7F)), (xs, e))
      else readVarInt_loop (n + 1) (res OR push_bit (7 * n) (ucast (b AND 0x7F))) (xs, e))"
  by (subst readVarInt_loop.simps) (simp add: readFull_def Let_def)

lemma readVarInt_loop_stop:
  "readVarInt_loop n res ([], e) = Inl (if 5 \<le> n then errVarIntTooLong else e)"
  "5 \<le> n \<Longrightarrow> readVarInt_loop n res r = Inl errVarIntTooLong"
  by (subst readVarInt_loop.simps, simp add: readFull_def)+

lemma readVarInt_loop_consumes:
  "readVarInt_loop n res (bs, e) = Inr (v, r) \<Longrightarrow>
     \<exists>pre rest. bs = pre @ rest \<and> r = (rest, e) \<and> pre \<noteq> [] \<and> length pre + n \<le> 5 \<and>
       (\<forall>rest' e'. readVarInt_loop n res (pre @ rest', e') = Inr (v, (rest', e')))"
proof (induction bs arbitrary: n res)
  case Nil
  then show ?case by (simp add: readVarInt_loop_stop)
next
  case (Cons b bs)
  have n: "n < 5"
    using Cons.prems readVarInt_loop_stop(2) [of n res "(b # bs, e)"] by (cases "n < 5") auto
  show ?case
  proof (cases "b AND 0x80 = 0")
    case True
    with Cons.prems n show ?thesis
      by (intro exI [of _ "[b]"] exI [of _ bs]) (simp add: readVarInt_loop_step)
  next
    case False
    with Cons.prems n obtain pre rest where "bs = pre @ rest" "r = (rest, e)" "pre \<noteq> []" "length pre + (n + 1) \<le> 5"
      and "\<forall>rest' e'. readVarInt_loop (n + 1) (res OR push_bit (7 * n) (ucast (b AND 0x7F))) (pre @ rest', e') =
        Inr (v, (rest', e'))"
      using Cons.IH [of "n + 1" "res OR push_bit (7 * n) (ucast (b AND 0x7F))"]
      by (auto simp: readVarInt_loop_step)
    with False n show ?thesis
      by (intro exI [of _ "b # pre"] exI [of _ rest]) (simp add: readVarInt_loop_step)
  qed
qed

lemma readVarInt_consumes:
  "readVarInt (bs, e) = Inr (v, r) \<Longrightarrow>
     \<exists>pre rest. bs = pre @ rest \<and> r = (rest, e) \<and> pre \<noteq> [] \<and> length pre \<le> 5 \<and>
       (\<forall>rest' e'. readVarInt (pre @ rest', e') = Inr (v, (rest', e')))"
  using readVarInt_loop_consumes [of 0 0 bs e v r] by (simp add: readVarInt_def)

lemma length_writeVarInt: "length (writeVarInt v) \<le> 5" and writeVarInt_not_Nil [simp]: "writeVarInt v \<noteq> []"
proof -
  obtain pre rest where "writeVarInt v = pre @ rest" "([], EOF) = (rest, EOF)" "pre \<noteq> []" "length pre \<le> 5"
    using readVarInt_consumes [of "writeVarInt v" EOF v "([], EOF)"] readVarInt_writeVarInt [of v "[]" EOF]
    by auto
  then show "length (writeVarInt v) \<le> 5" and "writeVarInt v \<noteq> []" by simp_all
qed

section \<open>Packets on the wire\<close>

text \<open>The bytes of a packet, and the payloads of the packets of the client.\<close>

definition frame :: "byte list \<Rightarrow> byte list" where
  "frame payload = writeVarInt (of_nat (length payload)) @ payload"

definition handshakePayload :: "string \<Rightarrow> u16 \<Rightarrow> byte list" where
  "handshakePayload host port =
     writeVarInt packetIDHandshake @ writeVarInt statusProtocolVersion @
     (writeVarInt (of_nat (length host)) @ bytes_of host) @ putUint16 port @ writeVarInt nextStateStatus"

definition pingPayload :: "u64 \<Rightarrow> byte list" where
  "pingPayload token = writeVarInt packetIDPing @ putUint64 token"

lemma writePacket_frame:
  "payload \<noteq> [] \<Longrightarrow> int (length payload) \<le> maxPacketLength \<Longrightarrow>
     writePacket w payload = connWrite w (frame payload)"
  by (simp add: writePacket_def frame_def)

lemma readPacket_frame:
  "payload \<noteq> [] \<Longrightarrow> int (length payload) \<le> maxPacketLength \<Longrightarrow>
     readPacket (frame payload @ rest, e) maxPacketLength = Inr (payload, (rest, e))"
  using client.unpack_frame [of payload maxPacketLength rest e] by (simp add: frame_def maxPacketLength_def)

lemma length_handshakePayload: "int (length host) \<le> 255 \<Longrightarrow> length (handshakePayload host port) \<le> 300"
  using length_writeVarInt [of packetIDHandshake] length_writeVarInt [of statusProtocolVersion]
    length_writeVarInt [of "of_nat (length host)"] length_writeVarInt [of nextStateStatus]
  by (simp add: handshakePayload_def)

lemma handshakePayload_not_Nil [simp]: "handshakePayload host port \<noteq> []"
  by (simp add: handshakePayload_def)

lemma length_pingPayload: "length (pingPayload token) \<le> 13"
  using length_writeVarInt [of packetIDPing] by (simp add: pingPayload_def)

lemma pingPayload_not_Nil [simp]: "pingPayload token \<noteq> []"
  by (simp add: pingPayload_def)

lemma sendHandshakePacket_ok:
  assumes "uint16Port target = Inr port" and "int (length (Host target)) \<le> 255"
  shows "sendHandshakePacket w target = connWrite w (frame (handshakePayload (Host target) port))"
proof -
  have "writeString (Host target) maxHandshakeHostByteSize =
      Inr (writeVarInt (of_nat (length (Host target))) @ bytes_of (Host target))"
    using assms by (simp add: writeString_def validateStringByteLength_def maxHandshakeHostByteSize_def)
  moreover have "int (length (handshakePayload (Host target) port)) \<le> maxPacketLength"
    using length_handshakePayload [of "Host target" port] assms by (simp add: maxPacketLength_def)
  ultimately show ?thesis
    using assms writePacket_frame [OF handshakePayload_not_Nil, of "Host target" port w]
    by (simp add: sendHandshakePacket_def handshakePayload_def)
qed

lemma sendStatusRequestPacket_ok:
  "sendStatusRequestPacket w = connWrite w (frame [packetIDStatusRequest])"
  by (simp add: sendStatusRequestPacket_def writePacket_frame maxPacketLength_def)

lemma sendPingPacket_ok: "sendPingPacket w token = connWrite w (frame (pingPayload token))"
  using length_pingPayload [of token]
  by (simp add: sendPingPacket_def writePacket_frame maxPacketLength_def flip: pingPayload_def)

lemma readPongPacket_frame:
  "readPongPacket (frame (pingPayload token) @ rest, e) expected =
     (if token = expected then Inr ((), (rest, e)) else Inl (ErrNew ''pong payload mismatch''))"
proof -
  have "readPacket (frame (pingPayload token) @ rest, e) maxPacketLength = Inr (pingPayload token, (rest, e))"
    using length_pingPayload [of token] by (intro readPacket_frame) (simp_all add: maxPacketLength_def)
  moreover have "readVarIntFromBytes (pingPayload token) = Inr (packetIDPong, length (writeVarInt packetIDPing))"
    using client_fields.field_enc [of packetIDPing "putUint64 token"]
    by (simp add: pingPayload_def packetIDPong_def packetIDPing_def)
  ultimately show ?thesis
    by (simp add: readPongPacket_def) (simp add: pingPayload_def)
qed

section \<open>What a successful read says of the stream\<close>

text \<open>Eight bytes are the encoding of a number: there are as many of the one as of the other.\<close>

lemma range_putUint64: "range putUint64 = {bs. length bs = 8}"
proof (rule card_subset_eq)
  have lists: "{bs :: byte list. length bs = 8} = {bs. set bs \<subseteq> UNIV \<and> length bs = 8}" by simp
  show "finite {bs :: byte list. length bs = 8}"
    unfolding lists by (rule finite_lists_length_eq) simp
  show "range putUint64 \<subseteq> {bs. length bs = 8}" by auto
  have "card (range putUint64) = card (UNIV :: u64 set)"
    by (rule card_image) (simp add: inj_def)
  moreover have "card {bs :: byte list. length bs = 8} = card (UNIV :: byte set) ^ 8"
    unfolding lists by (rule card_lists_length_eq) simp
  ultimately show "card (range putUint64) = card {bs :: byte list. length bs = 8}"
    by (simp add: card_word)
qed

lemma putUint64_beUint: "length bs = 8 \<Longrightarrow> putUint64 (beUint bs) = bs"
  using range_putUint64 by (metis (mono_tags, lifting) getUint64_putUint64 imageE mem_Collect_eq)

lemma readVarIntFromBytes_Inr:
  "readVarIntFromBytes data = Inr (v, consumed) \<Longrightarrow> 0 < consumed \<and> consumed \<le> 5 \<and> consumed \<le> length data"
  by (auto simp: readVarIntFromBytes_def result_simps dest!: readVarInt_consumes)

lemma readPacket_Inr:
  assumes "readPacket (bs, e) limit = Inr (payload, r)"
  shows "\<exists>pre rest. bs = pre @ payload @ rest \<and> r = (rest, e) \<and> pre \<noteq> [] \<and> length pre \<le> 5 \<and>
    payload \<noteq> [] \<and> int (length payload) \<le> limit"
proof -
  from assms obtain n r1 where n: "readVarInt (bs, e) = Inr (n, r1)" "0 < sint n" "sint n \<le> limit"
    and full: "readFull (nat (sint n)) r1 = Inr (payload, r)"
    by (auto simp: readPacket_def result_simps split: if_splits)
  from readVarInt_consumes [OF n(1)] obtain pre rest
    where pre: "bs = pre @ rest" "r1 = (rest, e)" "pre \<noteq> []" "length pre \<le> 5" by blast
  from full have "nat (sint n) \<le> length rest" "payload = take (nat (sint n)) rest" "r = (drop (nat (sint n)) rest, e)"
    by (auto simp: pre(2) readFull_Inr_iff)
  with n pre show ?thesis
    by (intro exI [of _ pre] exI [of _ "drop (nat (sint n)) rest"]) auto
qed

lemma readPongPacket_Inr:
  assumes "readPongPacket (bs, e) token = Inr ((), r)"
  shows "\<exists>pre rest. bs = pre @ putUint64 token @ rest \<and> r = (rest, e)"
proof -
  from assms obtain payload v consumed where pkt: "readPacket (bs, e) maxPacketLength = Inr (payload, r)"
    and fid: "readVarIntFromBytes payload = Inr (v, consumed)"
    and len: "length (drop consumed payload) = 8" and tok: "getUint64 (drop consumed payload) = token"
    by (auto simp: readPongPacket_def result_simps split: if_splits)
  from readPacket_Inr [OF pkt] obtain pre rest where "bs = pre @ payload @ rest" "r = (rest, e)" by blast
  moreover have "drop consumed payload = putUint64 token"
    using putUint64_beUint [OF len] tok by simp
  then have "payload = take consumed payload @ putUint64 token"
    by (metis append_take_drop_id)
  ultimately show ?thesis
    by (intro exI [of _ "pre @ take consumed payload"] exI [of _ rest]) (metis append_assoc)
qed

section \<open>Properties\<close>

text \<open>
  C5: the VarInt of every 32-bit number has one to five bytes and is read back from the front of any
  stream, leaving the rest; no VarInt is a proper prefix of another, so a stream has one reading.
\<close>

theorem varint_roundtrip:
  "readVarInt (writeVarInt v @ rest, e) = Inr (v, (rest, e)) \<and>
   0 < length (writeVarInt v) \<and> length (writeVarInt v) \<le> 5 \<and>
   (writeVarInt v @ rest = writeVarInt w @ rest' \<longleftrightarrow> v = w \<and> rest = rest')"
  using readVarInt_writeVarInt length_writeVarInt writeVarInt_not_Nil client.enc_prefix_free by auto

theorem varint_roundtrip_witness:
  "readVarInt (writeVarInt (-1) @ [7], EOF) = Inr (-1, ([7], EOF)) \<and> writeVarInt (-1) = [0xFF, 0xFF, 0xFF, 0xFF, 0x0F]"
proof -
  have "writeVarInt (-1) = [0xFF, 0xFF, 0xFF, 0xFF, 0x0F]" by code_simp
  then show ?thesis using varint_roundtrip [of "-1" "[7]" EOF] by simp
qed

text \<open>
  A VarInt is read from at most five bytes of the stream, and a sixth is never looked at: five bytes
  that all announce a successor are refused as too long, whatever follows.
\<close>

theorem varint_reads_at_most_five:
  "(readVarInt (bs, e) = Inr (v, r) \<longrightarrow>
      (\<exists>pre rest. bs = pre @ rest \<and> r = (rest, e) \<and> 1 \<le> length pre \<and> length pre \<le> 5)) \<and>
   (length five = 5 \<and> (\<forall>b \<in> set five. b AND 0x80 \<noteq> 0) \<longrightarrow> readVarInt (five @ rest, e) = Inl errVarIntTooLong)"
proof (intro conjI impI)
  assume "readVarInt (bs, e) = Inr (v, r)"
  from readVarInt_consumes [OF this]
  show "\<exists>pre rest. bs = pre @ rest \<and> r = (rest, e) \<and> 1 \<le> length pre \<and> length pre \<le> 5"
    by (metis One_nat_def Suc_leI length_greater_0_conv)
next
  assume long: "length five = 5 \<and> (\<forall>b \<in> set five. b AND 0x80 \<noteq> 0)"
  then obtain a b c d f where "five = [a, b, c, d, f]" by (auto simp: numeral_eq_Suc length_Suc_conv)
  with long show "readVarInt (five @ rest, e) = Inl errVarIntTooLong"
    by (simp add: readVarInt_def readVarInt_loop_step readVarInt_loop_stop(2))
qed

theorem varint_reads_at_most_five_witness:
  "readVarInt ([0xFF, 0xFF, 0xFF, 0xFF, 0xFF] @ [0], EOF) = Inl errVarIntTooLong"
  using varint_reads_at_most_five [of "[]" EOF 0 "([], EOF)" "[0xFF, 0xFF, 0xFF, 0xFF, 0xFF]" "[0]"] by simp

end
