(* ===== verification/Client.thy ===== *)
theory Client
  imports Address Protocol "HOL-Library.Multiset"
begin

text \<open>
  \<^verbatim>\<open>client.go\<close>: the client with its dependencies, the resolution of a target to candidates, and the
  dial of several candidates at once. The resolver, the dialer, the source of tokens and the clock are
  the operating system's; they are fields of the client, as in the source.
\<close>

section \<open>Definitions\<close>

definition maxAllowedTimeout :: int where
  "maxAllowedTimeout = 30 * 1000000000"

definition defaultDialFallbackDelay :: int where
  "defaultDialFallbackDelay = 250 * 1000000"

record srvRecord =
  srv_Target :: string
  srv_Port :: u16

text \<open>The interface \<^verbatim>\<open>dnsResolver\<close>: the records of a service, the addresses of a host.\<close>

record dnsResolver =
  LookupSRV :: "string \<Rightarrow> string \<Rightarrow> string \<Rightarrow> srvRecord list result"
  LookupNetIP :: "string \<Rightarrow> string \<Rightarrow> addr list result"

text \<open>
  The fields a caller may leave \<^verbatim>\<open>nil\<close> are options. The clock gives its \<open>k\<close>-th reading, in nanoseconds;
  \<^verbatim>\<open>rand.Read\<close> fills eight bytes or fails.
\<close>

type_synonym dialContextFunc = "string \<Rightarrow> string \<Rightarrow> conn result"

record pingClient =
  resolver :: "dnsResolver option"
  dialContext :: "dialContextFunc option"
  tokenSource :: "u64 result option"
  clock :: "(nat \<Rightarrow> int) option"
  dialFallbackDelay :: int

text \<open>What the process supplies: the values \<^verbatim>\<open>newPingClient\<close> and \<^verbatim>\<open>withDefaults\<close> put in.\<close>

record system =
  sys_resolver :: dnsResolver
  sys_dial :: dialContextFunc
  sys_rand :: "byte list result"
  sys_clock :: "nat \<Rightarrow> int"

definition newPingClient :: "system \<Rightarrow> pingClient" where
  "newPingClient sys =
     \<lparr>resolver = Some (sys_resolver sys), dialContext = Some (sys_dial sys), tokenSource = Some (generatePingToken (sys_rand sys)),
      clock = Some (sys_clock sys), dialFallbackDelay = defaultDialFallbackDelay\<rparr>"

definition orElse :: "'a option \<Rightarrow> 'a \<Rightarrow> 'a option" where
  "orElse x d = (case x of None \<Rightarrow> Some d | Some y \<Rightarrow> Some y)"

definition withDefaults :: "system \<Rightarrow> pingClient \<Rightarrow> pingClient" where
  "withDefaults sys c =
     \<lparr>resolver = orElse (resolver c) (sys_resolver sys),
      dialContext = orElse (dialContext c) (sys_dial sys),
      tokenSource = orElse (tokenSource c) (generatePingToken (sys_rand sys)),
      clock = orElse (clock c) (sys_clock sys),
      dialFallbackDelay = (if dialFallbackDelay c \<le> 0 then defaultDialFallbackDelay else dialFallbackDelay c)\<rparr>"

definition resolveDialCandidates :: "pingClient \<Rightarrow> endpoint \<Rightarrow> pingOptions \<Rightarrow> dialCandidate list result" where
  "resolveDialCandidates c target options =
     (if endpoint_literalIP target \<noteq> None then dialCandidateForLiteralIP target options
      else
        ebind (uint16Port target) (\<lambda>port.
        ebind (LookupNetIP (the (resolver c)) (resolverNetwork (addressFamily_of options)) (Host target)) (\<lambda>addrs.
          dialCandidatesForResolvedIPs (Host target) port addrs options)))"

text \<open>
  The loop that receives the results of the attempts, in the order in which they arrive on the channel:
  the first connection is returned, and the errors are joined when there is none.
\<close>

fun receiveResults :: "(dialCandidate \<times> 'c result) list \<Rightarrow> goerr list \<Rightarrow> 'c result" where
  "receiveResults [] errs =
     (if errs = [] then Inl (ErrNew ''failed to dial any resolved address'') else Inl (Join errs))"
| "receiveResults ((candidate, Inr connection) # _) errs = Inr connection"
| "receiveResults ((candidate, Inl e) # rest) errs =
     receiveResults rest (errs @ [Wrapf ''%s: %w'' [AStr (cand_String candidate)] e])"

text \<open>
  How the attempts of one dial turn out in time: the order in which they report on the channel, by their
  position, and what each sees of the context: the error of a context that ends before the delay of the
  attempt is over, and the error of one that has ended when the dialer returns. The delays and the
  cancellation that produce such a schedule are the subject of the theory \<open>Dial_Race\<close>.
\<close>

record dialSchedule =
  sch_order :: "nat list"
  sch_waitErr :: "nat \<Rightarrow> goerr option"
  sch_lateErr :: "nat \<Rightarrow> goerr option"

definition dialCandidateAfterDelay ::
  "dialContextFunc \<Rightarrow> goerr option \<Rightarrow> goerr option \<Rightarrow> dialCandidate \<Rightarrow> int \<Rightarrow> dialCandidate \<times> conn result" where
  "dialCandidateAfterDelay dial waitErr lateErr candidate delay =
     (case (if delay > 0 then waitErr else None) of
        Some e \<Rightarrow> (candidate, Inl e)
      | None \<Rightarrow>
          (case dial (cand_Network candidate) (cand_String candidate) of
             Inl e \<Rightarrow> (candidate, Inl e)
           | Inr connection \<Rightarrow>
               (case lateErr of Some e \<Rightarrow> (candidate, Inl e) | None \<Rightarrow> (candidate, Inr connection))))"

text \<open>The goroutine of the \<open>i\<close>-th candidate, whose delay is \<open>i\<close> times the fallback delay.\<close>

definition dialAttempt :: "pingClient \<Rightarrow> dialSchedule \<Rightarrow> dialCandidate list \<Rightarrow> nat \<Rightarrow> dialCandidate \<times> conn result" where
  "dialAttempt c sched candidates i =
     dialCandidateAfterDelay (the (dialContext c)) (sch_waitErr sched i) (sch_lateErr sched i)
       (candidates ! i) (int i * dialFallbackDelay c)"

definition dialCandidates :: "pingClient \<Rightarrow> dialSchedule \<Rightarrow> dialCandidate list \<Rightarrow> conn result" where
  "dialCandidates c sched candidates =
     (if candidates = [] then Inl (ErrNew ''no dial candidates available'')
      else if length candidates = 1 then
        the (dialContext c) (cand_Network (hd candidates)) (cand_String (hd candidates))
      else receiveResults (map (dialAttempt c sched candidates) (sch_order sched)) [])"

text \<open>A schedule in which every attempt reports once.\<close>

definition complete_schedule :: "dialSchedule \<Rightarrow> 'a list \<Rightarrow> bool" where
  "complete_schedule sched xs \<longleftrightarrow> mset (sch_order sched) = mset [0..<length xs]"

section \<open>The policy of the options as an interface\<close>

text \<open>
  A source of candidates promises that every candidate it gives is permitted: the address is valid, has
  the requested family, and is public unless private addresses are allowed.
\<close>

definition permitted :: "pingOptions \<Rightarrow> dialCandidate \<Rightarrow> bool" where
  "permitted options c \<longleftrightarrow>
     dialable (addressFamily_of options) (allowPrivateAddresses options) (ap_addr (cand_address c))"

lemma complete_schedule_set: "complete_schedule sched xs \<Longrightarrow> set (sch_order sched) = {..<length xs}"
proof -
  assume "complete_schedule sched xs"
  then have "set (sch_order sched) = set [0..<length xs]"
    unfolding complete_schedule_def by (rule mset_eq_setD)
  then show ?thesis by (simp add: lessThan_atLeast0)
qed

locale candidate_source =
  fixes candidates :: "pingOptions \<Rightarrow> 'q \<Rightarrow> dialCandidate list result"
  assumes candidates_permitted:
    "candidates options q = Inr cs \<Longrightarrow> cs \<noteq> [] \<and> (\<forall>c \<in> set cs. permitted options c)"
begin

text \<open>A dial of the candidates of the source asks the dialer for permitted addresses only.\<close>

lemma dialled_permitted:
  assumes "candidates options q = Inr cs" and "complete_schedule sched cs"
    and agree: "\<And>x. permitted options x \<Longrightarrow>
      the (dialContext c) (cand_Network x) (cand_String x) = d (cand_Network x) (cand_String x)"
  shows "dialCandidates c sched cs = dialCandidates (c\<lparr>dialContext := Some d\<rparr>) sched cs"
proof -
  have cs: "cs \<noteq> []" and perm: "\<And>x. x \<in> set cs \<Longrightarrow> permitted options x"
    using assms(1) candidates_permitted by auto
  have ord: "i \<in> set (sch_order sched) \<Longrightarrow> i < length cs" for i
    using complete_schedule_set [OF assms(2)] by simp
  have one: "the (dialContext c) (cand_Network (hd cs)) (cand_String (hd cs)) =
      d (cand_Network (hd cs)) (cand_String (hd cs))"
    using cs perm by (intro agree) simp
  have "dialAttempt c sched cs i = dialAttempt (c\<lparr>dialContext := Some d\<rparr>) sched cs i"
    if "i \<in> set (sch_order sched)" for i
    using agree [of "cs ! i"] perm [of "cs ! i"] ord [OF that]
    by (simp add: dialAttempt_def dialCandidateAfterDelay_def split: option.split)
  then have many: "map (dialAttempt c sched cs) (sch_order sched) =
      map (dialAttempt (c\<lparr>dialContext := Some d\<rparr>) sched cs) (sch_order sched)"
    by simp
  show ?thesis
    unfolding dialCandidates_def many one by simp
qed

lemma literal_loopback_needs_allow:
  assumes "candidates options q = Inr cs" and "c \<in> set cs" and "\<not> allowPrivateAddresses options"
  shows "\<not> isNonPublicAddr (ap_addr (cand_address c))"
  using assms candidates_permitted by (auto simp: permitted_def dialable_def)

end

section \<open>Lemmas\<close>

lemma dialCandidateForLiteralIP_Inr:
  "dialCandidateForLiteralIP target options = Inr cs \<longleftrightarrow>
     (\<exists>a port. endpoint_literalIP target = Some a \<and> family_matches (addressFamily_of options) a \<and>
        (allowPrivateAddresses options \<or> \<not> isNonPublicAddr a) \<and> uint16Port target = Inr port \<and>
        cs = [\<lparr>cand_address = addrPortFrom a port\<rparr>])"
  by (auto simp: dialCandidateForLiteralIP_def ebind_eq_Inr_iff split: option.splits)

lemma endpoint_literalIP_valid: "endpoint_literalIP target = Some a \<Longrightarrow> isValid a \<and> unmap a = a"
  by (auto simp: endpoint_literalIP_def dest: parseAddr_valid)

lemma literal_permitted:
  "dialCandidateForLiteralIP target options = Inr cs \<Longrightarrow> cs \<noteq> [] \<and> (\<forall>c \<in> set cs. permitted options c)"
  by (auto simp: dialCandidateForLiteralIP_Inr permitted_def dialable_def addrPortFrom_def
      dest: endpoint_literalIP_valid)

lemma resolved_permitted:
  assumes "dialCandidatesForResolvedIPsByAddr host addrs (addressFamily_of options)
      (allowPrivateAddresses options) portOf = Inr cs"
  shows "cs \<noteq> [] \<and> (\<forall>c \<in> set cs. permitted options c)"
proof -
  let ?k = "keptAddrs (addressFamily_of options) (allowPrivateAddresses options) addrs"
  from assms have k: "?k \<noteq> []" and cs: "cs = orderedCandidates portOf (dedup ?k)"
    by (auto simp: dialCandidatesForResolvedIPsByAddr_eq split: if_splits)
  have valid: "\<And>a. a \<in> set (dedup ?k) \<Longrightarrow> isValid a"
    by (auto dest: keptAddrs_unmapped)
  have "set cs = candidateAt portOf ` set ?k"
    unfolding cs using valid by (subst set_orderedCandidates) auto
  moreover have "cs \<noteq> []"
    unfolding cs using k valid by (subst orderedCandidates_eq_Nil_iff) auto
  ultimately show ?thesis
    by (auto simp: permitted_def candidateAt_def addrPortFrom_def keptAddrs_def)
qed

lemma resolveDialCandidates_permitted:
  "resolveDialCandidates c target options = Inr cs \<Longrightarrow> cs \<noteq> [] \<and> (\<forall>x \<in> set cs. permitted options x)"
  unfolding resolveDialCandidates_def dialCandidatesForResolvedIPs_def
  by (auto simp: ebind_eq_Inr_iff dest: literal_permitted resolved_permitted split: if_splits)

interpretation java_source: candidate_source "\<lambda>options (c, target). resolveDialCandidates c target options"
  by unfold_locales (auto dest: resolveDialCandidates_permitted)

text \<open>The result of the receiving loop: the first connection in the order of arrival, or all errors.\<close>

lemma receiveResults_first:
  assumes "\<forall>(x, r) \<in> set before. \<exists>e. r = Inl e"
  shows "receiveResults (before @ (y, Inr connection) # after) errs = Inr connection"
  using assms by (induction before arbitrary: errs) auto

lemma receiveResults_none:
  "receiveResults (map (\<lambda>(x, e). (x, Inl e)) fs) errs =
     (let all = errs @ map (\<lambda>(x, e). Wrapf ''%s: %w'' [AStr (cand_String x)] e) fs in
      if all = [] then Inl (ErrNew ''failed to dial any resolved address'') else Inl (Join all))"
  by (induction fs arbitrary: errs) (auto simp: Let_def)

lemma receiveResults_Inr_iff:
  "(\<exists>connection. receiveResults rs errs = Inr connection) \<longleftrightarrow> (\<exists>(x, r) \<in> set rs. \<exists>connection. r = Inr connection)"
  by (induction rs errs rule: receiveResults.induct) auto

lemma receiveResults_from:
  "receiveResults rs errs = Inr connection \<Longrightarrow> \<exists>x. (x, Inr connection) \<in> set rs"
  by (induction rs errs rule: receiveResults.induct) (auto split: if_splits)

subsection \<open>Defaults\<close>

lemma withDefaults_dial [simp]:
  "withDefaults sys (c\<lparr>dialContext := Some d\<rparr>) = (withDefaults sys c)\<lparr>dialContext := Some d\<rparr>"
  by (simp add: withDefaults_def orElse_def)

lemma resolveDialCandidates_dial [simp]:
  "resolveDialCandidates (c\<lparr>dialContext := d\<rparr>) target options = resolveDialCandidates c target options"
  by (simp add: resolveDialCandidates_def)

lemma withDefaults_fields [simp]:
  "dialContext (withDefaults sys c) \<noteq> None"
  "resolver (withDefaults sys c) \<noteq> None" "tokenSource (withDefaults sys c) \<noteq> None" "clock (withDefaults sys c) \<noteq> None"
  "0 < dialFallbackDelay (withDefaults sys c)"
  by (auto simp: withDefaults_def orElse_def defaultDialFallbackDelay_def split: option.splits)

lemma withDefaults_idem [simp]: "withDefaults sys (withDefaults sys' c) = withDefaults sys' c"
  by (auto simp: withDefaults_def orElse_def defaultDialFallbackDelay_def split: option.splits)

text \<open>The loop over attempts that are numbered: the first that succeeds, or the errors of all.\<close>

lemma receiveResults_map:
  assumes "\<And>i. fst (a i) = cand i"
  shows "receiveResults (map a is) errs =
    (case filter (\<lambda>i. \<not> isl (snd (a i))) is of
       i # _ \<Rightarrow> snd (a i)
     | [] \<Rightarrow> receiveResults [] (errs @ map (\<lambda>i. Wrapf ''%s: %w'' [AStr (cand_String (cand i))] (projl (snd (a i)))) is))"
proof (induction "is" arbitrary: errs)
  case (Cons i "is")
  obtain r where "a i = (cand i, r)" using assms by (metis prod.collapse)
  with Cons show ?case by (cases r) (simp_all split: list.split)
qed simp

section \<open>Properties\<close>

text \<open>
  C16: a dial of two or more candidates in which every attempt reports returns the connection of the first
  attempt, in the order of arrival, that gets one; when no attempt gets one, it returns the errors of all
  attempts, each with its candidate. An attempt fails when the context ends during its delay, when the
  dialer fails, or when the context has ended by the time the dialer returns.
\<close>

theorem dialCandidates_first_success:
  assumes "length candidates \<ge> 2" and "complete_schedule sched candidates"
  shows "dialCandidates c sched candidates =
    (case filter (\<lambda>i. \<not> isl (snd (dialAttempt c sched candidates i))) (sch_order sched) of
       i # _ \<Rightarrow> snd (dialAttempt c sched candidates i)
     | [] \<Rightarrow> Inl (Join (map (\<lambda>i. Wrapf ''%s: %w'' [AStr (cand_String (candidates ! i))]
                 (projl (snd (dialAttempt c sched candidates i)))) (sch_order sched))))"
proof -
  let ?a = "dialAttempt c sched candidates"
  have "fst (?a i) = candidates ! i" for i
    by (simp add: dialAttempt_def dialCandidateAfterDelay_def split: option.splits sum.splits)
  note eq = receiveResults_map [of ?a "\<lambda>i. candidates ! i" "sch_order sched" "[]", OF this]
  have "sch_order sched \<noteq> []"
    using complete_schedule_set [OF assms(2)] assms(1) by (force simp: lessThan_empty_iff)
  moreover have "dialCandidates c sched candidates = receiveResults (map ?a (sch_order sched)) []"
    using assms(1) by (auto simp: dialCandidates_def)
  ultimately show ?thesis
    by (simp add: eq split: list.split)
qed

definition exampleClient :: "dialContextFunc \<Rightarrow> pingClient" where
  "exampleClient dial =
     \<lparr>resolver = None, dialContext = Some dial, tokenSource = None, clock = None,
      dialFallbackDelay = defaultDialFallbackDelay\<rparr>"

definition examplePair :: "dialCandidate list" where
  "examplePair =
     [\<lparr>cand_address = addrPortFrom (Addr6 0x20010DB8000000000000000000000001 []) 25565\<rparr>,
      \<lparr>cand_address = addrPortFrom (Addr4 0x08080808) 25565\<rparr>]"

theorem dialCandidates_first_success_witness:
  "dialCandidates (exampleClient (\<lambda>n a. if n = ''tcp6'' then Inl ErrTimeout else Inr (connTo (\<lambda>_. []))))
     \<lparr>sch_order = [0, 1], sch_waitErr = (\<lambda>_. None), sch_lateErr = (\<lambda>_. None)\<rparr> examplePair = Inr (connTo (\<lambda>_. []))"
proof -
  have "2 \<le> length examplePair" by code_simp
  moreover have "complete_schedule \<lparr>sch_order = [0, 1], sch_waitErr = (\<lambda>_. None), sch_lateErr = (\<lambda>_. None)\<rparr> examplePair"
    by (simp add: complete_schedule_def examplePair_def)
  ultimately show ?thesis
    by (subst dialCandidates_first_success)
      (simp_all add: dialAttempt_def dialCandidateAfterDelay_def exampleClient_def examplePair_def cand_Network_def
        addrPortFrom_def)
qed

end
