(* ===== verification/Steps.thy ===== *)
theory Steps
  imports Main
begin

text \<open>
  The contracts of the step relations, which model code that runs in several goroutines: an invariant that every
  step keeps; a rank that every step lowers, so that no run is longer than it; and a rank that some step lowers as
  long as the work is not finished, so that the work can be finished from every state that is ready for it.
\<close>

locale step_system =
  fixes step :: "'s \<Rightarrow> 's \<Rightarrow> bool"
    and inv :: "'s \<Rightarrow> bool"
  assumes inv_step: "step s s' \<Longrightarrow> inv s \<Longrightarrow> inv s'"
begin

lemma inv_run: "step\<^sup>*\<^sup>* s s' \<Longrightarrow> inv s \<Longrightarrow> inv s'"
  by (induction rule: rtranclp_induct) (auto dest: inv_step)

end

locale finishing_system = step_system step inv
  for step :: "'s \<Rightarrow> 's \<Rightarrow> bool" and inv :: "'s \<Rightarrow> bool" +
  fixes rank :: "'s \<Rightarrow> nat"
    and ready finished :: "'s \<Rightarrow> bool"
  assumes leads_on: "inv s \<Longrightarrow> ready s \<Longrightarrow> \<not> finished s \<Longrightarrow> \<exists>s'. step s s' \<and> rank s' < rank s \<and> ready s'"
begin

lemma finishes:
  assumes "inv s" and "ready s"
  shows "\<exists>s'. step\<^sup>*\<^sup>* s s' \<and> finished s'"
  using assms
proof (induction "rank s" arbitrary: s rule: less_induct)
  case less
  show ?case
  proof (cases "finished s")
    case False
    with leads_on less.prems obtain s1 where "step s s1" "rank s1 < rank s" "ready s1" by blast
    with less.hyps [of s1] inv_step less.prems show ?thesis by (blast intro: converse_rtranclp_into_rtranclp)
  qed blast
qed

end

locale shrinking_system = step_system step inv
  for step :: "'s \<Rightarrow> 's \<Rightarrow> bool" and inv :: "'s \<Rightarrow> bool" +
  fixes rank :: "'s \<Rightarrow> nat"
    and finished :: "'s \<Rightarrow> bool"
  assumes shrinks: "step s s' \<Longrightarrow> inv s \<Longrightarrow> rank s' < rank s"
    and not_stuck: "inv s \<Longrightarrow> \<not> finished s \<Longrightarrow> \<exists>s'. step s s'"
begin

lemma run_length: "(step ^^ n) s s' \<Longrightarrow> inv s \<Longrightarrow> n + rank s' \<le> rank s"
proof (induction n arbitrary: s')
  case (Suc n)
  then obtain t where t: "(step ^^ n) s t" "step t s'" by auto
  then have "inv t" using Suc.prems(2) inv_run by (blast intro: relpowp_imp_rtranclp)
  with t Suc.IH Suc.prems(2) shrinks [of t s'] show ?case by fastforce
qed simp

lemma no_endless_run: "inv (f 0) \<Longrightarrow> \<exists>n. \<not> step (f n) (f (Suc n))"
proof (rule ccontr)
  assume "inv (f 0)" and "\<nexists>n. \<not> step (f n) (f (Suc n))"
  then have "(step ^^ n) (f 0) (f n)" for n by (induction n) auto
  from run_length [OF this \<open>inv (f 0)\<close>, of "Suc (rank (f 0))"] show False by simp
qed

end

sublocale shrinking_system \<subseteq> finishing_system step inv rank "\<lambda>_. True" finished
  by unfold_locales (use not_stuck shrinks in blast)

end
