(* ===== verification/Dial_Race.thy ===== *)
theory Dial_Race
  imports Client Steps
begin

text \<open>
  The goroutines of \<^verbatim>\<open>dialCandidates\<close> in \<^verbatim>\<open>client.go\<close> as a step relation: one attempt for each candidate, the
  buffered channel of their results, the context that the receiver cancels, and the receiver itself. The
  outcome the dialer has for a candidate in a run, which may be the error of the ended context, is what
  \<open>dialContext\<close> gives for it. The theory shows which results the receiver can return, that it always returns
  one, and what becomes of the connections it does not return.
\<close>

section \<open>Definitions\<close>

datatype attempt = Delayed | Dialling | Dialled | Checked | Reported

datatype receiver = Receiving "goerr list" | Returned "conn result"

text \<open>
  \<open>ra_chan\<close> holds the results that wait on the channel, \<open>ra_log\<close> all that were ever sent, \<open>ra_ctxErr\<close> the error
  of the context once it has ended, and \<open>ra_open\<close> the attempts whose connection was opened and not closed.
\<close>

record race =
  ra_attempts :: "attempt list"
  ra_chan :: "(nat \<times> conn result) list"
  ra_log :: "(nat \<times> conn result) list"
  ra_ctxErr :: "goerr option"
  ra_open :: "nat set"
  ra_main :: receiver

definition raceInit :: "'a list \<Rightarrow> race" where
  "raceInit candidates =
     \<lparr>ra_attempts = replicate (length candidates) Delayed, ra_chan = [], ra_log = [], ra_ctxErr = None, ra_open = {},
      ra_main = Receiving []\<rparr>"

definition dialOf :: "pingClient \<Rightarrow> dialCandidate list \<Rightarrow> nat \<Rightarrow> conn result" where
  "dialOf c candidates i = the (dialContext c) (cand_Network (candidates ! i)) (cand_String (candidates ! i))"

definition report :: "nat \<Rightarrow> conn result \<Rightarrow> race \<Rightarrow> race" where
  "report i r s =
     s\<lparr>ra_attempts := (ra_attempts s)[i := Reported], ra_chan := ra_chan s @ [(i, r)], ra_log := ra_log s @ [(i, r)]\<rparr>"

definition cancelled :: "goerr option \<Rightarrow> goerr option" where
  "cancelled e = (case e of None \<Rightarrow> Some ErrCanceled | Some x \<Rightarrow> Some x)"

definition attemptError :: "dialCandidate list \<Rightarrow> nat \<times> goerr \<Rightarrow> goerr" where
  "attemptError candidates ie = Wrapf ''%s: %w'' [AStr (cand_String (candidates ! fst ie))] (snd ie)"

text \<open>One result is received: the first connection ends the loop, and so does the last error.\<close>

definition afterReceive :: "dialCandidate list \<Rightarrow> goerr list \<Rightarrow> nat \<times> conn result \<Rightarrow> receiver" where
  "afterReceive candidates errs m =
     (case snd m of
        Inr connection \<Rightarrow> Returned (Inr connection)
      | Inl e \<Rightarrow>
          (let errs' = errs @ [attemptError candidates (fst m, e)] in
           if length errs' = length candidates then Returned (Inl (Join errs')) else Receiving errs'))"

inductive raceStep :: "pingClient \<Rightarrow> dialCandidate list \<Rightarrow> race \<Rightarrow> race \<Rightarrow> bool"
  for c candidates where
  wake: "i < length candidates \<Longrightarrow> ra_attempts s ! i = Delayed \<Longrightarrow>
    raceStep c candidates s (s\<lparr>ra_attempts := (ra_attempts s)[i := Dialling]\<rparr>)"
| waitEnds: "i < length candidates \<Longrightarrow> ra_attempts s ! i = Delayed \<Longrightarrow> int i * dialFallbackDelay c > 0 \<Longrightarrow>
    ra_ctxErr s = Some e \<Longrightarrow> raceStep c candidates s (report i (Inl e) s)"
| dialFails: "i < length candidates \<Longrightarrow> ra_attempts s ! i = Dialling \<Longrightarrow> dialOf c candidates i = Inl e \<Longrightarrow>
    raceStep c candidates s (report i (Inl e) s)"
| dialSucceeds: "i < length candidates \<Longrightarrow> ra_attempts s ! i = Dialling \<Longrightarrow> dialOf c candidates i = Inr connection \<Longrightarrow>
    raceStep c candidates s (s\<lparr>ra_attempts := (ra_attempts s)[i := Dialled], ra_open := insert i (ra_open s)\<rparr>)"
| late: "i < length candidates \<Longrightarrow> ra_attempts s ! i = Dialled \<Longrightarrow> ra_ctxErr s = Some e \<Longrightarrow>
    raceStep c candidates s (report i (Inl e) (s\<lparr>ra_open := ra_open s - {i}\<rparr>))"
| inTime: "i < length candidates \<Longrightarrow> ra_attempts s ! i = Dialled \<Longrightarrow> ra_ctxErr s = None \<Longrightarrow>
    raceStep c candidates s (s\<lparr>ra_attempts := (ra_attempts s)[i := Checked]\<rparr>)"
| send: "i < length candidates \<Longrightarrow> ra_attempts s ! i = Checked \<Longrightarrow>
    raceStep c candidates s (report i (dialOf c candidates i) s)"
| receive: "ra_main s = Receiving errs \<Longrightarrow> ra_chan s = m # rest \<Longrightarrow>
    raceStep c candidates s
      (s\<lparr>ra_chan := rest, ra_main := afterReceive candidates errs m,
         ra_ctxErr := (case afterReceive candidates errs m of Returned _ \<Rightarrow> cancelled (ra_ctxErr s) | _ \<Rightarrow> ra_ctxErr s)\<rparr>)"
| parentEnds: "ra_ctxErr s = None \<Longrightarrow> raceStep c candidates s (s\<lparr>ra_ctxErr := Some e\<rparr>)"

definition raceRun :: "pingClient \<Rightarrow> dialCandidate list \<Rightarrow> race \<Rightarrow> race \<Rightarrow> bool" where
  "raceRun c candidates = (raceStep c candidates)\<^sup>*\<^sup>*"

section \<open>Lemmas\<close>

subsection \<open>The invariant\<close>

text \<open>What the receiver has taken from the channel, by its state.\<close>

fun takenFits :: "dialCandidate list \<Rightarrow> (nat \<times> conn result) list \<Rightarrow> receiver \<Rightarrow> bool" where
  "takenFits candidates taken (Receiving errs) \<longleftrightarrow>
     (\<exists>fs. taken = map (\<lambda>(i, e). (i, Inl e)) fs \<and> errs = map (attemptError candidates) fs \<and> length fs < length candidates)"
| "takenFits candidates taken (Returned (Inl e)) \<longleftrightarrow>
     (\<exists>fs. taken = map (\<lambda>(i, e). (i, Inl e)) fs \<and> e = Join (map (attemptError candidates) fs) \<and>
        length fs = length candidates)"
| "takenFits candidates taken (Returned (Inr connection)) \<longleftrightarrow>
     (\<exists>fs i. taken = map (\<lambda>(i, e). (i, Inl e)) fs @ [(i, Inr connection)])"

text \<open>A result that an attempt can report.\<close>

definition possibleResult :: "pingClient \<Rightarrow> dialCandidate list \<Rightarrow> nat \<times> conn result \<Rightarrow> bool" where
  "possibleResult c candidates m \<longleftrightarrow>
     (case m of
        (i, Inr connection) \<Rightarrow> dialOf c candidates i = Inr connection
      | (i, Inl e) \<Rightarrow>
          int i * dialFallbackDelay c > 0 \<or> dialOf c candidates i = Inl e \<or> (\<exists>k. dialOf c candidates i = Inr k))"

definition raceInv :: "pingClient \<Rightarrow> dialCandidate list \<Rightarrow> race \<Rightarrow> bool" where
  "raceInv c candidates s \<longleftrightarrow>
     length (ra_attempts s) = length candidates \<and>
     distinct (map fst (ra_log s)) \<and>
     fst ` set (ra_log s) = {i. i < length candidates \<and> ra_attempts s ! i = Reported} \<and>
     (\<forall>m \<in> set (ra_log s). possibleResult c candidates m) \<and>
     (\<forall>i < length candidates. ra_attempts s ! i \<in> {Dialled, Checked} \<longrightarrow> (\<exists>k. dialOf c candidates i = Inr k)) \<and>
     ra_open s = {i. i < length candidates \<and> ra_attempts s ! i \<in> {Dialled, Checked}} \<union>
       {i. \<exists>k. (i, Inr k) \<in> set (ra_log s)} \<and>
     (\<exists>taken. ra_log s = taken @ ra_chan s \<and> takenFits candidates taken (ra_main s))"

lemma raceInv_init: "candidates \<noteq> [] \<Longrightarrow> raceInv c candidates (raceInit candidates)"
  by (simp add: raceInv_def raceInit_def)

lemma takenFits_afterReceive:
  assumes "takenFits candidates taken (Receiving errs)"
  shows "takenFits candidates (taken @ [m]) (afterReceive candidates errs m)"
proof -
  obtain i r where m: "m = (i, r)" by (cases m)
  from assms obtain fs where fs: "taken = map (\<lambda>(i, e). (i, Inl e)) fs" "errs = map (attemptError candidates) fs"
    "length fs < length candidates" by auto
  show ?thesis
  proof (cases r)
    case (Inl e)
    with fs m show ?thesis
      by (auto simp: afterReceive_def Let_def intro!: exI [of _ "fs @ [(i, e)]"])
  next
    case (Inr k)
    with fs m show ?thesis by (auto simp: afterReceive_def)
  qed
qed

lemma raceInv_taken:
  assumes "raceInv c candidates s"
  obtains taken where "ra_log s = taken @ ra_chan s" "takenFits candidates taken (ra_main s)"
  using assms unfolding raceInv_def by blast

lemma raceInv_unreported:
  assumes "raceInv c candidates s" and "i < length candidates" and "ra_attempts s ! i \<noteq> Reported"
  shows "i \<notin> fst ` set (ra_log s)" and "i \<in> ra_open s \<longleftrightarrow> ra_attempts s ! i \<in> {Dialled, Checked}"
proof -
  show log: "i \<notin> fst ` set (ra_log s)" using assms unfolding raceInv_def by blast
  then have "(i, Inr k) \<notin> set (ra_log s)" for k by force
  then show "i \<in> ra_open s \<longleftrightarrow> ra_attempts s ! i \<in> {Dialled, Checked}"
    using assms unfolding raceInv_def by auto
qed

lemma raceInv_report:
  assumes inv: "raceInv c candidates s" and i: "i < length candidates" and new: "ra_attempts s ! i \<noteq> Reported"
    and possible: "possibleResult c candidates (i, r)"
  shows "raceInv c candidates
    (report i r (s\<lparr>ra_open := (case r of Inr _ \<Rightarrow> insert i (ra_open s) | Inl _ \<Rightarrow> ra_open s - {i})\<rparr>))" (is "raceInv _ _ ?s")
proof -
  note fresh = raceInv_unreported(1) [OF inv i new]
  have len: "length (ra_attempts s) = length candidates" using inv by (simp add: raceInv_def)
  have att: "ra_attempts ?s ! j = (if j = i then Reported else ra_attempts s ! j)" for j
    using i len by (simp add: report_def nth_list_update)
  have sel: "ra_log ?s = ra_log s @ [(i, r)]" "ra_chan ?s = ra_chan s @ [(i, r)]" "ra_main ?s = ra_main s"
    "ra_open ?s = (case r of Inr _ \<Rightarrow> insert i (ra_open s) | Inl _ \<Rightarrow> ra_open s - {i})"
    "length (ra_attempts ?s) = length candidates"
    using len by (simp_all add: report_def)
  obtain taken where taken: "ra_log s = taken @ ra_chan s" "takenFits candidates taken (ra_main s)"
    using inv by (rule raceInv_taken)
  have openS: "ra_open s = {j. j < length candidates \<and> ra_attempts s ! j \<in> {Dialled, Checked}} \<union> {j. \<exists>k. (j, Inr k) \<in> set (ra_log s)}"
    using inv by (simp add: raceInv_def)
  have "(i, Inr k) \<notin> set (ra_log s)" for k using fresh by force
  then have "ra_open ?s = {j. j < length candidates \<and> ra_attempts ?s ! j \<in> {Dialled, Checked}} \<union>
      {j. \<exists>k. (j, Inr k) \<in> set (ra_log ?s)}"
    using i unfolding sel att unfolding openS by (cases r) auto
  moreover have "fst ` set (ra_log ?s) = {j. j < length candidates \<and> ra_attempts ?s ! j = Reported}"
  proof -
    have "fst ` set (ra_log s) = {j. j < length candidates \<and> ra_attempts s ! j = Reported}"
      using inv by (simp add: raceInv_def)
    then show ?thesis using i unfolding sel att by auto
  qed
  moreover have "\<forall>j < length candidates. ra_attempts ?s ! j \<in> {Dialled, Checked} \<longrightarrow> (\<exists>k. dialOf c candidates j = Inr k)"
    using inv unfolding att by (auto simp: raceInv_def)
  moreover have "distinct (map fst (ra_log ?s))" "\<forall>m \<in> set (ra_log ?s). possibleResult c candidates m"
    using inv fresh possible unfolding sel by (auto simp: raceInv_def)
  moreover have "\<exists>taken. ra_log ?s = taken @ ra_chan ?s \<and> takenFits candidates taken (ra_main ?s)"
    using taken unfolding sel by (intro exI [of _ taken]) simp
  ultimately show ?thesis
    unfolding raceInv_def using sel(5) by blast
qed

text \<open>A step of an attempt that reports nothing.\<close>

lemma raceInv_advance:
  assumes inv: "raceInv c candidates s" and i: "i < length candidates" and new: "ra_attempts s ! i \<noteq> Reported" "a \<noteq> Reported"
    and dial: "a \<in> {Dialled, Checked} \<Longrightarrow> \<exists>k. dialOf c candidates i = Inr k"
  shows "raceInv c candidates (s\<lparr>ra_attempts := (ra_attempts s)[i := a],
    ra_open := (if a \<in> {Dialled, Checked} then insert i (ra_open s) else ra_open s - {i})\<rparr>)" (is "raceInv _ _ ?s")
proof -
  note fresh = raceInv_unreported(1) [OF inv i new(1)]
  have len: "length (ra_attempts s) = length candidates" using inv by (simp add: raceInv_def)
  have att: "ra_attempts ?s ! j = (if j = i then a else ra_attempts s ! j)" for j
    using i len by (simp add: nth_list_update)
  have openS: "ra_open s = {j. j < length candidates \<and> ra_attempts s ! j \<in> {Dialled, Checked}} \<union> {j. \<exists>k. (j, Inr k) \<in> set (ra_log s)}"
    using inv by (simp add: raceInv_def)
  have "(i, Inr k) \<notin> set (ra_log s)" for k using fresh by force
  then have "ra_open ?s = {j. j < length candidates \<and> ra_attempts ?s ! j \<in> {Dialled, Checked}} \<union>
      {j. \<exists>k. (j, Inr k) \<in> set (ra_log ?s)}"
    using i unfolding att by (auto simp: openS)
  moreover have "fst ` set (ra_log ?s) = {j. j < length candidates \<and> ra_attempts ?s ! j = Reported}"
  proof -
    have "fst ` set (ra_log s) = {j. j < length candidates \<and> ra_attempts s ! j = Reported}"
      using inv by (simp add: raceInv_def)
    then show ?thesis using new unfolding att by auto
  qed
  moreover have "\<forall>j < length candidates. ra_attempts ?s ! j \<in> {Dialled, Checked} \<longrightarrow> (\<exists>k. dialOf c candidates j = Inr k)"
    using inv dial unfolding att by (auto simp: raceInv_def)
  ultimately show ?thesis
    using inv len unfolding raceInv_def by simp
qed

lemma raceInv_step:
  assumes "raceStep c candidates s s'" and inv: "raceInv c candidates s"
  shows "raceInv c candidates s'"
  using assms(1)
proof cases
  case (wake i)
  then have "ra_open s - {i} = ra_open s" using raceInv_unreported(2) [OF inv, of i] by auto
  with raceInv_advance [OF inv, of i Dialling] wake show ?thesis by simp
next
  case (waitEnds i e)
  then have "ra_open s - {i} = ra_open s" using raceInv_unreported(2) [OF inv, of i] by auto
  with raceInv_report [OF inv, of i "Inl e"] waitEnds show ?thesis by (simp add: possibleResult_def)
next
  case (dialFails i e)
  then have "ra_open s - {i} = ra_open s" using raceInv_unreported(2) [OF inv, of i] by auto
  with raceInv_report [OF inv, of i "Inl e"] dialFails show ?thesis by (simp add: possibleResult_def)
next
  case (dialSucceeds i k)
  with raceInv_advance [OF inv, of i Dialled] show ?thesis by simp
next
  case (late i e)
  then have "\<exists>k. dialOf c candidates i = Inr k" using inv unfolding raceInv_def by blast
  with raceInv_report [OF inv, of i "Inl e"] late show ?thesis by (auto simp: possibleResult_def)
next
  case (inTime i)
  then have "insert i (ra_open s) = ra_open s" using raceInv_unreported(2) [OF inv, of i] by auto
  moreover have "\<exists>k. dialOf c candidates i = Inr k" using inTime inv unfolding raceInv_def by blast
  ultimately show ?thesis using raceInv_advance [OF inv, of i Checked] inTime by simp
next
  case (send i)
  then obtain k where k: "dialOf c candidates i = Inr k" using inv unfolding raceInv_def by blast
  have "insert i (ra_open s) = ra_open s" using raceInv_unreported(2) [OF inv, of i] send by auto
  with raceInv_report [OF inv, of i "Inr k"] send k show ?thesis by (simp add: possibleResult_def)
next
  case (receive errs m rest)
  from inv obtain taken where taken: "ra_log s = taken @ ra_chan s" "takenFits candidates taken (ra_main s)"
    by (rule raceInv_taken)
  with takenFits_afterReceive [of candidates taken errs m] receive
  have "\<exists>taken. ra_log s = taken @ rest \<and> takenFits candidates taken (afterReceive candidates errs m)"
    by (intro exI [of _ "taken @ [m]"]) simp
  with inv receive(1) show ?thesis unfolding raceInv_def by simp
next
  case (parentEnds e)
  with inv show ?thesis by (simp add: raceInv_def)
qed

subsection \<open>The functional model of the dial\<close>

text \<open>The schedule that a run stands for: the order of the reports, and the errors in place of a dial.\<close>

definition reportedError :: "(nat \<times> conn result) list \<Rightarrow> nat \<Rightarrow> goerr option" where
  "reportedError sent i = (case map_of sent i of Some (Inl e) \<Rightarrow> Some e | _ \<Rightarrow> None)"

definition scheduleOf :: "nat \<Rightarrow> (nat \<times> conn result) list \<Rightarrow> dialSchedule" where
  "scheduleOf n sent =
     \<lparr>sch_order = map fst sent @ filter (\<lambda>i. i \<notin> fst ` set sent) [0..<n],
      sch_waitErr = reportedError sent, sch_lateErr = reportedError sent\<rparr>"

lemma scheduleOf_complete:
  assumes "raceInv c candidates s"
  shows "complete_schedule (scheduleOf (length candidates) (ra_log s)) candidates"
proof -
  have "distinct (map fst (ra_log s))" and log: "fst ` set (ra_log s) \<subseteq> {..<length candidates}"
    using assms by (auto simp: raceInv_def)
  then have "distinct (sch_order (scheduleOf (length candidates) (ra_log s)))"
    by (auto simp: scheduleOf_def)
  moreover have "set (sch_order (scheduleOf (length candidates) (ra_log s))) = set [0..<length candidates]"
    using log by (auto simp: scheduleOf_def)
  ultimately show ?thesis
    unfolding complete_schedule_def using set_eq_iff_mset_eq_distinct distinct_upt by blast
qed

lemma scheduleOf_attempt:
  assumes "raceInv c candidates s" and "(i, r) \<in> set (ra_log s)"
  shows "dialAttempt c (scheduleOf n (ra_log s)) candidates i = (candidates ! i, r)"
proof -
  have "map_of (ra_log s) i = Some r"
    using assms by (simp add: raceInv_def)
  then have err: "reportedError (ra_log s) i = (case r of Inl e \<Rightarrow> Some e | Inr _ \<Rightarrow> None)"
    by (simp add: reportedError_def split: sum.split)
  have "possibleResult c candidates (i, r)" using assms by (auto simp: raceInv_def)
  then show ?thesis
    by (cases r) (auto simp: dialAttempt_def dialCandidateAfterDelay_def scheduleOf_def err possibleResult_def dialOf_def)
qed

lemma raceInv_refines:
  assumes inv: "raceInv c candidates s" and main: "ra_main s = Returned r" and many: "length candidates \<ge> 2"
  shows "dialCandidates c (scheduleOf (length candidates) (ra_log s)) candidates = r"
proof -
  let ?sched = "scheduleOf (length candidates) (ra_log s)"
  from inv obtain taken where log: "ra_log s = taken @ ra_chan s" and fits: "takenFits candidates taken (ra_main s)"
    by (rule raceInv_taken)
  have attempts: "map (dialAttempt c ?sched candidates \<circ> fst) ms = map (\<lambda>(i, r). (candidates ! i, r)) ms"
    if "set ms \<subseteq> set (ra_log s)" for ms
    using that scheduleOf_attempt [OF inv] by (intro map_cong) auto
  obtain rest where order: "map (dialAttempt c ?sched candidates) (sch_order ?sched) =
      map (\<lambda>(i, r). (candidates ! i, r)) taken @ rest" and rest: "length taken = length candidates \<Longrightarrow> rest = []"
  proof
    let ?rest = "map (\<lambda>(i, r). (candidates ! i, r)) (ra_chan s) @
      map (dialAttempt c ?sched candidates) (filter (\<lambda>i. i \<notin> fst ` set (ra_log s)) [0..<length candidates])"
    have "map (dialAttempt c ?sched candidates) (sch_order ?sched) =
        map (dialAttempt c ?sched candidates \<circ> fst) (ra_log s) @
        map (dialAttempt c ?sched candidates) (filter (\<lambda>i. i \<notin> fst ` set (ra_log s)) [0..<length candidates])"
      by (simp add: scheduleOf_def)
    then show order: "map (dialAttempt c ?sched candidates) (sch_order ?sched) = map (\<lambda>(i, r). (candidates ! i, r)) taken @ ?rest"
      using attempts [of "ra_log s"] by (simp add: log)
    have "length (sch_order ?sched) = length candidates"
      using scheduleOf_complete [OF inv] unfolding complete_schedule_def by (metis diff_zero length_upt size_mset)
    then show "length taken = length candidates \<Longrightarrow> ?rest = []"
      using arg_cong [OF order, of length] by simp
  qed
  have "dialCandidates c ?sched candidates = receiveResults (map (\<lambda>(i, r). (candidates ! i, r)) taken @ rest) []"
    using many order by (auto simp: dialCandidates_def)
  also have "\<dots> = r"
  proof (cases r)
    case (Inr k)
    with fits main obtain fs i where taken: "taken = map (\<lambda>(i, e). (i, Inl e)) fs @ [(i, Inr k)]" by auto
    have "receiveResults (map (\<lambda>(i, r). (candidates ! i, r)) (map (\<lambda>(i, e). (i, Inl e)) fs) @ (candidates ! i, Inr k) # rest) [] = Inr k"
      by (rule receiveResults_first) auto
    with taken Inr show ?thesis by simp
  next
    case (Inl e)
    with fits main obtain fs where fs: "taken = map (\<lambda>(i, e). (i, Inl e)) fs"
      "e = Join (map (attemptError candidates) fs)" "length fs = length candidates" by auto
    have "receiveResults (map (\<lambda>(x, e). (x, Inl e)) (map (\<lambda>(i, e). (candidates ! i, e)) fs)) [] = Inl e"
      unfolding receiveResults_none
      using fs many by (auto simp: Let_def attemptError_def comp_def case_prod_beta)
    moreover have "rest = []" using fs rest by simp
    ultimately show ?thesis using Inl fs(1) by (simp add: comp_def case_prod_beta)
  qed
  finally show ?thesis .
qed

subsection \<open>The end of the race\<close>

fun attemptRank :: "attempt \<Rightarrow> nat" where
  "attemptRank Delayed = 5"
| "attemptRank Dialling = 4"
| "attemptRank Dialled = 3"
| "attemptRank Checked = 2"
| "attemptRank Reported = 0"

definition raceRank :: "race \<Rightarrow> nat" where
  "raceRank s = sum_list (map attemptRank (ra_attempts s)) + length (ra_chan s) + (if ra_ctxErr s = None then 1 else 0)"

lemma raceStep_rank:
  assumes "raceStep c candidates s s'" and "length (ra_attempts s) = length candidates"
  shows "raceRank s' < raceRank s"
proof -
  have rank: "i < length candidates \<Longrightarrow> sum_list (map attemptRank ((ra_attempts s)[i := a])) + attemptRank (ra_attempts s ! i) =
      sum_list (map attemptRank (ra_attempts s)) + attemptRank a" for i a
    using sum_list_map_update [of i "ra_attempts s" attemptRank a] assms(2) by simp
  from assms(1) show ?thesis
  proof cases
    case (wake i)
    with rank [of i Dialling] show ?thesis by (simp add: raceRank_def)
  next
    case (waitEnds i e)
    with rank [of i Reported] show ?thesis by (simp add: raceRank_def report_def)
  next
    case (dialFails i e)
    with rank [of i Reported] show ?thesis by (simp add: raceRank_def report_def)
  next
    case (dialSucceeds i k)
    with rank [of i Dialled] show ?thesis by (simp add: raceRank_def)
  next
    case (late i e)
    with rank [of i Reported] show ?thesis by (simp add: raceRank_def report_def)
  next
    case (inTime i)
    with rank [of i Checked] show ?thesis by (simp add: raceRank_def)
  next
    case (send i)
    with rank [of i Reported] show ?thesis by (simp add: raceRank_def report_def)
  next
    case (receive errs m rest)
    then show ?thesis by (simp add: raceRank_def cancelled_def split: receiver.split option.split)
  next
    case (parentEnds e)
    then show ?thesis by (simp add: raceRank_def)
  qed
qed

lemma raceInv_progress:
  assumes "raceInv c candidates s" and "ra_main s = Receiving errs"
  shows "\<exists>s'. raceStep c candidates s s'"
proof (cases "\<exists>i < length candidates. ra_attempts s ! i \<noteq> Reported")
  case True
  then obtain i where i: "i < length candidates" "ra_attempts s ! i \<noteq> Reported" by blast
  show ?thesis
  proof (cases "ra_attempts s ! i")
    case Delayed
    with i show ?thesis by (blast intro: raceStep.wake)
  next
    case Dialling
    with i show ?thesis by (cases "dialOf c candidates i") (blast intro: raceStep.dialFails raceStep.dialSucceeds)+
  next
    case Dialled
    with i show ?thesis by (cases "ra_ctxErr s") (blast intro: raceStep.late raceStep.inTime)+
  next
    case Checked
    with i show ?thesis by (blast intro: raceStep.send)
  qed (use i in simp)
next
  case False
  then have all: "fst ` set (ra_log s) = {..<length candidates}" using assms(1) by (auto simp: raceInv_def)
  have "length (map fst (ra_log s)) = card (set (map fst (ra_log s)))"
    using assms(1) by (metis distinct_card raceInv_def)
  with all have "length (ra_log s) = length candidates" by simp
  moreover from assms(1) obtain taken where "ra_log s = taken @ ra_chan s" "takenFits candidates taken (ra_main s)"
    by (rule raceInv_taken)
  ultimately have "ra_chan s \<noteq> []" using assms(2) by auto
  then show ?thesis using raceStep.receive [OF assms(2)] by (cases "ra_chan s") blast+
qed

interpretation race: shrinking_system "raceStep c candidates" "raceInv c candidates" raceRank "\<lambda>s. \<exists>r. ra_main s = Returned r"
proof
  fix s s'
  show "raceStep c candidates s s' \<Longrightarrow> raceInv c candidates s \<Longrightarrow> raceInv c candidates s'" by (rule raceInv_step)
  show "raceStep c candidates s s' \<Longrightarrow> raceInv c candidates s \<Longrightarrow> raceRank s' < raceRank s"
    by (rule raceStep_rank) (simp_all add: raceInv_def)
  show "raceInv c candidates s \<Longrightarrow> \<nexists>r. ra_main s = Returned r \<Longrightarrow> \<exists>s'. raceStep c candidates s s'"
    by (cases "ra_main s") (auto intro: raceInv_progress)
qed

lemma raceInv_run: "raceRun c candidates s s' \<Longrightarrow> raceInv c candidates s \<Longrightarrow> raceInv c candidates s'"
  unfolding raceRun_def by (rule race.inv_run)

lemma raceRun_returns: "raceInv c candidates s \<Longrightarrow> \<exists>s' r. raceRun c candidates s s' \<and> ra_main s' = Returned r"
  using race.finishes [of c candidates s] by (auto simp: raceRun_def)

subsection \<open>A lost connection\<close>

lemma raceRun_both:
  assumes "length candidates = 2" and "dialOf c candidates 0 = Inr k0" and "dialOf c candidates 1 = Inr k1"
  shows "\<exists>s. raceRun c candidates (raceInit candidates) s \<and> ra_main s = Returned (Inr k0) \<and>
    ra_open s = {0, 1} \<and> ra_chan s = [(1, Inr k1)] \<and> (\<forall>s'. \<not> raceStep c candidates s s')"
proof -
  define st where "st a ch lg e op m =
    \<lparr>ra_attempts = a, ra_chan = ch, ra_log = lg, ra_ctxErr = e, ra_open = op, ra_main = m\<rparr>" for a ch lg e op m
  let ?sent = "[(0, Inr k0), (1, Inr k1)]" and ?R = "Receiving []"
  let ?final = "st [Reported, Reported] [(1, Inr k1)] ?sent (Some ErrCanceled) {0, 1} (Returned (Inr k0))"
  have init: "raceInit candidates = st [Delayed, Delayed] [] [] None {} ?R"
    using assms(1) by (simp add: raceInit_def st_def numeral_2_eq_2)
  note steps = raceStep.wake [of 0 candidates "st [Delayed, Delayed] [] [] None {} ?R" c]
    raceStep.wake [of 1 candidates "st [Dialling, Delayed] [] [] None {} ?R" c]
    raceStep.dialSucceeds [of 0 candidates "st [Dialling, Dialling] [] [] None {} ?R" c k0]
    raceStep.dialSucceeds [of 1 candidates "st [Dialled, Dialling] [] [] None {0} ?R" c k1]
    raceStep.inTime [of 0 candidates "st [Dialled, Dialled] [] [] None {0, 1} ?R" c]
    raceStep.inTime [of 1 candidates "st [Checked, Dialled] [] [] None {0, 1} ?R" c]
    raceStep.send [of 0 candidates "st [Checked, Checked] [] [] None {0, 1} ?R" c]
    raceStep.send [of 1 candidates "st [Reported, Checked] [(0, Inr k0)] [(0, Inr k0)] None {0, 1} ?R" c]
    raceStep.receive [of "st [Reported, Reported] ?sent ?sent None {0, 1} ?R" "[]" "(0, Inr k0)" "[(1, Inr k1)]" c candidates]
  have "raceRun c candidates (raceInit candidates) ?final"
    unfolding raceRun_def init using steps assms
    by (simp add: st_def report_def afterReceive_def cancelled_def insert_commute)
  moreover have "\<not> raceStep c candidates ?final s'" for s'
    using assms(1) by (auto elim!: raceStep.cases simp: st_def less_2_cases_iff)
  ultimately show ?thesis by (intro exI [of _ ?final]) (simp add: st_def)
qed

section \<open>Properties\<close>

text \<open>
  C6: the dial of several candidates, with its goroutines and its channel, implements the function
  \<^const>\<open>dialCandidates\<close>. Whatever a run of the race returns, there is a schedule in which every attempt
  reports once and for which the function returns the same; and from every state that the race can reach,
  it can go on to return, after a number of steps that is bounded.
\<close>

theorem dial_race_refines:
  assumes "length candidates \<ge> 2" and "raceRun c candidates (raceInit candidates) s"
  shows "(\<forall>r. ra_main s = Returned r \<longrightarrow>
      (\<exists>sched. complete_schedule sched candidates \<and> dialCandidates c sched candidates = r)) \<and>
    (\<exists>s' r. raceRun c candidates s s' \<and> ra_main s' = Returned r) \<and>
    (\<forall>s'. raceStep c candidates s s' \<longrightarrow> raceRank s' < raceRank s)"
proof -
  have "candidates \<noteq> []" using assms(1) by auto
  from raceInv_run [OF assms(2) raceInv_init [OF this]] have inv: "raceInv c candidates s" .
  then have "length (ra_attempts s) = length candidates" by (simp add: raceInv_def)
  with inv show ?thesis
    using raceInv_refines [OF inv _ assms(1)] scheduleOf_complete [OF inv] raceRun_returns [OF inv] raceStep_rank by blast
qed

text \<open>
  The connections of a dial that fails are all closed, and the connection that a dial returns is open.
\<close>

theorem dial_race_connections:
  assumes "candidates \<noteq> []" and "raceRun c candidates (raceInit candidates) s"
  shows "(\<forall>e. ra_main s = Returned (Inl e) \<longrightarrow> ra_open s = {}) \<and>
    (\<forall>k. ra_main s = Returned (Inr k) \<longrightarrow> (\<exists>i \<in> ra_open s. dialOf c candidates i = Inr k))"
proof -
  from raceInv_run [OF assms(2) raceInv_init [OF assms(1)]] have inv: "raceInv c candidates s" .
  then obtain taken where log: "ra_log s = taken @ ra_chan s" and fits: "takenFits candidates taken (ra_main s)"
    by (rule raceInv_taken)
  have "ra_open s = {}" if "ra_main s = Returned (Inl e)" for e
  proof -
    from that fits obtain fs where fs: "taken = map (\<lambda>(i, e). (i, Inl e)) fs" "length fs = length candidates" by auto
    have "distinct (map fst (ra_log s))" "fst ` set (ra_log s) \<subseteq> {..<length candidates}"
      using inv by (auto simp: raceInv_def)
    then have "length (ra_log s) \<le> length candidates"
      by (metis card_lessThan card_mono distinct_card finite_lessThan length_map list.set_map)
    then have all: "ra_log s = taken" using log fs by simp
    then have "length (map fst (ra_log s)) = length candidates" using fs by simp
    then have "fst ` set (ra_log s) = {..<length candidates}"
      using \<open>distinct (map fst (ra_log s))\<close> \<open>fst ` set (ra_log s) \<subseteq> {..<length candidates}\<close>
      by (metis card_lessThan card_subset_eq distinct_card finite_lessThan list.set_map)
    then have "\<forall>i < length candidates. ra_attempts s ! i = Reported" using inv by (auto simp: raceInv_def)
    then show ?thesis using inv all fs unfolding raceInv_def by auto
  qed
  moreover have "\<exists>i \<in> ra_open s. dialOf c candidates i = Inr k" if "ra_main s = Returned (Inr k)" for k
  proof -
    from that fits obtain fs i where "taken = map (\<lambda>(i, e). (i, Inl e)) fs @ [(i, Inr k)]" by auto
    then have "(i, Inr k) \<in> set (ra_log s)" using log by simp
    then have "i \<in> ra_open s" "possibleResult c candidates (i, Inr k)" using inv unfolding raceInv_def by blast+
    then show ?thesis by (auto simp: possibleResult_def)
  qed
  ultimately show ?thesis by blast
qed

text \<open>
  C37: a connection can be lost. When both of two dials succeed before the first result is received, the race
  can end, with nothing left to run, in a state where the first connection is returned and the second one is
  still open: its result stays on the channel, which nobody reads any more, and nobody closes it.
\<close>

theorem dial_race_leaks:
  assumes "length candidates = 2" and "dialOf c candidates 0 = Inr k0" and "dialOf c candidates 1 = Inr k1"
  shows "\<exists>s. raceRun c candidates (raceInit candidates) s \<and> ra_main s = Returned (Inr k0) \<and>
    ra_open s = {0, 1} \<and> ra_chan s = [(1, Inr k1)] \<and> (\<forall>s'. \<not> raceStep c candidates s s')"
  using assms by (rule raceRun_both)

section \<open>Instances\<close>

definition exampleConn :: conn where
  "exampleConn = connTo (\<lambda>_. [])"

lemma example_race:
  "length examplePair = 2" "dialOf (exampleClient (\<lambda>_ _. Inr exampleConn)) examplePair i = Inr exampleConn"
  by (simp_all add: examplePair_def exampleClient_def dialOf_def)

theorem dial_race_leaks_witness:
  "\<exists>s. raceRun (exampleClient (\<lambda>_ _. Inr exampleConn)) examplePair (raceInit examplePair) s \<and>
     ra_main s = Returned (Inr exampleConn) \<and> ra_open s = {0, 1}"
  using dial_race_leaks [OF example_race(1) example_race(2) example_race(2)] by blast

theorem dial_race_refines_witness:
  "\<exists>sched. complete_schedule sched examplePair \<and>
     dialCandidates (exampleClient (\<lambda>_ _. Inr exampleConn)) sched examplePair = Inr exampleConn"
proof -
  obtain s where "raceRun (exampleClient (\<lambda>_ _. Inr exampleConn)) examplePair (raceInit examplePair) s"
    and "ra_main s = Returned (Inr exampleConn)"
    using raceRun_both [OF example_race(1) example_race(2) example_race(2)] by blast
  with dial_race_refines [of examplePair] show ?thesis by (auto simp: example_race(1))
qed

theorem dial_race_connections_witness:
  "\<exists>s :: race. ra_main s = Returned (Inr exampleConn) \<and> ra_open s \<noteq> {}"
proof -
  obtain s where run: "raceRun (exampleClient (\<lambda>_ _. Inr exampleConn)) examplePair (raceInit examplePair) s"
    and main: "ra_main s = Returned (Inr exampleConn)"
    using raceRun_both [OF example_race(1) example_race(2) example_race(2)] by blast
  have "examplePair \<noteq> []" using example_race(1) by auto
  from dial_race_connections [OF this run] main have "ra_open s \<noteq> {}" by auto
  with main show ?thesis by blast
qed

end
