(* ===== verification/Prepared_Probe.thy ===== *)
theory Prepared_Probe
  imports Client
begin

text \<open>
  The interface \<^verbatim>\<open>preparedProbe\<close> of \<^verbatim>\<open>session.go\<close>, which the session uses and the two editions provide,
  with the sample a probe returns, and the context of a call. The interface is a locale: what a
  provider shows as its label, how an observed sample changes what it shows and nothing else, and the
  least latency it reports.
\<close>

section \<open>Definitions\<close>

record probeSample =
  latency :: int
  remote :: addrPort

text \<open>A context: its \<open>k\<close>-th reading of \<^verbatim>\<open>Err\<close>, and its deadline.\<close>

record goctx =
  ctx_Err :: "nat \<Rightarrow> goerr option"
  ctx_Deadline :: "int option"

text \<open>
  What surrounds one probe: its context, the schedule of its dial, the services of the system, and the
  bytes \<^verbatim>\<open>rand.Read\<close> gives, by the number of clock readings before.
\<close>

record probeEnv =
  env_ctx :: goctx
  env_sched :: dialSchedule
  env_sys :: system
  env_lookupPort :: "string \<Rightarrow> string \<Rightarrow> int result"
  env_random :: "nat \<Rightarrow> byte list result"

text \<open>\<^verbatim>\<open>remoteAddrPort\<close> of \<^verbatim>\<open>java.go\<close>; the services database behind \<^verbatim>\<open>net.LookupPort\<close> is the system's.\<close>

definition remoteAddrPort :: "(string \<Rightarrow> string \<Rightarrow> int result) \<Rightarrow> string option \<Rightarrow> addrPort" where
  "remoteAddrPort lookupPort addr0 =
     (case addr0 of
        None \<Rightarrow> zeroAddrPort
      | Some text \<Rightarrow>
          (case parseAddrPort text of
             Some ap \<Rightarrow> ap
           | None \<Rightarrow>
               (case splitHostPort text of
                  Inl _ \<Rightarrow> zeroAddrPort
                | Inr (host, portText) \<Rightarrow>
                    (case parseAddr host of
                       None \<Rightarrow> zeroAddrPort
                     | Some ip \<Rightarrow>
                         (case ebind (lookupPort ''tcp'' portText) toUint16 of
                            Inl _ \<Rightarrow> zeroAddrPort
                          | Inr port16 \<Rightarrow> addrPortFrom (unmap ip) port16)))))"

section \<open>The interface\<close>

locale prepared_probe =
  fixes banner :: "'p \<Rightarrow> bool \<Rightarrow> string"
    and summaryLabel :: "'p \<Rightarrow> bool \<Rightarrow> string"
    and observeSample :: "'p \<Rightarrow> probeSample \<Rightarrow> 'p"
    and probe :: "'p \<Rightarrow> probeEnv \<Rightarrow> int \<Rightarrow> probeSample result"
    and label :: "'p \<Rightarrow> string"
    and display :: "'p \<Rightarrow> addrPort"
    and least :: int
  assumes summary:
    "summaryLabel p numeric =
       (if numeric \<and> apIsValid (display p) then addrString (ap_addr (display p)) else label p)"
    and observe_display: "display (observeSample p s) = (if apIsValid (remote s) then remote s else display p)"
    and observe_label: "label (observeSample p s) = label p"
    and observe_probe: "probe (observeSample p s) = probe p"
    and probe_latency: "probe p env timeout = Inr s \<Longrightarrow> least \<le> latency s"
    and least_nonneg: "0 \<le> least"
begin

lemma observed_probe: "probe (foldl observeSample p ss) = probe p"
  by (induction ss arbitrary: p) (simp_all add: observe_probe)

lemma observed_label: "label (foldl observeSample p ss) = label p"
  by (induction ss arbitrary: p) (simp_all add: observe_label)

text \<open>Without \<^verbatim>\<open>-n\<close> the summary names the destination, whatever samples were observed.\<close>

lemma observed_summary_text: "summaryLabel (foldl observeSample p ss) False = label p"
  by (simp add: summary observed_label)

lemma observed_display:
  "display (foldl observeSample p ss) = last (display p # filter apIsValid (map remote ss))"
  by (induction ss arbitrary: p) (simp_all add: observe_display)

text \<open>With \<^verbatim>\<open>-n\<close> the summary names the address of the last reply that had one.\<close>

lemma observed_summary_numeric:
  "summaryLabel (foldl observeSample p ss) True =
     (let d = last (display p # filter apIsValid (map remote ss)) in
      if apIsValid d then addrString (ap_addr d) else label p)"
  by (simp add: summary observed_label observed_display Let_def)

lemma latency_nonneg: "probe p env timeout = Inr s \<Longrightarrow> 0 \<le> latency s"
  using probe_latency least_nonneg by fastforce

end

section \<open>Lemmas\<close>

lemma digitVal_bracket: "digitVal CHR ''['' = None"
  by code_simp

lemma parsePort16_natText: "parsePort16 (natText (uint (p :: u16))) = Some p"
  using uint_lt2p [of p] by (simp add: parsePort16_def)

lemma parseAddrPort_ipv4:
  "parseAddrPort (addrPortString (addrPortFrom (Addr4 v) p)) = Some (addrPortFrom (Addr4 v) p)"
proof -
  let ?t = "natText (uint p)"
  have port: "CHR '':'' \<notin> set ?t"
    using natText_digits [of "uint p"] by (metis digitVal_separators(2) unsigned_greater_eq)
  have "CHR ''['' \<notin> set (natText (octet i v))" for i
    using natText_digits [of "octet i v"] octet_bounds [of i v] by (metis digitVal_bracket)
  then have "hd (ipv4Text v) \<noteq> CHR ''[''"
    by (metis append_is_Nil_conv hd_append hd_in_set ipv4Text_def natText_not_Nil)
  moreover have "ipv4Text v \<noteq> []" by (simp add: ipv4Text_def)
  ultimately show ?thesis
    using lastIndexByte_append_sep [OF port, of "ipv4Text v"]
    by (simp add: parseAddrPort_def addrPortString_def addrPortFrom_def Let_def parsePort16_natText parseAddr_ipv4Text)
qed

section \<open>Instances\<close>

definition exampleOptions :: pingOptions where
  "exampleOptions = \<lparr>addressFamily_of = addressFamilyAny, allowPrivateAddresses = False\<rparr>"

text \<open>No permitted address is shown as the loopback address.\<close>

lemma example_not_loopback:
  assumes "permitted exampleOptions x"
  shows "cand_String x \<noteq> ''127.0.0.1:25570''"
proof
  assume "cand_String x = ''127.0.0.1:25570''"
  then have shown: "addrPortString (cand_address x) = ''127.0.0.1:25570''" by (simp add: cand_String_def)
  obtain a p where x: "cand_address x = addrPortFrom a p"
    by (metis addrPort.surjective addrPortFrom_def old.unit.exhaust)
  show False
  proof (cases a)
    case (Addr4 v)
    have "parseAddrPort ''127.0.0.1:25570'' = Some (addrPortFrom (Addr4 0x7F000001) 25570)" by code_simp
    then have "addrPortFrom (Addr4 v) p = addrPortFrom (Addr4 0x7F000001) 25570"
      using parseAddrPort_ipv4 [of v p] shown unfolding x Addr4 by (metis option.inject)
    then have "v = 0x7F000001" by (simp add: addrPortFrom_def)
    moreover have "isNonPublicAddr (Addr4 0x7F000001)" by code_simp
    ultimately show False
      using assms by (simp add: permitted_def dialable_def exampleOptions_def x Addr4 addrPortFrom_def)
  qed (use shown in \<open>simp_all add: x addrPortFrom_def addrPortString_def\<close>)
qed

definition exampleLoopbackDial :: dialContextFunc where
  "exampleLoopbackDial n a = (if a = ''127.0.0.1:25570'' then Inr (connTo (\<lambda>_. [])) else Inl EOF)"

end
