(* ===== verification/Session.thy ===== *)
theory Session
  imports Prepared_Probe
begin

text \<open>
  \<^verbatim>\<open>session.go\<close>: the loop of text probes, its statistics, its output and its exit code. A \<^verbatim>\<open>float64\<close> is a real
  number, and \<open>rnd\<close> is the rounding after every operation on it; the theorems on the statistics say for
  which \<open>rnd\<close> they hold. Times are nanoseconds since the Unix epoch.
\<close>

section \<open>Definitions\<close>

subsection \<open>The configuration\<close>

text \<open>\<^verbatim>\<open>cliConfig\<close> of \<^verbatim>\<open>cli.go\<close>, which the session reads.\<close>

record cliConfig =
  Target :: targetSpec
  Edition :: edition
  Options :: pingOptions
  Count :: int
  Interval :: int
  Deadline :: int
  Timeout :: int
  Quiet :: bool
  Timestamp :: bool
  Numeric :: bool
  JSON :: bool
  ShowHelp :: bool
  ShowVersion :: bool

subsection \<open>Numbers as text\<close>

text \<open>The verbs \<^verbatim>\<open>%06d\<close> and \<^verbatim>\<open>%.3f\<close>: padding with zeros, and rounding half to even on the exact value.\<close>

definition padZeros :: "nat \<Rightarrow> string \<Rightarrow> string" where
  "padZeros n s = replicate (n - length s) CHR ''0'' @ s"

definition roundHalfEven :: "real \<Rightarrow> int" where
  "roundHalfEven x =
     (let f = \<lfloor>x\<rfloor> in
      if x - of_int f < 1 / 2 then f
      else if x - of_int f > 1 / 2 then f + 1
      else if even f then f else f + 1)"

definition fixedText :: "nat \<Rightarrow> real \<Rightarrow> string" where
  "fixedText n x =
     (let k = roundHalfEven (\<bar>x\<bar> * 10 ^ n) in
      (if x < 0 then ''-'' else '''') @ natText (k div 10 ^ n) @
      (if n = 0 then '''' else ''.'' @ padZeros n (natText (k mod 10 ^ n))))"

subsection \<open>Statistics\<close>

record rttStats =
  rtt_count :: int
  rtt_min :: real
  rtt_max :: real
  rtt_mean :: real
  rtt_m2 :: real

definition zeroRttStats :: rttStats where
  "zeroRttStats = \<lparr>rtt_count = 0, rtt_min = 0, rtt_max = 0, rtt_mean = 0, rtt_m2 = 0\<rparr>"

text \<open>\<^verbatim>\<open>float64(d) / float64(time.Millisecond)\<close>.\<close>

definition durationMs :: "(real \<Rightarrow> real) \<Rightarrow> int \<Rightarrow> real" where
  "durationMs rnd d = rnd (rnd (of_int d) / 1000000)"

definition rtt_add :: "(real \<Rightarrow> real) \<Rightarrow> rttStats \<Rightarrow> int \<Rightarrow> rttStats" where
  "rtt_add rnd s d =
     (let ms = durationMs rnd d;
          s1 = s\<lparr>rtt_count := rtt_count s + 1\<rparr>
      in if rtt_count s1 = 1 then s1\<lparr>rtt_min := ms, rtt_max := ms, rtt_mean := ms\<rparr>
         else
           (let s2 = (if ms < rtt_min s1 then s1\<lparr>rtt_min := ms\<rparr> else s1);
                s3 = (if ms > rtt_max s2 then s2\<lparr>rtt_max := ms\<rparr> else s2);
                delta = rnd (ms - rtt_mean s3);
                s4 = s3\<lparr>rtt_mean := rnd (rtt_mean s3 + rnd (delta / rnd (of_int (rtt_count s3))))\<rparr>
            in s4\<lparr>rtt_m2 := rnd (rtt_m2 s4 + rnd (delta * rnd (ms - rtt_mean s4)))\<rparr>))"

definition rtt_mdev :: "(real \<Rightarrow> real) \<Rightarrow> rttStats \<Rightarrow> real" where
  "rtt_mdev rnd s =
     (if rtt_count s = 0 then 0 else rnd (sqrt (rnd (rtt_m2 s / rnd (of_int (rtt_count s))))))"

definition packetLossPercent :: "(real \<Rightarrow> real) \<Rightarrow> int \<Rightarrow> int \<Rightarrow> real" where
  "packetLossPercent rnd transmitted received =
     (if transmitted = 0 then 0
      else (let lost = transmitted - received in rnd (rnd (rnd (of_int lost) * 100) / rnd (of_int transmitted))))"

subsection \<open>The session\<close>

text \<open>The operations of the interface \<^verbatim>\<open>preparedProbe\<close>, as a value.\<close>

record 'p probeOps =
  op_banner :: "'p \<Rightarrow> bool \<Rightarrow> string"
  op_summaryLabel :: "'p \<Rightarrow> bool \<Rightarrow> string"
  op_observe :: "'p \<Rightarrow> probeSample \<Rightarrow> 'p"
  op_probe :: "'p \<Rightarrow> probeEnv \<Rightarrow> int \<Rightarrow> probeSample result"

text \<open>
  The runtime: the \<open>k\<close>-th reading of the clock, and the sleep of the \<open>i\<close>-th round with its duration, which
  ends with the error of the context when that ends first.
\<close>

type_synonym sleepFunc = "nat \<Rightarrow> int \<Rightarrow> goerr option"

record sessionRuntime =
  rt_now :: "(nat \<Rightarrow> int) option"
  rt_sleep :: "sleepFunc option"

text \<open>What the process sees: the clock, and the error of the context during the \<open>i\<close>-th sleep.\<close>

record sessionSystem =
  sy_now :: "nat \<Rightarrow> int"
  sy_ctxDone :: "nat \<Rightarrow> goerr option"

definition defaultSessionRuntime :: "sessionSystem \<Rightarrow> sessionRuntime" where
  "defaultSessionRuntime sys =
     \<lparr>rt_now = Some (sy_now sys), rt_sleep = Some (\<lambda>i d. if d \<le> 0 then None else sy_ctxDone sys i)\<rparr>"

definition rt_withDefaults :: "sessionSystem \<Rightarrow> sessionRuntime \<Rightarrow> sessionRuntime" where
  "rt_withDefaults sys rt =
     (let defaults = defaultSessionRuntime sys in
      \<lparr>rt_now = (if rt_now rt = None then rt_now defaults else rt_now rt),
       rt_sleep = (if rt_sleep rt = None then rt_sleep defaults else rt_sleep rt)\<rparr>)"

text \<open>What the rounds meet: the surroundings of the \<open>i\<close>-th probe, and the context after it.\<close>

record sessionEnv =
  se_probe :: "nat \<Rightarrow> probeEnv"
  se_ctxErr :: "nat \<Rightarrow> goerr option"

record sessionStats =
  transmitted :: int
  received :: int
  st_start :: int
  st_end :: int
  st_rtt :: rttStats

text \<open>The variables of \<^verbatim>\<open>runTextSession\<close>: the probe, the statistics, the sequence number, the readings of the
  clock so far and the text written.\<close>

record 'p sessionState =
  sn_probe :: 'p
  sn_stats :: sessionStats
  sn_seq :: int
  sn_reads :: nat
  sn_out :: string

text \<open>\<^verbatim>\<open>Milliseconds\<close> of a duration: the quotient is cut towards zero.\<close>

definition milliseconds :: "int \<Rightarrow> int" where
  "milliseconds d = (if d < 0 then - (- d div 1000000) else d div 1000000)"

definition newline :: string where
  "newline = [CHR 0x0A]"

definition stampText :: "int \<Rightarrow> string" where
  "stampText t = ''['' @ itoa (t div 1000000000) @ ''.'' @ padZeros 6 (natText (t mod 1000000000 div 1000)) @ ''] ''"

definition writeSessionLine :: "(nat \<Rightarrow> int) \<Rightarrow> bool \<Rightarrow> string \<Rightarrow> 'p sessionState \<Rightarrow> 'p sessionState" where
  "writeSessionLine now withTimestamp line st =
     (if withTimestamp then
        st\<lparr>sn_out := sn_out st @ stampText (now (sn_reads st)) @ line @ newline, sn_reads := sn_reads st + 1\<rparr>
      else st\<lparr>sn_out := sn_out st @ line @ newline\<rparr>)"

definition formatAddrPort :: "addrPort \<Rightarrow> string" where
  "formatAddrPort a = (if \<not> apIsValid a then ''unknown'' else addrPortString a)"

text \<open>The reply of a successful probe: observed, counted and, unless quiet, written.\<close>

definition recordReply ::
  "(real \<Rightarrow> real) \<Rightarrow> 'p probeOps \<Rightarrow> cliConfig \<Rightarrow> (nat \<Rightarrow> int) \<Rightarrow> probeSample \<Rightarrow> 'p sessionState \<Rightarrow> 'p sessionState" where
  "recordReply rnd ops cfg now sample st =
     (let stats = sn_stats st;
          st1 = st\<lparr>sn_probe := op_observe ops (sn_probe st) sample,
                   sn_stats := stats\<lparr>received := received stats + 1, st_rtt := rtt_add rnd (st_rtt stats) (latency sample)\<rparr>\<rparr>
      in if Quiet cfg then st1
         else
           writeSessionLine now (Timestamp cfg)
             (''pong from '' @ formatAddrPort (remote sample) @ '': seq='' @ itoa (sn_seq st1) @ '' time='' @
              fixedText 3 (durationMs rnd (latency sample)) @ '' ms'') st1)"

definition tick :: "'p sessionState \<Rightarrow> 'p sessionState" where
  "tick st = st\<lparr>sn_reads := sn_reads st + 1\<rparr>"

definition countReached :: "cliConfig \<Rightarrow> 'p sessionState \<Rightarrow> bool" where
  "countReached cfg st \<longleftrightarrow> Count cfg > 0 \<and> transmitted (sn_stats st) \<ge> Count cfg"

text \<open>The probe of a round, with its timeout.\<close>

definition sessionSend ::
  "(real \<Rightarrow> real) \<Rightarrow> 'p probeOps \<Rightarrow> cliConfig \<Rightarrow> (nat \<Rightarrow> int) \<Rightarrow> probeEnv \<Rightarrow> int \<Rightarrow> 'p sessionState \<Rightarrow> 'p sessionState" where
  "sessionSend rnd ops cfg now penv timeout st =
     (let stats = sn_stats st;
          st1 = st\<lparr>sn_stats := stats\<lparr>transmitted := transmitted stats + 1\<rparr>\<rparr>;
          st2 = (case op_probe ops (sn_probe st1) penv timeout of
                   Inr sample \<Rightarrow> recordReply rnd ops cfg now sample st1
                 | Inl _ \<Rightarrow> st1)
      in st2\<lparr>sn_seq := sn_seq st2 + 1\<rparr>)"

text \<open>
  The checks after the probe and the sleep; the clock was read at \<open>probeStart\<close>. The result says whether the
  loop goes on.
\<close>

definition sessionPause ::
  "cliConfig \<Rightarrow> (nat \<Rightarrow> int) \<Rightarrow> sleepFunc \<Rightarrow> goerr option \<Rightarrow> int option \<Rightarrow> nat \<Rightarrow> int \<Rightarrow> 'p sessionState \<Rightarrow>
     bool \<times> 'p sessionState" where
  "sessionPause cfg now sleep ctxErr deadlineAt i probeStart st =
     (if ctxErr \<noteq> None then (False, st)
      else if countReached cfg st then (False, st)
      else
        (let hit = (case deadlineAt of Some d \<Rightarrow> \<not> now (sn_reads st) < d | None \<Rightarrow> False);
             st1 = (if deadlineAt = None then st else tick st)
         in if hit then (False, st1)
            else
              (let sleepFor = max (Interval cfg - (now (sn_reads st1) - probeStart)) 0 in
               (sleep i sleepFor = None, tick st1))))"

definition sessionProbe ::
  "(real \<Rightarrow> real) \<Rightarrow> 'p probeOps \<Rightarrow> cliConfig \<Rightarrow> (nat \<Rightarrow> int) \<Rightarrow> sleepFunc \<Rightarrow> sessionEnv \<Rightarrow> int option \<Rightarrow>
     nat \<Rightarrow> int \<Rightarrow> int \<Rightarrow> 'p sessionState \<Rightarrow> bool \<times> 'p sessionState" where
  "sessionProbe rnd ops cfg now sleep env deadlineAt i probeStart timeout st =
     sessionPause cfg now sleep (se_ctxErr env i) deadlineAt i probeStart
       (sessionSend rnd ops cfg now (se_probe env i) timeout st)"

text \<open>One round: the checks before the probe, the reading of its start, and the timeout that is left.\<close>

definition sessionRound ::
  "(real \<Rightarrow> real) \<Rightarrow> 'p probeOps \<Rightarrow> cliConfig \<Rightarrow> (nat \<Rightarrow> int) \<Rightarrow> sleepFunc \<Rightarrow> sessionEnv \<Rightarrow> int option \<Rightarrow>
     nat \<Rightarrow> 'p sessionState \<Rightarrow> bool \<times> 'p sessionState" where
  "sessionRound rnd ops cfg now sleep env deadlineAt i st =
     (if countReached cfg st then (False, st)
      else
        (case deadlineAt of
           None \<Rightarrow>
             sessionProbe rnd ops cfg now sleep env deadlineAt i (now (sn_reads st)) (Timeout cfg) (tick st)
         | Some d \<Rightarrow>
             if \<not> now (sn_reads st) < d then (False, tick st)
             else
               (let st1 = tick st;
                    probeStart = now (sn_reads st1);
                    st2 = tick st1;
                    remaining = d - now (sn_reads st2);
                    st3 = tick st2
                in if remaining \<le> 0 then (False, st3)
                   else
                     sessionProbe rnd ops cfg now sleep env deadlineAt i probeStart
                       (if remaining < Timeout cfg then remaining else Timeout cfg) st3)))"

text \<open>The loop, with the number of rounds it may take; no result means that it is still running.\<close>

fun sessionLoop ::
  "(real \<Rightarrow> real) \<Rightarrow> 'p probeOps \<Rightarrow> cliConfig \<Rightarrow> (nat \<Rightarrow> int) \<Rightarrow> sleepFunc \<Rightarrow> sessionEnv \<Rightarrow> int option \<Rightarrow>
     nat \<Rightarrow> nat \<Rightarrow> 'p sessionState \<Rightarrow> 'p sessionState option" where
  "sessionLoop rnd ops cfg now sleep env deadlineAt 0 i st = None"
| "sessionLoop rnd ops cfg now sleep env deadlineAt (Suc fuel) i st =
     (case sessionRound rnd ops cfg now sleep env deadlineAt i st of
        (True, st') \<Rightarrow> sessionLoop rnd ops cfg now sleep env deadlineAt fuel (i + 1) st'
      | (False, st') \<Rightarrow> Some st')"

definition sessionInit :: "'p probeOps \<Rightarrow> cliConfig \<Rightarrow> (nat \<Rightarrow> int) \<Rightarrow> 'p \<Rightarrow> 'p sessionState" where
  "sessionInit ops cfg now p =
     writeSessionLine now False (op_banner ops p (Numeric cfg))
       \<lparr>sn_probe = p,
        sn_stats = \<lparr>transmitted = 0, received = 0, st_start = now 0, st_end = 0, st_rtt = zeroRttStats\<rparr>,
        sn_seq = 1, sn_reads = 1, sn_out = ''''\<rparr>"

definition sessionSummary :: "(real \<Rightarrow> real) \<Rightarrow> 'p probeOps \<Rightarrow> cliConfig \<Rightarrow> (nat \<Rightarrow> int) \<Rightarrow> 'p sessionState \<Rightarrow> 'p sessionState" where
  "sessionSummary rnd ops cfg now st =
     (let stats = (sn_stats st)\<lparr>st_end := now (sn_reads st)\<rparr>;
          st1 = (tick st)\<lparr>sn_stats := stats, sn_out := sn_out st @ newline\<rparr>;
          st2 = writeSessionLine now False (''--- '' @ op_summaryLabel ops (sn_probe st1) (Numeric cfg) @ '' ping statistics ---'') st1;
          st3 = writeSessionLine now False
            (itoa (transmitted stats) @ '' probes transmitted, '' @ itoa (received stats) @ '' received, '' @
             fixedText 0 (packetLossPercent rnd (transmitted stats) (received stats)) @ ''% packet loss, time '' @
             itoa (milliseconds (st_end stats - st_start stats)) @ ''ms'') st2
      in if rtt_count (st_rtt stats) > 0 then
           writeSessionLine now False
             (''rtt min/avg/max/mdev = '' @ fixedText 3 (rtt_min (st_rtt stats)) @ ''/'' @ fixedText 3 (rtt_mean (st_rtt stats)) @ ''/'' @
              fixedText 3 (rtt_max (st_rtt stats)) @ ''/'' @ fixedText 3 (rtt_mdev rnd (st_rtt stats)) @ '' ms'') st3
         else st3)"

definition sessionExit :: "cliConfig \<Rightarrow> sessionStats \<Rightarrow> int" where
  "sessionExit cfg stats =
     (if Count cfg > 0 \<and> Deadline cfg > 0 \<and> received stats < Count cfg then 1
      else if received stats = 0 then 1
      else 0)"

text \<open>The whole session: the text it writes and its exit code, or nothing while it runs.\<close>

definition runTextSession ::
  "(real \<Rightarrow> real) \<Rightarrow> sessionSystem \<Rightarrow> 'p probeOps \<Rightarrow> sessionEnv \<Rightarrow> nat \<Rightarrow> cliConfig \<Rightarrow> 'p \<Rightarrow> sessionRuntime \<Rightarrow> (string \<times> int) option" where
  "runTextSession rnd sys ops env fuel cfg p rt0 =
     (let rt = rt_withDefaults sys rt0;
          now = the (rt_now rt);
          st0 = sessionInit ops cfg now p;
          deadlineAt = (if Deadline cfg > 0 then Some (st_start (sn_stats st0) + Deadline cfg) else None)
      in case sessionLoop rnd ops cfg now (the (rt_sleep rt)) env deadlineAt fuel 0 st0 of
           None \<Rightarrow> None
         | Some st \<Rightarrow>
             (let done = sessionSummary rnd ops cfg now st in
              Some (sn_out done, sessionExit cfg (sn_stats done))))"

section \<open>Lemmas\<close>

subsection \<open>What a round changes\<close>

lemma writeSessionLine_sel [simp]:
  "sn_probe (writeSessionLine now w line st) = sn_probe st" "sn_stats (writeSessionLine now w line st) = sn_stats st"
  "sn_seq (writeSessionLine now w line st) = sn_seq st" "sn_reads st \<le> sn_reads (writeSessionLine now w line st)"
  by (simp_all add: writeSessionLine_def)

lemma tick_sel [simp]:
  "sn_probe (tick st) = sn_probe st" "sn_stats (tick st) = sn_stats st" "sn_seq (tick st) = sn_seq st"
  "sn_out (tick st) = sn_out st" "sn_reads (tick st) = sn_reads st + 1"
  by (simp_all add: tick_def)

lemma recordReply_sel:
  "sn_probe (recordReply rnd ops cfg now sample st) = op_observe ops (sn_probe st) sample"
  "sn_stats (recordReply rnd ops cfg now sample st) =
     (sn_stats st)\<lparr>received := received (sn_stats st) + 1, st_rtt := rtt_add rnd (st_rtt (sn_stats st)) (latency sample)\<rparr>"
  "sn_seq (recordReply rnd ops cfg now sample st) = sn_seq st"
  "sn_reads st \<le> sn_reads (recordReply rnd ops cfg now sample st)"
  unfolding recordReply_def Let_def by (simp_all add: order_trans [OF _ writeSessionLine_sel(4)])

text \<open>The statistics after a probe with result \<open>r\<close>.\<close>

definition countProbe :: "(real \<Rightarrow> real) \<Rightarrow> probeSample result \<Rightarrow> sessionStats \<Rightarrow> sessionStats" where
  "countProbe rnd r stats =
     (case r of
        Inl _ \<Rightarrow> stats\<lparr>transmitted := transmitted stats + 1\<rparr>
      | Inr s \<Rightarrow> stats\<lparr>transmitted := transmitted stats + 1, received := received stats + 1,
                        st_rtt := rtt_add rnd (st_rtt stats) (latency s)\<rparr>)"

lemma sessionSend_sel:
  "sn_stats (sessionSend rnd ops cfg now penv t st) = countProbe rnd (op_probe ops (sn_probe st) penv t) (sn_stats st)"
  "sn_probe (sessionSend rnd ops cfg now penv t st) =
     (case op_probe ops (sn_probe st) penv t of Inl _ \<Rightarrow> sn_probe st | Inr s \<Rightarrow> op_observe ops (sn_probe st) s)"
  "sn_seq (sessionSend rnd ops cfg now penv t st) = sn_seq st + 1"
  "sn_reads st \<le> sn_reads (sessionSend rnd ops cfg now penv t st)"
  using recordReply_sel(4) [of "st\<lparr>sn_stats := (sn_stats st)\<lparr>transmitted := transmitted (sn_stats st) + 1\<rparr>\<rparr>" rnd ops cfg now]
  by (simp_all add: sessionSend_def Let_def countProbe_def recordReply_sel split: sum.split)

lemma sessionPause_cases:
  obtains n where "snd (sessionPause cfg now sleep ctxErr deadlineAt i start st) = st\<lparr>sn_reads := n\<rparr>" "sn_reads st \<le> n"
    "fst (sessionPause cfg now sleep ctxErr deadlineAt i start st) \<Longrightarrow> ctxErr = None \<and> \<not> countReached cfg st"
proof -
  have "\<exists>n. snd (sessionPause cfg now sleep ctxErr deadlineAt i start st) = st\<lparr>sn_reads := n\<rparr> \<and> sn_reads st \<le> n"
    by (cases deadlineAt) (auto simp: sessionPause_def Let_def tick_def intro: exI [of _ "sn_reads st"])
  moreover have "fst (sessionPause cfg now sleep ctxErr deadlineAt i start st) \<Longrightarrow> ctxErr = None \<and> \<not> countReached cfg st"
    by (auto simp: sessionPause_def split: if_splits)
  ultimately show thesis using that by blast
qed

lemma countReached_reads [simp]: "countReached cfg (st\<lparr>sn_reads := n\<rparr>) = countReached cfg st"
  by (simp add: countReached_def)

lemma sessionProbe_eq:
  "\<exists>go m. sessionProbe rnd ops cfg now sleep env deadlineAt i start t st =
      (go, (sessionSend rnd ops cfg now (se_probe env i) t st)\<lparr>sn_reads := m\<rparr>) \<and> sn_reads st \<le> m \<and>
    (go \<longrightarrow> se_ctxErr env i = None \<and> \<not> countReached cfg (sessionSend rnd ops cfg now (se_probe env i) t st))"
proof -
  let ?s = "sessionSend rnd ops cfg now (se_probe env i) t st"
  let ?r = "sessionPause cfg now sleep (se_ctxErr env i) deadlineAt i start ?s"
  obtain m where m: "snd ?r = ?s\<lparr>sn_reads := m\<rparr>" "sn_reads ?s \<le> m" "fst ?r \<Longrightarrow> se_ctxErr env i = None \<and> \<not> countReached cfg ?s"
    by (rule sessionPause_cases) blast
  moreover have "?r = (fst ?r, ?s\<lparr>sn_reads := m\<rparr>)" using m(1) by (metis prod.collapse)
  ultimately show ?thesis
    using sessionSend_sel(4) [of st rnd ops cfg now "se_probe env i" t]
    by (intro exI [of _ "fst ?r"] exI [of _ m]) (simp add: sessionProbe_def)
qed

text \<open>
  A round either stops before its probe, or sends one with a timeout of at most the configured one and the
  time that is left.
\<close>

lemma sessionRound_cases:
  obtains (stop) n where "sessionRound rnd ops cfg now sleep env deadlineAt i st = (False, st\<lparr>sn_reads := n\<rparr>)"
  | (send) n m t go st' where
      "sessionRound rnd ops cfg now sleep env deadlineAt i st = (go, st')"
      "st' = (sessionSend rnd ops cfg now (se_probe env i) t (st\<lparr>sn_reads := n\<rparr>))\<lparr>sn_reads := m\<rparr>"
      "sn_reads st < n" "n \<le> m" "\<not> countReached cfg st" "t \<le> Timeout cfg" "deadlineAt = None \<Longrightarrow> t = Timeout cfg"
      "\<And>d. deadlineAt = Some d \<Longrightarrow> now (sn_reads st) < d \<and> t = min (Timeout cfg) (d - now (n - 1)) \<and> now (n - 1) < d"
      "go \<Longrightarrow> se_ctxErr env i = None \<and> \<not> countReached cfg st'"
proof (cases "countReached cfg st")
  case True
  then have "sessionRound rnd ops cfg now sleep env deadlineAt i st = (False, st\<lparr>sn_reads := sn_reads st\<rparr>)"
    by (simp add: sessionRound_def)
  then show thesis by (rule stop)
next
  case False
  show thesis
  proof (cases deadlineAt)
    case None
    obtain go m where "sessionProbe rnd ops cfg now sleep env None i (now (sn_reads st)) (Timeout cfg)
        (st\<lparr>sn_reads := sn_reads st + 1\<rparr>) =
          (go, (sessionSend rnd ops cfg now (se_probe env i) (Timeout cfg) (st\<lparr>sn_reads := sn_reads st + 1\<rparr>))\<lparr>sn_reads := m\<rparr>)"
      and "sn_reads st + 1 \<le> m" and "go \<Longrightarrow> se_ctxErr env i = None \<and>
        \<not> countReached cfg (sessionSend rnd ops cfg now (se_probe env i) (Timeout cfg) (st\<lparr>sn_reads := sn_reads st + 1\<rparr>))"
      using sessionProbe_eq [of rnd ops cfg now sleep env None i "now (sn_reads st)" "Timeout cfg" "st\<lparr>sn_reads := sn_reads st + 1\<rparr>"]
      by auto
    with None False show thesis
      by (intro send [where go = go and m = m and n = "sn_reads st + 1" and t = "Timeout cfg", OF _ refl])
        (simp_all add: sessionRound_def tick_def)
  next
    case (Some d)
    let ?n = "sn_reads st + 3"
    let ?left = "d - now (sn_reads st + 2)"
    show thesis
    proof (cases "now (sn_reads st) < d \<and> 0 < ?left")
      case True
      define t where "t = (if ?left < Timeout cfg then ?left else Timeout cfg)"
      have t: "t \<le> Timeout cfg" "t = min (Timeout cfg) ?left" using True by (auto simp: t_def)
      have round: "sessionRound rnd ops cfg now sleep env deadlineAt i st =
          sessionProbe rnd ops cfg now sleep env deadlineAt i (now (sn_reads st + 1)) t (st\<lparr>sn_reads := ?n\<rparr>)"
        using True False Some by (simp add: sessionRound_def tick_def numeral_3_eq_3 numeral_2_eq_2 Let_def t_def)
      obtain go m where "sessionRound rnd ops cfg now sleep env deadlineAt i st =
            (go, (sessionSend rnd ops cfg now (se_probe env i) t (st\<lparr>sn_reads := ?n\<rparr>))\<lparr>sn_reads := m\<rparr>)"
        and "?n \<le> m" and "go \<Longrightarrow> se_ctxErr env i = None \<and>
          \<not> countReached cfg (sessionSend rnd ops cfg now (se_probe env i) t (st\<lparr>sn_reads := ?n\<rparr>))"
        unfolding round
        using sessionProbe_eq [of rnd ops cfg now sleep env deadlineAt i "now (sn_reads st + 1)" t "st\<lparr>sn_reads := ?n\<rparr>"]
        by auto
      with Some True False t show thesis
        by (intro send [where go = go and m = m and n = ?n and t = t, OF _ refl]) simp_all
    next
      case no: False
      show thesis
      proof (cases "now (sn_reads st) < d")
        case True
        with no Some False have "sessionRound rnd ops cfg now sleep env deadlineAt i st = (False, st\<lparr>sn_reads := ?n\<rparr>)"
          by (simp add: sessionRound_def tick_def numeral_3_eq_3 numeral_2_eq_2 Let_def)
        then show thesis by (rule stop)
      next
        case late: False
        with Some False have "sessionRound rnd ops cfg now sleep env deadlineAt i st = (False, st\<lparr>sn_reads := sn_reads st + 1\<rparr>)"
          by (simp add: sessionRound_def tick_def)
        then show thesis by (rule stop)
      qed
    qed
  qed
qed

subsection \<open>The invariant of the loop\<close>

text \<open>
  The statistics stand for the latencies \<open>lats\<close> of the replies, in their order; every probe counts, and no
  more probes than asked for are sent.
\<close>

definition sessionInv :: "(real \<Rightarrow> real) \<Rightarrow> cliConfig \<Rightarrow> int list \<Rightarrow> 'p sessionState \<Rightarrow> bool" where
  "sessionInv rnd cfg lats st \<longleftrightarrow>
     received (sn_stats st) = int (length lats) \<and> received (sn_stats st) \<le> transmitted (sn_stats st) \<and>
     (Count cfg > 0 \<longrightarrow> transmitted (sn_stats st) \<le> Count cfg) \<and>
     sn_seq st = transmitted (sn_stats st) + 1 \<and>
     st_rtt (sn_stats st) = foldl (rtt_add rnd) zeroRttStats lats"

lemma sessionInv_init: "sessionInv rnd cfg [] (sessionInit ops cfg now p)"
  by (simp add: sessionInv_def sessionInit_def)

lemma sessionInv_reads [simp]: "sessionInv rnd cfg lats (st\<lparr>sn_reads := n\<rparr>) = sessionInv rnd cfg lats st"
  by (simp add: sessionInv_def)

lemma sessionInv_send:
  assumes "sessionInv rnd cfg lats st" and "\<not> countReached cfg st"
  shows "sessionInv rnd cfg (lats @ (case op_probe ops (sn_probe st) penv t of Inl _ \<Rightarrow> [] | Inr s \<Rightarrow> [latency s]))
    (sessionSend rnd ops cfg now penv t st)"
  using assms by (auto simp: sessionInv_def sessionSend_sel countProbe_def countReached_def split: sum.split)

lemma sessionLoop_inv:
  assumes "sessionLoop rnd ops cfg now sleep env deadlineAt fuel i st = Some st'" and "sessionInv rnd cfg lats st"
  shows "\<exists>lats'. sessionInv rnd cfg lats' st'"
  using assms
proof (induction fuel arbitrary: i st lats)
  case (Suc fuel)
  show ?case
  proof (cases rule: sessionRound_cases [of rnd ops cfg now sleep env deadlineAt i st])
    case (stop n)
    with Suc.prems show ?thesis by auto
  next
    case (send n m t go st1)
    from sessionInv_send [of rnd cfg lats "st\<lparr>sn_reads := n\<rparr>"] Suc.prems(2) send
    obtain lats1 where "sessionInv rnd cfg lats1 st1" by fastforce
    with Suc.IH [of "i + 1" st1 lats1] Suc.prems(1) send(1) show ?thesis
      by (cases go) auto
  qed
qed simp

subsection \<open>The probes of a session and their replies\<close>

text \<open>
  What the probes of a session answer: the \<open>i\<close>-th one runs in the \<open>i\<close>-th surroundings with the \<open>i\<close>-th of the
  timeouts, and the probe observes a reply before it is asked again. The replies are the results that are no errors.
\<close>

fun probeResults :: "'p probeOps \<Rightarrow> (nat \<Rightarrow> probeEnv) \<Rightarrow> nat \<Rightarrow> int list \<Rightarrow> 'p \<Rightarrow> probeSample result list" where
  "probeResults ops penv i [] p = []"
| "probeResults ops penv i (t # ts) p =
     op_probe ops p (penv i) t #
     probeResults ops penv (i + 1) ts (case op_probe ops p (penv i) t of Inl _ \<Rightarrow> p | Inr s \<Rightarrow> op_observe ops p s)"

definition replies :: "probeSample result list \<Rightarrow> probeSample list" where
  "replies rs = map projr (filter (\<lambda>r. \<not> isl r) rs)"

lemma replies_simps [simp]:
  "replies [] = []" "replies (Inl e # rs) = replies rs" "replies (Inr s # rs) = s # replies rs"
  by (simp_all add: replies_def)

lemma length_probeResults [simp]: "length (probeResults ops penv i ts p) = length ts"
  by (induction ts arbitrary: i p) simp_all

text \<open>The statistics of a list of results, on top of earlier ones.\<close>

lemma foldl_countProbe:
  "foldl (\<lambda>stats r. countProbe rnd r stats) stats rs =
     stats\<lparr>transmitted := transmitted stats + int (length rs), received := received stats + int (length (replies rs)),
           st_rtt := foldl (rtt_add rnd) (st_rtt stats) (map latency (replies rs))\<rparr>"
proof (induction rs arbitrary: stats)
  case (Cons r rs)
  then show ?case by (cases r) (simp_all add: countProbe_def)
qed simp

definition probeTimeout :: "cliConfig \<Rightarrow> (nat \<Rightarrow> int) \<Rightarrow> int option \<Rightarrow> int \<Rightarrow> bool" where
  "probeTimeout cfg now deadlineAt t \<longleftrightarrow>
     (case deadlineAt of
        None \<Rightarrow> t = Timeout cfg
      | Some d \<Rightarrow> \<exists>k. t = min (Timeout cfg) (d - now k) \<and> now k < d)"

lemma sessionLoop_replies:
  assumes "sessionLoop rnd ops cfg now sleep env deadlineAt fuel i st = Some st'"
  shows "\<exists>ts. (\<forall>t \<in> set ts. probeTimeout cfg now deadlineAt t) \<and>
    sn_stats st' = foldl (\<lambda>stats r. countProbe rnd r stats) (sn_stats st) (probeResults ops (se_probe env) i ts (sn_probe st))"
  using assms
proof (induction fuel arbitrary: i st)
  case (Suc fuel)
  show ?case
  proof (cases rule: sessionRound_cases [of rnd ops cfg now sleep env deadlineAt i st])
    case (stop n)
    with Suc.prems show ?thesis by (intro exI [of _ "[]"]) auto
  next
    case (send n m t go st1)
    let ?rest = "\<lambda>ts. (\<forall>t \<in> set ts. probeTimeout cfg now deadlineAt t) \<and> sn_stats st' =
      foldl (\<lambda>stats r. countProbe rnd r stats) (sn_stats st1) (probeResults ops (se_probe env) (i + 1) ts (sn_probe st1))"
    have "\<exists>ts. ?rest ts"
    proof (cases go)
      case True
      with Suc.IH [of "i + 1" st1] Suc.prems send(1) show ?thesis by simp
    next
      case False
      with Suc.prems send(1) show ?thesis by (intro exI [of _ "[]"]) simp
    qed
    then obtain ts where "?rest ts" by blast
    moreover have "probeTimeout cfg now deadlineAt t"
      using send(7,8) by (auto simp: probeTimeout_def split: option.split)
    moreover have "sn_stats st1 = countProbe rnd (op_probe ops (sn_probe st) (se_probe env i) t) (sn_stats st)"
      "sn_probe st1 = (case op_probe ops (sn_probe st) (se_probe env i) t of Inl _ \<Rightarrow> sn_probe st | Inr s \<Rightarrow> op_observe ops (sn_probe st) s)"
      by (simp_all add: send(2) sessionSend_sel cong: sum.case_cong)
    ultimately show ?thesis by (intro exI [of _ "t # ts"]) simp
  qed
qed simp

text \<open>A loop with no deadline that nothing interrupts ends only when the count is reached.\<close>

lemma sessionLoop_undisturbed:
  assumes "sessionLoop rnd ops cfg now sleep env None fuel i st = Some st'"
    and "\<And>i. se_ctxErr env i = None" and "\<And>i d. sleep i d = None"
  shows "countReached cfg st'"
  using assms(1)
proof (induction fuel arbitrary: i st)
  case (Suc fuel)
  obtain go st1 where round: "sessionRound rnd ops cfg now sleep env None i st = (go, st1)" by fastforce
  show ?case
  proof (cases go)
    case True
    with Suc round show ?thesis by simp
  next
    case False
    then have "countReached cfg st1"
      using round assms(2,3) by (auto simp: sessionRound_def sessionProbe_def sessionPause_def Let_def split: if_splits)
    with False Suc.prems round show ?thesis by simp
  qed
qed simp

subsection \<open>The end of the loop\<close>

lemma sessionSend_transmitted:
  "transmitted (sn_stats (sessionSend rnd ops cfg now penv t st)) = transmitted (sn_stats st) + 1"
  by (simp add: sessionSend_sel countProbe_def split: sum.split)

lemma sessionLoop_count:
  assumes "Count cfg > 0" and "nat (Count cfg - transmitted (sn_stats st)) < fuel"
  shows "\<exists>st'. sessionLoop rnd ops cfg now sleep env deadlineAt fuel i st = Some st'"
  using assms(2)
proof (induction fuel arbitrary: i st)
  case (Suc fuel)
  show ?case
  proof (cases rule: sessionRound_cases [of rnd ops cfg now sleep env deadlineAt i st])
    case (send n m t go st1)
    show ?thesis
    proof (cases go)
      case True
      have tr: "transmitted (sn_stats st1) = transmitted (sn_stats st) + 1"
        using send(2) by (simp add: sessionSend_transmitted)
      have "\<not> countReached cfg st" using send by simp
      then have "nat (Count cfg - transmitted (sn_stats st1)) < fuel"
        using Suc.prems assms(1) unfolding tr countReached_def by linarith
      with Suc.IH [of st1 "i + 1"] send(1) True show ?thesis by simp
    qed (simp add: send(1))
  qed simp
qed simp

lemma sessionLoop_deadline:
  assumes "\<And>k. N \<le> k \<Longrightarrow> d \<le> now k" and "N - sn_reads st < fuel"
  shows "\<exists>st'. sessionLoop rnd ops cfg now sleep env (Some d) fuel i st = Some st'"
  using assms(2)
proof (induction fuel arbitrary: i st)
  case (Suc fuel)
  show ?case
  proof (cases rule: sessionRound_cases [of rnd ops cfg now sleep env "Some d" i st])
    case (send n m t go st1)
    show ?thesis
    proof (cases go)
      case True
      have "sn_reads st < sn_reads st1" using send by simp
      moreover have "sn_reads st < N" using send(8) [OF refl] assms(1) [of "sn_reads st"] by linarith
      ultimately have "N - sn_reads st1 < fuel" using Suc.prems by linarith
      with Suc.IH [of st1 "i + 1"] send(1) True show ?thesis by simp
    qed (simp add: send(1))
  qed simp
qed simp

subsection \<open>The statistics against their textbook definitions\<close>

definition listMean :: "real list \<Rightarrow> real" where
  "listMean xs = sum_list xs / real (length xs)"

definition squaredDeviations :: "real list \<Rightarrow> real" where
  "squaredDeviations xs = (\<Sum>x\<leftarrow>xs. (x - listMean xs)\<^sup>2)"

lemma deviations_expand:
  "(\<Sum>x\<leftarrow>xs. (x - c)\<^sup>2) = (\<Sum>x\<leftarrow>xs. x\<^sup>2) - 2 * c * sum_list xs + real (length xs) * c\<^sup>2"
  by (induction xs) (simp_all add: algebra_simps power2_eq_square)

text \<open>One step of the running mean and of the running sum of squares.\<close>

lemma listMean_snoc:
  "xs \<noteq> [] \<Longrightarrow> listMean (xs @ [x]) = listMean xs + (x - listMean xs) / (real (length xs) + 1)"
  by (simp add: listMean_def field_simps add_nonneg_eq_0_iff)

lemma squaredDeviations_snoc:
  assumes "xs \<noteq> []"
  shows "squaredDeviations (xs @ [x]) =
    squaredDeviations xs + (x - listMean xs) * (x - listMean (xs @ [x]))"
proof -
  let ?n = "real (length xs)" and ?S = "sum_list xs"
  define m where "m = listMean xs"
  define m' where "m' = listMean (xs @ [x])"
  have "?n \<noteq> 0" "?n + 1 \<noteq> 0" using assms by (auto simp: add_nonneg_eq_0_iff)
  then have S: "?S = ?n * m" and x: "x = (?n + 1) * m' - ?n * m"
    by (simp_all add: m_def m'_def listMean_def field_simps)
  have "squaredDeviations (xs @ [x]) = (\<Sum>x\<leftarrow>xs. x\<^sup>2) - 2 * m' * ?S + ?n * m'\<^sup>2 + (x - m')\<^sup>2"
    by (simp add: squaredDeviations_def m'_def deviations_expand)
  moreover have "squaredDeviations xs = (\<Sum>x\<leftarrow>xs. x\<^sup>2) - 2 * m * ?S + ?n * m\<^sup>2"
    by (simp add: squaredDeviations_def m_def deviations_expand)
  ultimately have "squaredDeviations (xs @ [x]) - squaredDeviations xs - (x - m) * (x - m') = 0"
    by (simp add: S x) (simp add: algebra_simps power2_eq_square)
  then show ?thesis by (simp add: m_def m'_def)
qed

lemma rtt_add_zero: "rtt_add rnd zeroRttStats d =
    \<lparr>rtt_count = 1, rtt_min = durationMs rnd d, rtt_max = durationMs rnd d, rtt_mean = durationMs rnd d, rtt_m2 = 0\<rparr>"
  by (simp add: rtt_add_def zeroRttStats_def Let_def)

lemma rtt_add_step:
  assumes "rtt_count s \<noteq> 0"
  shows "rtt_count (rtt_add rnd s d) = rtt_count s + 1"
    and "rtt_min (rtt_add rnd s d) = min (rtt_min s) (durationMs rnd d)"
    and "rtt_max (rtt_add rnd s d) = max (rtt_max s) (durationMs rnd d)"
    and "rtt_mean (rtt_add rnd s d) =
      rnd (rtt_mean s + rnd (rnd (durationMs rnd d - rtt_mean s) / rnd (of_int (rtt_count s + 1))))"
    and "rtt_m2 (rtt_add rnd s d) =
      rnd (rtt_m2 s + rnd (rnd (durationMs rnd d - rtt_mean s) * rnd (durationMs rnd d - rtt_mean (rtt_add rnd s d))))"
  using assms by (simp_all add: rtt_add_def Let_def min_def max_def)

lemma rtt_fold_range:
  "lats \<noteq> [] \<Longrightarrow>
     rtt_count (foldl (rtt_add rnd) zeroRttStats lats) = int (length lats) \<and>
     rtt_min (foldl (rtt_add rnd) zeroRttStats lats) = Min (durationMs rnd ` set lats) \<and>
     rtt_max (foldl (rtt_add rnd) zeroRttStats lats) = Max (durationMs rnd ` set lats)"
proof (induction lats rule: rev_nonempty_induct)
  case (snoc d lats)
  then have "rtt_count (foldl (rtt_add rnd) zeroRttStats lats) \<noteq> 0" by simp
  from rtt_add_step [OF this, of rnd d] snoc show ?case
    by (simp add: Min_insert Max_insert min.commute max.commute)
qed (simp add: rtt_add_zero)

lemma rtt_fold_exact:
  "lats \<noteq> [] \<Longrightarrow>
     rtt_mean (foldl (rtt_add (\<lambda>x. x)) zeroRttStats lats) = listMean (map (durationMs (\<lambda>x. x)) lats) \<and>
     rtt_m2 (foldl (rtt_add (\<lambda>x. x)) zeroRttStats lats) = squaredDeviations (map (durationMs (\<lambda>x. x)) lats)"
proof (induction lats rule: rev_nonempty_induct)
  case (snoc d lats)
  let ?s = "foldl (rtt_add (\<lambda>x. x)) zeroRttStats lats"
  have count: "rtt_count ?s = int (length lats)" using rtt_fold_range [OF snoc.hyps] by simp
  then have "rtt_count ?s \<noteq> 0" using snoc.hyps by simp
  from rtt_add_step(4,5) [OF this, of "\<lambda>x. x" d] snoc show ?case
    by (simp add: count listMean_snoc squaredDeviations_snoc algebra_simps)
qed (simp add: rtt_add_zero listMean_def squaredDeviations_def)

subsection \<open>A session on any provider of the interface\<close>

context prepared_probe
begin

lemma session_keeps_probe:
  assumes "sessionLoop rnd \<lparr>op_banner = banner, op_summaryLabel = summaryLabel, op_observe = observeSample, op_probe = probe\<rparr>
      cfg now sleep env deadlineAt fuel i st = Some st'"
    and "sessionInv rnd cfg lats st" and "\<forall>l \<in> set lats. least \<le> l"
  shows "label (sn_probe st') = label (sn_probe st) \<and> probe (sn_probe st') = probe (sn_probe st) \<and>
    (\<exists>lats'. sessionInv rnd cfg lats' st' \<and> (\<forall>l \<in> set lats'. least \<le> l))"
  using assms
proof (induction fuel arbitrary: i st lats)
  case (Suc fuel)
  let ?ops = "\<lparr>op_banner = banner, op_summaryLabel = summaryLabel, op_observe = observeSample, op_probe = probe\<rparr>"
  show ?case
  proof (cases rule: sessionRound_cases [of rnd ?ops cfg now sleep env deadlineAt i st])
    case (stop n)
    with Suc.prems show ?thesis by auto
  next
    case (send n m t go st1)
    let ?r = "probe (sn_probe st) (se_probe env i) t"
    let ?lats = "lats @ (case ?r of Inl _ \<Rightarrow> [] | Inr s \<Rightarrow> [latency s])"
    have "sessionInv rnd cfg ?lats st1"
      using sessionInv_send [of rnd cfg lats "st\<lparr>sn_reads := n\<rparr>" ?ops] Suc.prems(2) send by simp
    moreover have "\<forall>l \<in> set ?lats. least \<le> l"
      using Suc.prems(3) by (cases ?r) (auto dest: probe_latency)
    moreover have "label (sn_probe st1) = label (sn_probe st) \<and> probe (sn_probe st1) = probe (sn_probe st)"
      using send(2) by (simp add: sessionSend_sel observe_label observe_probe split: sum.split)
    ultimately show ?thesis
      using Suc.IH [of "i + 1" st1 ?lats] Suc.prems(1) send(1) by (cases go) auto
  qed
qed simp

end

subsection \<open>Timeouts\<close>

lemma recordReply_probe_irrelevant [simp]: "recordReply rnd (ops\<lparr>op_probe := q\<rparr>) = recordReply rnd ops"
  by (simp add: recordReply_def fun_eq_iff)

lemma sessionSend_agree:
  "q (sn_probe st) penv t = op_probe ops (sn_probe st) penv t \<Longrightarrow>
     sessionSend rnd (ops\<lparr>op_probe := q\<rparr>) cfg now penv t st = sessionSend rnd ops cfg now penv t st"
  by (simp add: sessionSend_def Let_def split: sum.split)

lemma sessionRound_agree:
  assumes "\<And>p e t. 0 < t \<Longrightarrow> t \<le> Timeout cfg \<Longrightarrow> q p e t = op_probe ops p e t" and "0 < Timeout cfg"
  shows "sessionRound rnd (ops\<lparr>op_probe := q\<rparr>) cfg now sleep env deadlineAt i st = sessionRound rnd ops cfg now sleep env deadlineAt i st"
  using assms by (cases deadlineAt) (simp_all add: sessionRound_def sessionProbe_def sessionSend_agree Let_def)

lemma sessionLoop_agree:
  assumes "\<And>p e t. 0 < t \<Longrightarrow> t \<le> Timeout cfg \<Longrightarrow> q p e t = op_probe ops p e t" and "0 < Timeout cfg"
  shows "sessionLoop rnd (ops\<lparr>op_probe := q\<rparr>) cfg now sleep env deadlineAt fuel i st =
    sessionLoop rnd ops cfg now sleep env deadlineAt fuel i st"
  by (induction fuel arbitrary: i st) (simp_all add: sessionRound_agree [OF assms] split: prod.split bool.split)

lemma runTextSession_agree:
  assumes "\<And>p e t. 0 < t \<Longrightarrow> t \<le> Timeout cfg \<Longrightarrow> q p e t = op_probe ops p e t" and "0 < Timeout cfg"
  shows "runTextSession rnd sys (ops\<lparr>op_probe := q\<rparr>) env fuel cfg p rt = runTextSession rnd sys ops env fuel cfg p rt"
proof -
  have "sessionInit (ops\<lparr>op_probe := q\<rparr>) = sessionInit ops" "sessionSummary rnd (ops\<lparr>op_probe := q\<rparr>) = sessionSummary rnd ops"
    by (simp_all add: sessionInit_def sessionSummary_def fun_eq_iff)
  then show ?thesis
    by (simp add: runTextSession_def sessionLoop_agree [OF assms] Let_def split: option.split)
qed

lemma runTextSession_Some:
  assumes "runTextSession rnd sys ops env fuel cfg p rt = Some (out, code)"
  obtains st where "sessionLoop rnd ops cfg (the (rt_now (rt_withDefaults sys rt))) (the (rt_sleep (rt_withDefaults sys rt))) env
      (if Deadline cfg > 0 then Some (the (rt_now (rt_withDefaults sys rt)) 0 + Deadline cfg) else None) fuel 0
      (sessionInit ops cfg (the (rt_now (rt_withDefaults sys rt))) p) = Some st"
    "out = sn_out (sessionSummary rnd ops cfg (the (rt_now (rt_withDefaults sys rt))) st)" "code = sessionExit cfg (sn_stats st)"
proof -
  have start: "st_start (sn_stats (sessionInit ops cfg now p)) = now 0" for now :: "nat \<Rightarrow> int"
    by (simp add: sessionInit_def)
  have same: "sessionExit cfg (sn_stats (sessionSummary rnd ops cfg now st)) = sessionExit cfg (sn_stats st)" for now st
    by (simp add: sessionSummary_def sessionExit_def Let_def)
  show thesis
    using assms that by (auto simp: runTextSession_def Let_def start same split: option.splits cong: if_cong)
qed

lemma runTextSession_ends:
  assumes "Count cfg > 0 \<and> nat (Count cfg) < fuel \<or>
    Deadline cfg > 0 \<and> N < fuel \<and> (\<forall>k \<ge> N. now 0 + Deadline cfg \<le> now k)"
  shows "\<exists>out code. runTextSession rnd sys ops env fuel cfg p \<lparr>rt_now = Some now, rt_sleep = sleep\<rparr> = Some (out, code)"
proof -
  let ?rt = "rt_withDefaults sys \<lparr>rt_now = Some now, rt_sleep = sleep\<rparr>"
  let ?st = "sessionInit ops cfg now p"
  let ?d = "if Deadline cfg > 0 then Some (now 0 + Deadline cfg) else None"
  have now: "the (rt_now ?rt) = now" by (simp add: rt_withDefaults_def Let_def)
  have init: "st_start (sn_stats ?st) = now 0" "transmitted (sn_stats ?st) = 0"
    by (simp_all add: sessionInit_def)
  have "\<exists>st'. sessionLoop rnd ops cfg now (the (rt_sleep ?rt)) env ?d fuel 0 ?st = Some st'"
    using assms sessionLoop_count [of cfg ?st fuel rnd ops now _ env ?d 0]
      sessionLoop_deadline [of N "now 0 + Deadline cfg" now ?st fuel rnd ops cfg _ env 0]
    by (auto simp: init)
  then show ?thesis
    by (auto simp: runTextSession_def now init Let_def)
qed

subsection \<open>Probes that behave alike\<close>

text \<open>A change of the probe that no operation of the interface shows does not change the session.\<close>

definition onProbe :: "('p \<Rightarrow> 'p) \<Rightarrow> 'p sessionState \<Rightarrow> 'p sessionState" where
  "onProbe f st = st\<lparr>sn_probe := f (sn_probe st)\<rparr>"

lemma onProbe_sel [simp]:
  "sn_probe (onProbe f st) = f (sn_probe st)" "sn_stats (onProbe f st) = sn_stats st" "sn_seq (onProbe f st) = sn_seq st"
  "sn_reads (onProbe f st) = sn_reads st" "sn_out (onProbe f st) = sn_out st"
  by (simp_all add: onProbe_def)

lemma onProbe_write [simp]:
  "writeSessionLine now w line (onProbe f st) = onProbe f (writeSessionLine now w line st)"
  "tick (onProbe f st) = onProbe f (tick st)"
  by (simp_all add: writeSessionLine_def onProbe_def tick_def)

lemma onProbe_countReached [simp]: "countReached cfg (onProbe f st) = countReached cfg st"
  by (simp add: countReached_def)

lemma onProbe_pause:
  "sessionPause cfg now sleep e d i start (onProbe f st) = map_prod id (onProbe f) (sessionPause cfg now sleep e d i start st)"
  by (cases d) (simp_all add: sessionPause_def Let_def)

lemma onProbe_send:
  assumes "op_probe ops (f (sn_probe st)) penv t = op_probe ops (sn_probe st) penv t"
    and "\<And>s. op_observe ops (f (sn_probe st)) s = f (op_observe ops (sn_probe st) s)"
  shows "sessionSend rnd ops cfg now penv t (onProbe f st) = onProbe f (sessionSend rnd ops cfg now penv t st)"
  using assms
  by (simp add: sessionSend_def recordReply_def writeSessionLine_def Let_def onProbe_def split: sum.split)

definition unnoticed :: "'p probeOps \<Rightarrow> sessionEnv \<Rightarrow> ('p \<Rightarrow> 'p) \<Rightarrow> 'p \<Rightarrow> bool" where
  "unnoticed ops env f p \<longleftrightarrow>
     (\<forall>ss. let q = foldl (op_observe ops) p ss in
       (\<forall>i t. op_probe ops (f q) (se_probe env i) t = op_probe ops q (se_probe env i) t) \<and>
       (\<forall>s. op_observe ops (f q) s = f (op_observe ops q s)) \<and>
       (\<forall>n. op_banner ops (f q) n = op_banner ops q n \<and> op_summaryLabel ops (f q) n = op_summaryLabel ops q n))"

lemma unnoticed_now:
  assumes "unnoticed ops env f p"
  shows "op_probe ops (f p) (se_probe env i) t = op_probe ops p (se_probe env i) t"
    and "op_observe ops (f p) s = f (op_observe ops p s)"
    and "op_banner ops (f p) n = op_banner ops p n" and "op_summaryLabel ops (f p) n = op_summaryLabel ops p n"
  using assms unfolding unnoticed_def Let_def by (force dest: spec [of _ "[]"])+

lemma unnoticed_observe: "unnoticed ops env f p \<Longrightarrow> unnoticed ops env f (op_observe ops p s)"
  unfolding unnoticed_def by (metis foldl_Cons)

lemma unnoticed_send:
  "unnoticed ops env f (sn_probe st) \<Longrightarrow> unnoticed ops env f (sn_probe (sessionSend rnd ops cfg now penv t st))"
  by (simp add: sessionSend_sel unnoticed_observe split: sum.split)

lemma onProbe_sessionProbe:
  assumes "unnoticed ops env f (sn_probe st)"
  shows "sessionProbe rnd ops cfg now sleep env d i start t (onProbe f st) =
    map_prod id (onProbe f) (sessionProbe rnd ops cfg now sleep env d i start t st)"
  by (simp add: sessionProbe_def onProbe_send unnoticed_now [OF assms] onProbe_pause)

lemma onProbe_round:
  assumes "unnoticed ops env f (sn_probe st)"
  shows "sessionRound rnd ops cfg now sleep env d i (onProbe f st) =
    map_prod id (onProbe f) (sessionRound rnd ops cfg now sleep env d i st)"
  using assms by (cases d) (simp_all add: sessionRound_def onProbe_sessionProbe Let_def)

lemma unnoticed_round:
  assumes "unnoticed ops env f (sn_probe st)"
  shows "unnoticed ops env f (sn_probe (snd (sessionRound rnd ops cfg now sleep env d i st)))"
proof (cases rule: sessionRound_cases [of rnd ops cfg now sleep env d i st])
  case (send n m t go st')
  with assms show ?thesis by (simp add: unnoticed_send)
qed (use assms in simp)

lemma onProbe_loop:
  "unnoticed ops env f (sn_probe st) \<Longrightarrow>
    sessionLoop rnd ops cfg now sleep env d fuel i (onProbe f st) =
    map_option (onProbe f) (sessionLoop rnd ops cfg now sleep env d fuel i st) \<and>
    pred_option (\<lambda>st'. unnoticed ops env f (sn_probe st')) (sessionLoop rnd ops cfg now sleep env d fuel i st)"
proof (induction fuel arbitrary: i st)
  case (Suc fuel)
  obtain go st' where round: "sessionRound rnd ops cfg now sleep env d i st = (go, st')" by fastforce
  with unnoticed_round [OF Suc.prems, of rnd cfg now sleep d i] onProbe_round [OF Suc.prems, of rnd cfg now sleep d i] Suc.IH [of st' "i + 1"]
  show ?case by (cases go) simp_all
qed simp

lemma runTextSession_unnoticed:
  assumes "unnoticed ops env f p"
  shows "runTextSession rnd sys ops env fuel cfg (f p) rt = runTextSession rnd sys ops env fuel cfg p rt"
proof -
  have init: "sessionInit ops cfg now (f p) = onProbe f (sessionInit ops cfg now p)"
    "sn_probe (sessionInit ops cfg now p) = p" for now
    by (simp_all add: sessionInit_def unnoticed_now [OF assms] writeSessionLine_def onProbe_def)
  have summary: "sessionSummary rnd ops cfg now (onProbe f st) = onProbe f (sessionSummary rnd ops cfg now st)"
    if "unnoticed ops env f (sn_probe st)" for now st
    using unnoticed_now [OF that] by (simp add: sessionSummary_def Let_def onProbe_def writeSessionLine_def tick_def)
  define now where "now = the (rt_now (rt_withDefaults sys rt))"
  define d where "d = (if Deadline cfg > 0 then Some (st_start (sn_stats (sessionInit ops cfg now p)) + Deadline cfg) else None)"
  note run = runTextSession_def Let_def now_def [symmetric] init onProbe_sel d_def [symmetric]
  from onProbe_loop [of ops env f "sessionInit ops cfg now p" rnd cfg now "the (rt_sleep (rt_withDefaults sys rt))" d fuel 0] assms init
  show ?thesis
    unfolding run
    by (cases "sessionLoop rnd ops cfg now (the (rt_sleep (rt_withDefaults sys rt))) env d fuel 0 (sessionInit ops cfg now p)")
      (simp_all add: summary)
qed

section \<open>Properties\<close>

text \<open>
  C23: a session with a count ends: the loop takes at most one round more than probes asked for. So does a
  session with a deadline on a clock that reaches it: no more rounds than readings before it does.
\<close>

theorem session_ends:
  assumes "Count cfg > 0 \<and> nat (Count cfg) < fuel \<or>
    Deadline cfg > 0 \<and> N < fuel \<and> (\<forall>k \<ge> N. now 0 + Deadline cfg \<le> now k)"
  shows "\<exists>out code. runTextSession rnd sys ops env fuel cfg p \<lparr>rt_now = Some now, rt_sleep = sleep\<rparr> = Some (out, code)"
  using assms by (rule runTextSession_ends)

text \<open>
  C10: the statistics and the exit code of a session that ended. It has probed once per round, in the surroundings
  of that round, with the configured timeout or, under a deadline, with the time that was left if that was less.
  Its statistics are those of the results of these probes: all of them are counted as transmitted, those that
  are no errors as received, and the round trip times are the latencies of the replies in their order. The summary it writes
  is made from these statistics, and the code is 0 exactly when there was a reply and, when both a count and a
  deadline are given, as many replies as the count. No more probes than the count are sent, and exactly the count when there
  is no deadline and neither the context nor the sleep ends early.
\<close>

theorem session_exit_code:
  assumes "runTextSession rnd sys ops env fuel cfg p rt = Some (out, code)"
    and now: "now = the (rt_now (rt_withDefaults sys rt))" and sleep: "sleep = the (rt_sleep (rt_withDefaults sys rt))"
  shows "\<exists>st timeouts.
    (\<forall>t \<in> set timeouts. if Deadline cfg > 0 then (\<exists>k. t = min (Timeout cfg) (now 0 + Deadline cfg - now k) \<and> now k < now 0 + Deadline cfg)
       else t = Timeout cfg) \<and>
    (Count cfg > 0 \<longrightarrow> int (length timeouts) \<le> Count cfg) \<and>
    (Count cfg > 0 \<and> Deadline cfg \<le> 0 \<and> (\<forall>i. se_ctxErr env i = None) \<and> (\<forall>i d. sleep i d = None) \<longrightarrow>
       int (length timeouts) = Count cfg) \<and>
    (let lats = map latency (replies (probeResults ops (se_probe env) 0 timeouts p)) in
     sn_stats st = \<lparr>transmitted = int (length timeouts), received = int (length lats), st_start = now 0, st_end = 0,
                    st_rtt = foldl (rtt_add rnd) zeroRttStats lats\<rparr> \<and>
     out = sn_out (sessionSummary rnd ops cfg now st) \<and>
     (code = 0 \<or> code = 1) \<and>
     (code = 0 \<longleftrightarrow> lats \<noteq> [] \<and> \<not> (Count cfg > 0 \<and> Deadline cfg > 0 \<and> int (length lats) < Count cfg)))"
proof -
  let ?d = "if Deadline cfg > 0 then Some (now 0 + Deadline cfg) else None"
  from assms(1) obtain st where loop: "sessionLoop rnd ops cfg now sleep env ?d fuel 0 (sessionInit ops cfg now p) = Some st"
    and out: "out = sn_out (sessionSummary rnd ops cfg now st)" and code: "code = sessionExit cfg (sn_stats st)"
    unfolding now sleep by (rule runTextSession_Some)
  from sessionLoop_replies [OF loop] obtain ts where ts: "\<forall>t \<in> set ts. probeTimeout cfg now ?d t"
    and folded: "sn_stats st = foldl (\<lambda>stats r. countProbe rnd r stats) (sn_stats (sessionInit ops cfg now p))
      (probeResults ops (se_probe env) 0 ts (sn_probe (sessionInit ops cfg now p)))" by blast
  define lats where "lats = map latency (replies (probeResults ops (se_probe env) 0 ts p))"
  have stats: "sn_stats st = \<lparr>transmitted = int (length ts), received = int (length lats), st_start = now 0, st_end = 0,
      st_rtt = foldl (rtt_add rnd) zeroRttStats lats\<rparr>"
    by (simp add: folded foldl_countProbe sessionInit_def lats_def)
  have most: "Count cfg > 0 \<Longrightarrow> int (length ts) \<le> Count cfg"
    using sessionLoop_inv [OF loop sessionInv_init] by (auto simp: sessionInv_def stats)
  have all: "int (length ts) = Count cfg"
    if "Count cfg > 0" "Deadline cfg \<le> 0" "\<forall>i. se_ctxErr env i = None" "\<forall>i d. sleep i d = None"
    using sessionLoop_undisturbed [of rnd ops cfg now sleep env fuel 0 "sessionInit ops cfg now p" st] loop that most
    by (simp add: countReached_def stats)
  have codes: "code = 0 \<or> code = 1"
    "code = 0 \<longleftrightarrow> lats \<noteq> [] \<and> \<not> (Count cfg > 0 \<and> Deadline cfg > 0 \<and> int (length lats) < Count cfg)"
    by (auto simp: code sessionExit_def stats)
  have "\<forall>t \<in> set ts. if Deadline cfg > 0 then (\<exists>k. t = min (Timeout cfg) (now 0 + Deadline cfg - now k) \<and> now k < now 0 + Deadline cfg)
      else t = Timeout cfg"
    using ts by (simp add: probeTimeout_def split: if_splits)
  with most all stats out codes show ?thesis
    by (intro exI [of _ st] exI [of _ ts]) (unfold Let_def lats_def [symmetric], blast)
qed

text \<open>
  C24: the running statistics are the textbook ones. For any rounding of the arithmetic, the least and the
  greatest of the latencies in milliseconds are exact; without rounding, the running mean is the mean, and
  \<^verbatim>\<open>mdev\<close> is the standard deviation of the latencies.
\<close>

theorem rtt_statistics:
  assumes "lats \<noteq> []"
  shows "rtt_count (foldl (rtt_add rnd) zeroRttStats lats) = int (length lats) \<and>
    rtt_min (foldl (rtt_add rnd) zeroRttStats lats) = Min (durationMs rnd ` set lats) \<and>
    rtt_max (foldl (rtt_add rnd) zeroRttStats lats) = Max (durationMs rnd ` set lats) \<and>
    rtt_mean (foldl (rtt_add (\<lambda>x. x)) zeroRttStats lats) = listMean (map (\<lambda>d. real_of_int d / 1000000) lats) \<and>
    rtt_mdev (\<lambda>x. x) (foldl (rtt_add (\<lambda>x. x)) zeroRttStats lats) =
      sqrt (squaredDeviations (map (\<lambda>d. real_of_int d / 1000000) lats) / real (length lats))"
proof -
  have "durationMs (\<lambda>x. x) = (\<lambda>d. real_of_int d / 1000000)" by (simp add: fun_eq_iff durationMs_def)
  then show ?thesis
    using rtt_fold_range [OF assms] rtt_fold_exact [OF assms] rtt_fold_range [OF assms, of "\<lambda>x. x"] assms
    by (simp add: rtt_mdev_def)
qed

text \<open>
  Every probe of a session gets a positive timeout that is no more than the configured one: what a
  probe would do with any other timeout has no influence on the output and the exit code.
\<close>

theorem session_timeouts:
  assumes "\<And>p e t. 0 < t \<Longrightarrow> t \<le> Timeout cfg \<Longrightarrow> q p e t = op_probe ops p e t" and "0 < Timeout cfg"
  shows "runTextSession rnd sys (ops\<lparr>op_probe := q\<rparr>) env fuel cfg p rt = runTextSession rnd sys ops env fuel cfg p rt"
  using assms by (rule runTextSession_agree)

section \<open>Instances\<close>

definition exampleOps :: "probeSample result \<Rightarrow> unit probeOps" where
  "exampleOps r = \<lparr>op_banner = (\<lambda>_ _. ''PING''), op_summaryLabel = (\<lambda>_ _. ''host''), op_observe = (\<lambda>p _. p), op_probe = (\<lambda>_ _ _. r)\<rparr>"

definition exampleSessionConfig :: cliConfig where
  "exampleSessionConfig =
     \<lparr>Target = \<lparr>t_Host = ''host'', t_Port = 0, PortExplicit = False\<rparr>, Edition = editionJava,
      Options = \<lparr>addressFamily_of = addressFamilyAny, allowPrivateAddresses = False\<rparr>,
      Count = 2, Interval = 1000000000, Deadline = 0, Timeout = 5000000000, Quiet = False, Timestamp = False, Numeric = False,
      JSON = False, ShowHelp = False, ShowVersion = False\<rparr>"

definition exampleOfflineEnv :: probeEnv where
  "exampleOfflineEnv =
     \<lparr>env_ctx = \<lparr>ctx_Err = (\<lambda>_. None), ctx_Deadline = None\<rparr>,
      env_sched = \<lparr>sch_order = [], sch_waitErr = (\<lambda>_. None), sch_lateErr = (\<lambda>_. None)\<rparr>,
      env_sys =
        \<lparr>sys_resolver = \<lparr>LookupSRV = (\<lambda>_ _ _. Inl EOF), LookupNetIP = (\<lambda>_ _. Inl EOF)\<rparr>, sys_dial = (\<lambda>_ _. Inl EOF),
         sys_rand = Inl EOF, sys_clock = (\<lambda>k. int k)\<rparr>,
      env_lookupPort = (\<lambda>_ _. Inl EOF), env_random = (\<lambda>_. Inl EOF)\<rparr>"

definition exampleSessionEnv :: sessionEnv where
  "exampleSessionEnv = \<lparr>se_probe = (\<lambda>_. exampleOfflineEnv), se_ctxErr = (\<lambda>_. None)\<rparr>"

abbreviation exampleRuntime :: sessionRuntime where
  "exampleRuntime \<equiv> \<lparr>rt_now = Some (\<lambda>k. int k), rt_sleep = None\<rparr>"

lemma example_count: "Count exampleSessionConfig > 0 \<and> nat (Count exampleSessionConfig) < 3"
  "0 < Timeout exampleSessionConfig"
  by (simp_all add: exampleSessionConfig_def)

theorem session_ends_witness:
  "\<exists>out code. runTextSession (\<lambda>x. x) \<lparr>sy_now = \<lambda>_. 0, sy_ctxDone = \<lambda>_. None\<rparr> (exampleOps (Inl EOF))
     exampleSessionEnv 3 exampleSessionConfig () exampleRuntime = Some (out, code)"
  by (rule session_ends [where N = 0]) (use example_count in simp)

lemma replies_example: "replies (probeResults (exampleOps (Inr s)) penv i ts ()) = replicate (length ts) s"
  by (induction ts arbitrary: i) (simp_all add: exampleOps_def)

theorem session_exit_code_witness:
  "\<exists>out. runTextSession (\<lambda>x. x) \<lparr>sy_now = \<lambda>_. 0, sy_ctxDone = \<lambda>_. None\<rparr>
     (exampleOps (Inr \<lparr>latency = 5000000, remote = zeroAddrPort\<rparr>)) exampleSessionEnv 3 exampleSessionConfig () exampleRuntime = Some (out, 0)"
proof -
  let ?sys = "\<lparr>sy_now = \<lambda>_. 0, sy_ctxDone = \<lambda>_. None\<rparr>" and ?ops = "exampleOps (Inr \<lparr>latency = 5000000, remote = zeroAddrPort\<rparr>)"
  obtain out code where run: "runTextSession (\<lambda>x. x) ?sys ?ops exampleSessionEnv 3 exampleSessionConfig () exampleRuntime = Some (out, code)"
    using runTextSession_ends [where cfg = exampleSessionConfig and fuel = 3 and N = 0 and now = int and sleep = None
        and rnd = "\<lambda>x. x" and sys = ?sys and ops = ?ops and env = exampleSessionEnv and p = "()"] example_count(1) by auto
  have quiet: "\<forall>i. se_ctxErr exampleSessionEnv i = None" "\<forall>i d. the (rt_sleep (rt_withDefaults ?sys exampleRuntime)) i d = None"
    "Deadline exampleSessionConfig \<le> 0"
    by (simp_all add: exampleSessionEnv_def rt_withDefaults_def defaultSessionRuntime_def Let_def exampleSessionConfig_def)
  from session_exit_code [OF run refl refl] obtain timeouts where "int (length timeouts) = Count exampleSessionConfig"
    and "code = 0 \<longleftrightarrow> map latency (replies (probeResults ?ops (se_probe exampleSessionEnv) 0 timeouts ())) \<noteq> [] \<and>
      \<not> (Count exampleSessionConfig > 0 \<and> Deadline exampleSessionConfig > 0 \<and>
        int (length (map latency (replies (probeResults ?ops (se_probe exampleSessionEnv) 0 timeouts ())))) < Count exampleSessionConfig)"
    using quiet example_count(1) unfolding Let_def by blast
  then have "code = 0" using example_count(1) quiet(3) by (auto simp: replies_example)
  with run show ?thesis by blast
qed

theorem rtt_statistics_witness:
  "rtt_mean (foldl (rtt_add (\<lambda>x. x)) zeroRttStats [1000000, 3000000]) = 2 \<and>
   rtt_mdev (\<lambda>x. x) (foldl (rtt_add (\<lambda>x. x)) zeroRttStats [1000000, 3000000]) = 1"
  using rtt_statistics [of "[1000000, 3000000]" "\<lambda>x. x"]
  by (simp add: listMean_def squaredDeviations_def)

theorem session_timeouts_witness:
  "runTextSession (\<lambda>x. x) \<lparr>sy_now = \<lambda>_. 0, sy_ctxDone = \<lambda>_. None\<rparr>
     ((exampleOps (Inl EOF))\<lparr>op_probe := \<lambda>_ _ t. if t \<le> 0 then Inl ErrTimeout else Inl EOF\<rparr>)
     exampleSessionEnv 3 exampleSessionConfig () exampleRuntime =
   runTextSession (\<lambda>x. x) \<lparr>sy_now = \<lambda>_. 0, sy_ctxDone = \<lambda>_. None\<rparr> (exampleOps (Inl EOF))
     exampleSessionEnv 3 exampleSessionConfig () exampleRuntime"
  by (rule session_timeouts) (use example_count in \<open>simp_all add: exampleOps_def\<close>)

end
