(* ===== verification/Staging_Java.thy ===== *)
theory Staging_Java
  imports Protocol
begin

text \<open>
  The Java Edition side of the staging server, \<^verbatim>\<open>internal/stagingserver/server.go\<close>: its own reader and
  writer of the wire format, the handler of a connection, and the probe the release harness runs
  against it. The package repeats the names of the client's \<^verbatim>\<open>protocol.go\<close>; here they carry the
  prefix \<open>ss_\<close>. The constants of the package have the values of the client's and are shared.
\<close>

section \<open>Wire format\<close>

definition maxVarIntBytes :: nat where
  "maxVarIntBytes = 5"

function ss_readVarInt_loop :: "nat \<Rightarrow> i32 \<Rightarrow> reader \<Rightarrow> (i32 \<times> reader) result" where
  "ss_readVarInt_loop numRead res r =
     (if numRead \<ge> maxVarIntBytes then Inl errVarIntTooLong
      else
        ebind (readFull 1 r) (\<lambda>(one, r').
          let res' = res OR push_bit (7 * numRead) (ucast (one ! 0 AND 0x7F))
          in if one ! 0 AND 0x80 = 0 then Inr (res', r')
             else ss_readVarInt_loop (numRead + 1) res' r'))"
  by pat_completeness auto
termination
  by (relation "measure (\<lambda>(n, _, _). maxVarIntBytes - n)") auto

definition ss_readVarInt :: "reader \<Rightarrow> (i32 \<times> reader) result" where
  "ss_readVarInt r = ss_readVarInt_loop 0 0 r"

text \<open>The loop over the index of a byte slice.\<close>

function ss_readVarIntFromBytes_loop :: "nat \<Rightarrow> i32 \<Rightarrow> byte list \<Rightarrow> (i32 \<times> nat) result" where
  "ss_readVarIntFromBytes_loop numRead res payload =
     (if numRead \<ge> maxVarIntBytes then Inl errVarIntTooLong
      else if numRead \<ge> length payload then Inl ErrUnexpectedEOF
      else
        (let b = payload ! numRead;
             res' = res OR push_bit (7 * numRead) (ucast (b AND 0x7F))
         in if b AND 0x80 = 0 then Inr (res', numRead + 1)
            else ss_readVarIntFromBytes_loop (numRead + 1) res' payload))"
  by pat_completeness auto
termination
  by (relation "measure (\<lambda>(n, _, _). maxVarIntBytes - n)") auto

definition ss_readVarIntFromBytes :: "byte list \<Rightarrow> (i32 \<times> nat) result" where
  "ss_readVarIntFromBytes payload = ss_readVarIntFromBytes_loop 0 0 payload"

function ss_writeVarInt_loop :: "32 word \<Rightarrow> byte list" where
  "ss_writeVarInt_loop v =
     (let temp = ucast (v AND 0x7F); v' = drop_bit 7 v
      in if v' \<noteq> 0 then (temp OR 0x80) # ss_writeVarInt_loop v' else [temp])"
  by pat_completeness auto
termination
proof (relation "measure unat")
  fix v temp v' :: "32 word"
  assume "v' = drop_bit 7 v" "v' \<noteq> 0"
  then have "v \<noteq> 0" by auto
  then have "0 < unat v" by (simp add: unat_gt_0)
  moreover have "unat (drop_bit 7 v) = unat v div 128"
    by (simp only: unat_drop_bit_eq) (simp add: drop_bit_eq_div)
  ultimately show "(v', v) \<in> measure unat" using \<open>v' = drop_bit 7 v\<close> by simp
qed simp

declare ss_readVarInt_loop.simps [simp del] ss_readVarIntFromBytes_loop.simps [simp del]
  ss_writeVarInt_loop.simps [simp del]

definition ss_writeVarInt :: "i32 \<Rightarrow> byte list" where
  "ss_writeVarInt value = ss_writeVarInt_loop value"

definition ss_writeString :: "string \<Rightarrow> int \<Rightarrow> byte list result" where
  "ss_writeString val maxBytes =
     (if \<not> utf8Valid (bytes_of val) then Inl (ErrNew ''string payload is not valid UTF-8'')
      else if int (length val) > maxBytes then
        Inl (Errorf ''string length %d exceeds limit %d'' [AInt (int (length val)), AInt maxBytes])
      else Inr (ss_writeVarInt (of_nat (length val)) @ bytes_of val))"

definition ss_readStringFromBytes :: "byte list \<Rightarrow> int \<Rightarrow> (string \<times> nat) result" where
  "ss_readStringFromBytes payload maxBytes =
     ebind (ss_readVarIntFromBytes payload) (\<lambda>(stringLength, consumed).
       if sint stringLength < 0 then Inl (Errorf ''invalid string length: %d'' [AInt (sint stringLength)])
       else if sint stringLength > maxBytes then
         Inl (Errorf ''string length %d exceeds limit %d'' [AInt (sint stringLength), AInt maxBytes])
       else
         (let fin = consumed + nat (sint stringLength) in
          if fin > length payload then Inl ErrUnexpectedEOF
          else
            (let value = drop consumed (take fin payload) in
             if \<not> utf8Valid value then Inl (ErrNew ''string payload is not valid UTF-8'')
             else Inr (string_of value, fin))))"

definition ss_writePacket :: "conn \<Rightarrow> byte list \<Rightarrow> conn result" where
  "ss_writePacket w payload =
     (if payload = [] then Inl (ErrNew ''packet payload must not be empty'')
      else if int (length payload) > maxPacketLength then
        Inl (Errorf ''packet payload exceeds maximum size: %d'' [AInt (int (length payload))])
      else connWrite w (ss_writeVarInt (of_nat (length payload)) @ payload))"

definition ss_readPacket :: "reader \<Rightarrow> int \<Rightarrow> (byte list \<times> reader) result" where
  "ss_readPacket r maxLength =
     ebind (ss_readVarInt r) (\<lambda>(packetLength, r1).
       if sint packetLength \<le> 0 then Inl (Errorf ''invalid packet length: %d'' [AInt (sint packetLength)])
       else if sint packetLength > maxLength then
         Inl (Errorf ''packet length %d exceeds limit %d'' [AInt (sint packetLength), AInt maxLength])
       else readFull (nat (sint packetLength)) r1)"

section \<open>The handler\<close>

definition DefaultStatusJSON :: string where
  "DefaultStatusJSON =
     ''{\"version\":{\"name\":\"staging\",\"protocol\":109},\"players\":{\"max\":0,\"online\":0,\"sample\":[]},\"description\":{\"text\":\"minecraft-ping staging\"}}''"

definition validateStatusJSON :: "string \<Rightarrow> unit result" where
  "validateStatusJSON statusJSON =
     (if int (length statusJSON) > maxStatusJSONLength then
        Inl (Errorf ''status json exceeds maximum size: %d'' [AInt (int (length statusJSON))])
      else if \<not> jsonValid statusJSON then Inl (ErrNew ''status json must be valid JSON'')
      else Inr ())"

definition ss_packetIDStatusRequest :: i32 where
  "ss_packetIDStatusRequest = 0x00"

definition expectStatusHandshake :: "reader \<Rightarrow> (unit \<times> reader) result" where
  "expectStatusHandshake r =
     ebind (ss_readPacket r maxPacketLength) (\<lambda>(handshake, r1).
     ebind (emap (Wrapf ''read handshake packet id: %w'' []) (ss_readVarIntFromBytes handshake)) (\<lambda>(packetID, consumed).
     if packetID \<noteq> packetIDHandshake then
       Inl (Errorf ''unexpected handshake packet id: %d'' [AInt (sint packetID)])
     else
     ebind (emap (Wrapf ''read handshake protocol version: %w'' [])
       (ss_readVarIntFromBytes (drop consumed handshake))) (\<lambda>(_, protocolBytes).
     let consumed = consumed + protocolBytes in
     ebind (emap (Wrapf ''read handshake host: %w'' [])
       (ss_readStringFromBytes (drop consumed handshake) maxHandshakeHostByteSize)) (\<lambda>(_, hostBytes).
     let consumed = consumed + hostBytes in
     if length (drop consumed handshake) < 2 then Inl (ErrNew ''missing handshake port bytes'')
     else
     let consumed = consumed + 2 in
     ebind (emap (Wrapf ''read handshake next state: %w'' [])
       (ss_readVarIntFromBytes (drop consumed handshake))) (\<lambda>(nextState, stateBytes).
     let consumed = consumed + stateBytes in
     if nextState \<noteq> nextStateStatus then Inl (Errorf ''unexpected next state: %d'' [AInt (sint nextState)])
     else if consumed \<noteq> length handshake then
       Inl (Errorf ''unexpected trailing handshake bytes: %d'' [AInt (int (length handshake) - int consumed)])
     else
     ebind (emap (Wrapf ''read status request: %w'' []) (ss_readPacket r1 maxPacketLength)) (\<lambda>(statusRequest, r2).
     ebind (emap (Wrapf ''read status request packet id: %w'' [])
       (ss_readVarIntFromBytes statusRequest)) (\<lambda>(requestID, requestBytes).
     if requestID \<noteq> ss_packetIDStatusRequest then
       Inl (Errorf ''unexpected status request packet id: %d'' [AInt (sint requestID)])
     else if requestBytes \<noteq> length statusRequest then
       Inl (Errorf ''unexpected status request payload size: %d''
         [AInt (int (length statusRequest) - int requestBytes)])
     else Inr ((), r2))))))))"

definition sendStatusJSON :: "conn \<Rightarrow> string \<Rightarrow> conn result" where
  "sendStatusJSON w statusJSON =
     ebind (ss_writeString statusJSON maxStatusJSONLength) (\<lambda>text.
       ss_writePacket w (ss_writeVarInt packetIDStatusResponse @ text))"

definition expectPingToken :: "reader \<Rightarrow> (u64 \<times> reader) result" where
  "expectPingToken r =
     ebind (ss_readPacket r maxPacketLength) (\<lambda>(pingPacket, r1).
     ebind (ss_readVarIntFromBytes pingPacket) (\<lambda>(packetID, consumed).
       if packetID \<noteq> packetIDPing then Inl (Errorf ''unexpected ping packet id: %d'' [AInt (sint packetID)])
       else if length (drop consumed pingPacket) \<noteq> 8 then
         Inl (Errorf ''unexpected ping payload size: %d'' [AInt (int (length (drop consumed pingPacket)))])
       else Inr (getUint64 (drop consumed pingPacket), r1)))"

definition sendPong :: "conn \<Rightarrow> u64 \<Rightarrow> conn result" where
  "sendPong w token = ss_writePacket w (ss_writeVarInt packetIDPong @ putUint64 token)"

text \<open>
  The handler, with the connection it leaves behind also where it fails: what was sent before the
  failure stays sent.
\<close>

definition handleConn :: "int \<Rightarrow> conn \<Rightarrow> string \<Rightarrow> int \<Rightarrow> unit result \<times> conn" where
  "handleConn now c statusJSON deadline =
     (case setDeadline c (now + deadline) of
        Inl e \<Rightarrow> (Inl e, c)
      | Inr _ \<Rightarrow>
     (case connRead expectStatusHandshake c of
        Inl e \<Rightarrow> (Inl e, c)
      | Inr (_, c1) \<Rightarrow>
     (case sendStatusJSON c1 statusJSON of
        Inl e \<Rightarrow> (Inl e, c1)
      | Inr c2 \<Rightarrow>
     (case connRead expectPingToken c2 of
        Inl e \<Rightarrow> (Inl e, c2)
      | Inr (token, c3) \<Rightarrow>
     (case sendPong c3 token of
        Inl e \<Rightarrow> (Inl e, c3)
      | Inr c4 \<Rightarrow> (Inr (), c4))))))"

section \<open>The probe of the harness\<close>

definition pingToken :: u64 where
  "pingToken = 0x0102030405060708"

definition probeConn :: "int \<Rightarrow> conn \<Rightarrow> string \<Rightarrow> int \<Rightarrow> int \<Rightarrow> unit result" where
  "probeConn now c host port timeout =
     ebind (setDeadline c (now + timeout)) (\<lambda>_.
     ebind (ss_writeString host maxHandshakeHostByteSize) (\<lambda>hostField.
     ebind (ss_writePacket c
       (ss_writeVarInt packetIDHandshake @ ss_writeVarInt statusProtocolVersion @ hostField @
        putUint16 (of_int port) @ ss_writeVarInt nextStateStatus)) (\<lambda>c1.
     ebind (ss_writePacket c1 [ucast ss_packetIDStatusRequest]) (\<lambda>c2.
     ebind (emap (Wrapf ''read status response: %w'' [])
       (connRead (\<lambda>r. ss_readPacket r maxPacketLength) c2)) (\<lambda>(statusResponse, c3).
     ebind (emap (Wrapf ''read status response packet id: %w'' [])
       (ss_readVarIntFromBytes statusResponse)) (\<lambda>(packetID, consumed).
     if packetID \<noteq> packetIDStatusResponse then
       Inl (Errorf ''unexpected status response packet id: %d'' [AInt (sint packetID)])
     else
     ebind (emap (Wrapf ''read status response payload: %w'' [])
       (ss_readStringFromBytes (drop consumed statusResponse) maxStatusJSONLength)) (\<lambda>_.
     ebind (ss_writePacket c3 (ss_writeVarInt packetIDPing @ putUint64 pingToken)) (\<lambda>c4.
     ebind (emap (Wrapf ''read pong: %w'' [])
       (connRead (\<lambda>r. ss_readPacket r maxPacketLength) c4)) (\<lambda>(pongPacket, c5).
     ebind (emap (Wrapf ''read pong packet id: %w'' [])
       (ss_readVarIntFromBytes pongPacket)) (\<lambda>(pongID, pongConsumed).
     if pongID \<noteq> packetIDPong then
       Inl (Errorf ''unexpected pong packet id: %d'' [AInt (sint pongID)])
     else if length (drop pongConsumed pongPacket) \<noteq> 8 then
       Inl (Errorf ''unexpected pong payload size: %d'' [AInt (int (length (drop pongConsumed pongPacket)))])
     else if drop pongConsumed pongPacket \<noteq> putUint64 pingToken then
       Inl (ErrNew ''pong token mismatch'')
     else Inr ()))))))))))"

text \<open>\<^verbatim>\<open>Probe\<close>: the port check, the dial with its timeout (a parameter) and the exchange.\<close>

definition Probe ::
  "(int \<Rightarrow> string \<Rightarrow> string \<Rightarrow> conn result) \<Rightarrow> int \<Rightarrow> string \<Rightarrow> string \<Rightarrow> int \<Rightarrow> int \<Rightarrow> unit result" where
  "Probe dial now network host port timeout =
     (if port < 0 \<or> port > 65535 then Inl (Errorf ''invalid port %d'' [AInt port])
      else
        ebind (dial timeout network (joinHostPort host (itoa port))) (\<lambda>c. probeConn now c host port timeout))"

section \<open>The two implementations of the format agree\<close>

lemma ss_readVarInt_loop_eq: "ss_readVarInt_loop n res r = readVarInt_loop n res r"
proof (induction n res r rule: readVarInt_loop.induct)
  case (1 n res r)
  show ?case
  proof (cases "5 \<le> n")
    case True
    then show ?thesis
      by (subst ss_readVarInt_loop.simps, subst readVarInt_loop.simps) (simp add: maxVarIntBytes_def)
  next
    case False
    then have "ebind (readFull 1 r) (\<lambda>(one, r').
          let res' = res OR push_bit (7 * n) (ucast (one ! 0 AND 0x7F))
          in if one ! 0 AND 0x80 = 0 then Inr (res', r') else ss_readVarInt_loop (n + 1) res' r') =
        ebind (readFull 1 r) (\<lambda>(one, r').
          let res' = res OR push_bit (7 * n) (ucast (one ! 0 AND 0x7F))
          in if one ! 0 AND 0x80 = 0 then Inr (res', r') else readVarInt_loop (n + 1) res' r')"
      using "1.IH" by (cases "readFull 1 r") (auto simp: Let_def)
    with False show ?thesis
      by (subst ss_readVarInt_loop.simps, subst readVarInt_loop.simps) (simp add: maxVarIntBytes_def)
  qed
qed

lemma ss_readVarInt_eq: "ss_readVarInt = readVarInt"
  by (rule ext) (simp add: ss_readVarInt_def readVarInt_def ss_readVarInt_loop_eq)

lemma small_iff_drop_bit: "u AND NOT 0x7F = 0 \<longleftrightarrow> drop_bit 7 u = (0 :: 32 word)"
proof
  assume a: "u AND NOT 0x7F = 0"
  show "drop_bit 7 u = 0"
    by (rule bit_eqI) (use varint_low_bits [OF a] in \<open>fastforce simp: varint_bits\<close>)
next
  assume a: "drop_bit 7 u = 0"
  have "i < 7" if "bit u i" for i
  proof (rule ccontr)
    assume "\<not> i < 7"
    then have "bit (drop_bit 7 u) (i - 7)" using that by (simp add: varint_bits)
    with a show False by simp
  qed
  then show "u AND NOT 0x7F = 0"
    by (intro bit_eqI) (auto simp: varint_bits not_le)
qed

lemma ss_writeVarInt_loop_eq: "ss_writeVarInt_loop u = writeVarInt_loop u"
proof (induction u rule: writeVarInt_loop.induct)
  case (1 u)
  have low: "(ucast (u AND 0x7F) :: byte) = ucast u" if "u AND NOT 0x7F = 0"
    using writeVarInt_loop_last(3) [OF that] by simp
  have more: "(ucast (u AND 0x7F) :: byte) OR 0x80 = ucast (u AND 0x7F OR 0x80)"
    by (rule bit_eqI) (auto simp: varint_bits)
  show ?case
    using "1.IH" low more small_iff_drop_bit [of u]
    by (subst ss_writeVarInt_loop.simps, subst writeVarInt_loop.simps) (simp add: Let_def)
qed

lemma ss_writeVarInt_eq: "ss_writeVarInt = writeVarInt"
  by (rule ext) (simp add: ss_writeVarInt_def writeVarInt_def ss_writeVarInt_loop_eq)

lemma ss_readVarIntFromBytes_loop_eq:
  "n \<le> length p \<Longrightarrow> ss_readVarIntFromBytes_loop n res p =
     emap (\<lambda>e. if e = EOF then ErrUnexpectedEOF else e)
       (ebind (readVarInt_loop n res (drop n p, EOF)) (\<lambda>(v, r). Inr (v, length p - length (fst r))))"
proof (induction n res p rule: ss_readVarIntFromBytes_loop.induct)
  case (1 n res p)
  consider (long) "5 \<le> n" | (short) "n < 5" "n = length p" | (step) "n < 5" "n < length p"
    using "1.prems" by linarith
  then show ?case
  proof cases
    case long
    then show ?thesis
      by (subst ss_readVarIntFromBytes_loop.simps) (simp add: readVarInt_loop_stop maxVarIntBytes_def errVarIntTooLong_def)
  next
    case short
    then show ?thesis
      by (subst ss_readVarIntFromBytes_loop.simps) (simp add: readVarInt_loop_stop maxVarIntBytes_def)
  next
    case step
    have d: "drop n p = p ! n # drop (Suc n) p"
      using step by (simp add: Cons_nth_drop_Suc)
    show ?thesis
      using step "1.IH"
      by (subst ss_readVarIntFromBytes_loop.simps)
        (auto simp: d readVarInt_loop_step maxVarIntBytes_def Let_def)
  qed
qed

lemma ss_readVarIntFromBytes_eq:
  "ss_readVarIntFromBytes p = emap (\<lambda>e. if e = EOF then ErrUnexpectedEOF else e) (readVarIntFromBytes p)"
  using ss_readVarIntFromBytes_loop_eq [of 0 p 0]
  by (simp add: ss_readVarIntFromBytes_def readVarIntFromBytes_def readVarInt_def)

text \<open>Every writer with every reader: client to server, server to client, and the server with itself.\<close>

interpretation c2s: packet_link writeVarInt ss_readVarInt ss_readPacket
  by unfold_locales (simp_all add: ss_readVarInt_eq readVarInt_writeVarInt ss_readPacket_def)

interpretation c2s_fields: string_link writeVarInt ss_readVarIntFromBytes ss_readStringFromBytes
  by unfold_locales
    (simp_all add: ss_readVarIntFromBytes_eq client_fields.field_enc ss_readStringFromBytes_def Let_def)

interpretation s2c: packet_link ss_writeVarInt readVarInt readPacket
  by unfold_locales (simp_all add: ss_writeVarInt_eq readVarInt_writeVarInt readPacket_def)

interpretation s2c_fields: string_link ss_writeVarInt readVarIntFromBytes readStringFromBytes
  by unfold_locales
    (simp_all add: ss_writeVarInt_eq client_fields.field_enc readStringFromBytes_def Let_def)

interpretation server: packet_link ss_writeVarInt ss_readVarInt ss_readPacket
  by unfold_locales (simp_all add: ss_writeVarInt_eq ss_readVarInt_eq readVarInt_writeVarInt ss_readPacket_def)

interpretation server_fields: string_link ss_writeVarInt ss_readVarIntFromBytes ss_readStringFromBytes
  by unfold_locales (simp_all add: ss_writeVarInt_eq c2s_fields.field_enc ss_readStringFromBytes_def Let_def)

section \<open>The exchange\<close>

text \<open>The bytes of the status response and of the pong.\<close>

definition statusPayload :: "string \<Rightarrow> byte list" where
  "statusPayload json =
     writeVarInt packetIDStatusResponse @ writeVarInt (of_nat (length json)) @ bytes_of json"

lemma ss_writePacket_frame:
  "payload \<noteq> [] \<Longrightarrow> int (length payload) \<le> maxPacketLength \<Longrightarrow>
     ss_writePacket w payload = connWrite w (frame payload)"
  by (simp add: ss_writePacket_def frame_def ss_writeVarInt_eq)

lemma ss_readPacket_frame:
  "payload \<noteq> [] \<Longrightarrow> int (length payload) \<le> maxPacketLength \<Longrightarrow>
     ss_readPacket (frame payload @ rest, e) maxPacketLength = Inr (payload, (rest, e))"
  using c2s.unpack_frame [of payload maxPacketLength rest e] by (simp add: frame_def maxPacketLength_def)

lemma statusPayload_not_Nil [simp]: "statusPayload json \<noteq> []"
  by (simp add: statusPayload_def)

lemma length_statusPayload:
  "int (length json) \<le> maxStatusJSONLength \<Longrightarrow> int (length (statusPayload json)) \<le> maxPacketLength"
  using length_writeVarInt [of packetIDStatusResponse] length_writeVarInt [of "of_nat (length json)"]
  by (simp add: statusPayload_def maxStatusJSONLength_def maxPacketLength_def)

lemma sendStatusJSON_ok:
  assumes "utf8Valid (bytes_of json)" and "int (length json) \<le> maxStatusJSONLength"
  shows "sendStatusJSON w json = connWrite w (frame (statusPayload json))"
  using assms length_statusPayload [OF assms(2)]
  by (simp add: sendStatusJSON_def ss_writeString_def ss_writePacket_frame ss_writeVarInt_eq flip: statusPayload_def)

lemma sendPong_ok: "sendPong w token = connWrite w (frame (pingPayload token))"
proof -
  have "ss_writeVarInt packetIDPong @ putUint64 token = pingPayload token"
    by (simp add: pingPayload_def ss_writeVarInt_eq packetIDPong_def packetIDPing_def)
  then show ?thesis
    using length_pingPayload [of token] by (simp add: sendPong_def ss_writePacket_frame maxPacketLength_def)
qed

lemma expectPingToken_frame:
  "expectPingToken (frame (pingPayload token) @ rest, e) = Inr (token, (rest, e))"
proof -
  have "ss_readPacket (frame (pingPayload token) @ rest, e) maxPacketLength = Inr (pingPayload token, (rest, e))"
    using length_pingPayload [of token] by (intro ss_readPacket_frame) (simp_all add: maxPacketLength_def)
  moreover have "ss_readVarIntFromBytes (pingPayload token) = Inr (packetIDPing, length (writeVarInt packetIDPing))"
    using c2s_fields.field_enc [of packetIDPing "putUint64 token"] by (simp add: pingPayload_def)
  ultimately show ?thesis
    by (simp add: expectPingToken_def) (simp add: pingPayload_def)
qed

lemma expectStatusHandshake_frames:
  assumes "utf8Valid (bytes_of host)" and "int (length host) \<le> 255"
  shows "expectStatusHandshake
      (frame (handshakePayload host port) @ frame [packetIDStatusRequest] @ rest, e) = Inr ((), (rest, e))"
proof -
  let ?hs = "handshakePayload host port"
  let ?l = "writeVarInt (of_nat (length host))"
  note f = c2s_fields.field_enc
  have pkt: "ss_readPacket (frame ?hs @ frame [packetIDStatusRequest] @ rest, e) maxPacketLength =
      Inr (?hs, (frame [packetIDStatusRequest] @ rest, e))"
    using length_handshakePayload [OF assms(2), of port]
    by (intro ss_readPacket_frame) (simp_all add: maxPacketLength_def)
  have req: "ss_readPacket (frame [packetIDStatusRequest] @ rest, e) maxPacketLength =
      Inr ([packetIDStatusRequest], (rest, e))"
    by (rule ss_readPacket_frame) (simp_all add: maxPacketLength_def)
  have str: "ss_readStringFromBytes (?l @ bytes_of host @ putUint16 port @ writeVarInt nextStateStatus)
      maxHandshakeHostByteSize = Inr (host, length ?l + length host)"
    using c2s_fields.str_enc [of host maxHandshakeHostByteSize "putUint16 port @ writeVarInt nextStateStatus"] assms
    by (simp add: maxHandshakeHostByteSize_def)
  have rid: "ss_readVarIntFromBytes [packetIDStatusRequest] = Inr (ss_packetIDStatusRequest, 1)"
    by code_simp
  have last: "ss_readVarIntFromBytes (writeVarInt nextStateStatus) =
      Inr (nextStateStatus, length (writeVarInt nextStateStatus))"
    using f [of nextStateStatus "[]"] by simp
  show ?thesis
    unfolding expectStatusHandshake_def
    by (simp add: pkt Let_def)
      (simp add: handshakePayload_def f str last req rid)
qed

lemma readStatusResponse_frame:
  assumes "utf8Valid (bytes_of json)" and "int (length json) \<le> maxStatusJSONLength"
  shows "readStatusResponse (frame (statusPayload json) @ rest, e) =
    (case unmarshalAny json of
       None \<Rightarrow> Inl (ErrNew ''invalid status response JSON'')
     | Some JOther \<Rightarrow> Inl (ErrNew ''invalid status response JSON: expected top-level object'')
     | Some JObject \<Rightarrow> Inr ((), (rest, e)))"
proof -
  let ?i = "writeVarInt packetIDStatusResponse"
  let ?l = "writeVarInt (of_nat (length json))"
  have pkt: "readPacket (frame (statusPayload json) @ rest, e) maxPacketLength = Inr (statusPayload json, (rest, e))"
    by (rule readPacket_frame) (simp_all add: length_statusPayload assms)
  have fid: "readVarIntFromBytes (statusPayload json) = Inr (packetIDStatusResponse, length ?i)"
    using client_fields.field_enc [of packetIDStatusResponse "?l @ bytes_of json"] by (simp add: statusPayload_def)
  have str: "readStringFromBytes (?l @ bytes_of json) maxStatusJSONLength = Inr (json, length ?l + length json)"
    using client_fields.str_enc [of json maxStatusJSONLength "[]"] assms by (simp add: maxStatusJSONLength_def)
  have drop: "drop (length ?i) (statusPayload json) = ?l @ bytes_of json"
    and len: "length (statusPayload json) = length ?i + (length ?l + length json)"
    by (simp_all add: statusPayload_def)
  show ?thesis
    by (simp add: readStatusResponse_def pkt fid drop len str)
qed

text \<open>
  The server as the peer of a client: what it has sent once it has received the stream \<open>inp\<close>. The
  server waits for the rest of a packet, and its connection times out when none comes.
\<close>

definition stagingPeer :: "string \<Rightarrow> byte list \<Rightarrow> byte list" where
  "stagingPeer json inp = conn_sent (snd (handleConn 0 (connTo (\<lambda>_. inp)) json (10 * 1000000000)))"

lemma expectPingToken_empty: "expectPingToken ([], e) = Inl e"
  by (simp add: expectPingToken_def ss_readPacket_def ss_readVarInt_eq readVarInt_def readVarInt_loop_stop)

definition helloBytes :: "string \<Rightarrow> u16 \<Rightarrow> byte list" where
  "helloBytes host port = frame (handshakePayload host port) @ frame [packetIDStatusRequest]"

lemma handleConn_hello:
  assumes "utf8Valid (bytes_of host)" "int (length host) \<le> 255"
    and "utf8Valid (bytes_of json)" "int (length json) \<le> maxStatusJSONLength"
  shows "handleConn now (connTo (\<lambda>_. helloBytes host port @ rest)) json deadline =
    (case connRead expectPingToken
        ((connTo (\<lambda>_. helloBytes host port @ rest))
           \<lparr>conn_taken := length (helloBytes host port), conn_sent := frame (statusPayload json)\<rparr>) of
       Inl e \<Rightarrow> (Inl e, (connTo (\<lambda>_. helloBytes host port @ rest))
           \<lparr>conn_taken := length (helloBytes host port), conn_sent := frame (statusPayload json)\<rparr>)
     | Inr (token, c3) \<Rightarrow>
         (case sendPong c3 token of Inl e \<Rightarrow> (Inl e, c3) | Inr c4 \<Rightarrow> (Inr (), c4)))"
proof -
  let ?c = "connTo (\<lambda>_. helloBytes host port @ rest)"
  have "connRead expectStatusHandshake ?c = Inr ((), ?c\<lparr>conn_taken := length (helloBytes host port)\<rparr>)"
    using connRead_msg [of ?c "[]" "helloBytes host port" rest expectStatusHandshake "()"]
      expectStatusHandshake_frames [OF assms(1,2), of port rest ErrTimeout]
    by (simp add: helloBytes_def)
  then show ?thesis
    by (simp add: handleConn_def setDeadline_def sendStatusJSON_ok assms connWrite_ok)
qed

lemma stagingPeer_hello:
  assumes "utf8Valid (bytes_of host)" "int (length host) \<le> 255"
    and "utf8Valid (bytes_of json)" "int (length json) \<le> maxStatusJSONLength"
  shows "stagingPeer json (helloBytes host port) = frame (statusPayload json)"
  using handleConn_hello [OF assms, of 0 port "[]"]
  by (simp add: stagingPeer_def connRead_def connReader_def expectPingToken_empty)

lemma stagingPeer_ping:
  assumes "utf8Valid (bytes_of host)" "int (length host) \<le> 255"
    and "utf8Valid (bytes_of json)" "int (length json) \<le> maxStatusJSONLength"
  shows "stagingPeer json (helloBytes host port @ frame (pingPayload token)) =
    frame (statusPayload json) @ frame (pingPayload token)"
  using handleConn_hello [OF assms, of 0 port "frame (pingPayload token)"]
    expectPingToken_frame [of token "[]" ErrTimeout]
  by (simp add: stagingPeer_def connRead_def connReader_def sendPong_ok connWrite_ok)

lemma harness_fields:
  assumes "utf8Valid (bytes_of json)" "int (length json) \<le> maxStatusJSONLength"
  shows "ss_readVarIntFromBytes (statusPayload json) = Inr (packetIDStatusResponse, length (writeVarInt packetIDStatusResponse))"
    and "ss_readStringFromBytes (drop (length (writeVarInt packetIDStatusResponse)) (statusPayload json)) maxStatusJSONLength =
      Inr (json, length (writeVarInt (of_nat (length json))) + length json)"
    and "ss_readVarIntFromBytes (pingPayload token) = Inr (packetIDPong, length (writeVarInt packetIDPing))"
    and "drop (length (writeVarInt packetIDPing)) (pingPayload token) = putUint64 token" and "length (putUint64 token) = 8"
  using c2s_fields.field_enc [of packetIDStatusResponse "writeVarInt (of_nat (length json)) @ bytes_of json"]
    c2s_fields.str_enc [of json maxStatusJSONLength "[]"] c2s_fields.field_enc [of packetIDPing "putUint64 token"] assms
  by (simp_all add: statusPayload_def pingPayload_def maxStatusJSONLength_def packetIDPong_def packetIDPing_def)

section \<open>Properties\<close>

text \<open>
  C14: the two implementations of the wire format are the same function: the client's and the server's
  VarInt writers and stream readers agree on every input, and their readers of a VarInt inside a packet
  differ only in the error for a packet that ends early.
\<close>

theorem wire_formats_agree:
  "ss_writeVarInt = writeVarInt \<and> ss_readVarInt = readVarInt \<and> ss_readPacket = readPacket \<and>
   ss_readVarIntFromBytes p = emap (\<lambda>e. if e = EOF then ErrUnexpectedEOF else e) (readVarIntFromBytes p)"
  by (simp add: ss_writeVarInt_eq ss_readVarInt_eq ss_readVarIntFromBytes_eq fun_eq_iff ss_readPacket_def readPacket_def)

text \<open>
  C20: the handler of the staging server, fed with the bytes of a whole client exchange (handshake, status
  request, ping), reports success; it has sent the status document and the pong with the client's token,
  and nothing else.
\<close>

theorem handleConn_serves_exchange:
  assumes "utf8Valid (bytes_of host)" "int (length host) \<le> 255"
    and "utf8Valid (bytes_of json)" "int (length json) \<le> maxStatusJSONLength"
  shows "\<exists>c. handleConn now (connTo (\<lambda>_. helloBytes host port @ frame (pingPayload token))) json deadline = (Inr (), c) \<and>
    conn_sent c = frame (statusPayload json) @ frame (pingPayload token)"
  using handleConn_hello [OF assms, of now port "frame (pingPayload token)"]
    expectPingToken_frame [of token "[]" ErrTimeout]
  by (simp add: connRead_def connReader_def sendPong_ok connWrite_ok)

theorem handleConn_serves_exchange_witness:
  "\<exists>c. handleConn 0 (connTo (\<lambda>_. helloBytes ''localhost'' 25565 @ frame (pingPayload 42))) DefaultStatusJSON 10 = (Inr (), c) \<and>
     conn_sent c = frame (statusPayload DefaultStatusJSON) @ frame (pingPayload 42)"
  by (rule handleConn_serves_exchange; code_simp)

text \<open>
  C40: a JSON document of the allowed length that is not UTF-8 passes the check at the start of the server, but
  is never served: every exchange ends with an error after the handshake,
  and no byte of a response is sent. There are such documents: that of the witness has the byte 255 in a string.
\<close>

theorem status_not_utf8_never_served:
  assumes "jsonValid json" and "int (length json) \<le> maxStatusJSONLength" and "\<not> utf8Valid (bytes_of json)"
    and "utf8Valid (bytes_of host)" "int (length host) \<le> 255"
  shows "validateStatusJSON json = Inr () \<and>
    (\<exists>c. handleConn now (connTo (\<lambda>_. helloBytes host port @ rest)) json deadline =
      (Inl (ErrNew ''string payload is not valid UTF-8''), c) \<and> conn_sent c = [])"
proof
  let ?c = "connTo (\<lambda>_. helloBytes host port @ rest)"
  show "validateStatusJSON json = Inr ()"
    using assms(1,2) by (simp add: validateStatusJSON_def)
  have "connRead expectStatusHandshake ?c = Inr ((), ?c\<lparr>conn_taken := length (helloBytes host port)\<rparr>)"
    using connRead_msg [of ?c "[]" "helloBytes host port" rest expectStatusHandshake "()"]
      expectStatusHandshake_frames [OF assms(4,5), of port rest ErrTimeout]
    by (simp add: helloBytes_def)
  then show "\<exists>c. handleConn now ?c json deadline =
      (Inl (ErrNew ''string payload is not valid UTF-8''), c) \<and> conn_sent c = []"
    using assms(3) by (simp add: handleConn_def setDeadline_def sendStatusJSON_def ss_writeString_def)
qed

definition exampleBadStatus :: string where
  "exampleBadStatus = ''{\"text\":\"'' @ [CHR 0xFF] @ ''\"}''"

theorem status_not_utf8_never_served_witness:
  "validateStatusJSON exampleBadStatus = Inr () \<and>
   (\<exists>c. handleConn 0 (connTo (\<lambda>_. helloBytes ''localhost'' 25565 @ [])) exampleBadStatus 10 =
      (Inl (ErrNew ''string payload is not valid UTF-8''), c) \<and> conn_sent c = [])"
  by (rule status_not_utf8_never_served; code_simp)

text \<open>
  The Java probe of the integration harness succeeds against the staging server, for every host name of
  at most 255 bytes of UTF-8, every port and every status document the server can send.
\<close>

theorem harness_java_probe_succeeds:
  assumes dial: "dial timeout network (joinHostPort host (itoa port)) = Inr (connTo (stagingPeer json))"
    and host: "utf8Valid (bytes_of host)" "int (length host) \<le> 255"
    and json: "utf8Valid (bytes_of json)" "int (length json) \<le> maxStatusJSONLength"
    and port: "0 \<le> port" "port \<le> 65535"
  shows "Probe dial now network host port timeout = Inr ()"
proof -
  let ?p = "of_int port :: u16"
  let ?hello = "helloBytes host ?p" and ?status = "frame (statusPayload json)" and ?pong = "frame (pingPayload pingToken)"
  let ?conn = "connTo (stagingPeer json)"
  let ?c2 = "?conn\<lparr>conn_sent := ?hello\<rparr>"
  let ?c3 = "?c2\<lparr>conn_taken := length ?status\<rparr>"
  let ?c4 = "?conn\<lparr>conn_taken := length ?status, conn_sent := ?hello @ ?pong\<rparr>"
  have name: "ss_writeString host maxHandshakeHostByteSize = Inr (writeVarInt (of_nat (length host)) @ bytes_of host)"
    using host by (simp add: ss_writeString_def maxHandshakeHostByteSize_def ss_writeVarInt_eq)
  have hs: "ss_writePacket ?conn (handshakePayload host ?p) = Inr (?conn\<lparr>conn_sent := frame (handshakePayload host ?p)\<rparr>)"
    using length_handshakePayload [OF host(2), of ?p]
    by (subst ss_writePacket_frame) (simp_all add: maxPacketLength_def connWrite_ok)
  have rq: "ss_writePacket (?conn\<lparr>conn_sent := frame (handshakePayload host ?p)\<rparr>) [packetIDStatusRequest] = Inr ?c2"
    by (subst ss_writePacket_frame) (simp_all add: maxPacketLength_def connWrite_ok helloBytes_def)
  have st: "connRead (\<lambda>r. ss_readPacket r maxPacketLength) ?c2 = Inr (statusPayload json, ?c3)"
    using connRead_msg [of ?c2 "[]" ?status "[]" "\<lambda>r. ss_readPacket r maxPacketLength" "statusPayload json"]
      ss_readPacket_frame [OF statusPayload_not_Nil length_statusPayload [OF json(2)], of "[]" ErrTimeout]
      stagingPeer_hello [OF host json, of ?p]
    by simp
  have pg: "ss_writePacket ?c3 (pingPayload pingToken) = Inr ?c4"
    using length_pingPayload [of pingToken]
    by (subst ss_writePacket_frame) (simp_all add: maxPacketLength_def connWrite_ok)
  have pong: "connRead (\<lambda>r. ss_readPacket r maxPacketLength) ?c4 =
      Inr (pingPayload pingToken, ?c4\<lparr>conn_taken := length ?status + length ?pong\<rparr>)"
    using connRead_msg [of ?c4 ?status ?pong "[]" "\<lambda>r. ss_readPacket r maxPacketLength" "pingPayload pingToken"]
      ss_readPacket_frame [of "pingPayload pingToken" "[]" ErrTimeout] length_pingPayload [of pingToken]
      stagingPeer_ping [OF host json, of ?p pingToken]
    by (simp add: maxPacketLength_def)
  have payloads: "ss_writeVarInt packetIDHandshake @ ss_writeVarInt statusProtocolVersion @
      (writeVarInt (of_nat (length host)) @ bytes_of host) @ putUint16 ?p @ ss_writeVarInt nextStateStatus =
      handshakePayload host ?p"
    "[ucast ss_packetIDStatusRequest] = [packetIDStatusRequest]"
    "ss_writeVarInt packetIDPing @ putUint64 pingToken = pingPayload pingToken"
    by (simp_all add: handshakePayload_def pingPayload_def ss_writeVarInt_eq ss_packetIDStatusRequest_def
        packetIDStatusRequest_def)
  note fields = harness_fields [OF json]
  have "probeConn now ?conn host port timeout = Inr ()"
    unfolding probeConn_def setDeadline_def
    by (simp only: connTo_simps option.case ebind_simps emap_simps prod.case name payloads hs rq st pg pong fields
        simp_thms if_False)
  with dial port show ?thesis by (simp add: Probe_def)
qed

theorem harness_java_probe_succeeds_witness:
  "Probe (\<lambda>_ _ _. Inr (connTo (stagingPeer DefaultStatusJSON))) 0 ''tcp4'' ''127.0.0.1'' 25565 5 = Inr ()"
  by (rule harness_java_probe_succeeds [of "\<lambda>_ _ _. Inr (connTo (stagingPeer DefaultStatusJSON))" _ _ _ _ DefaultStatusJSON, OF refl];
      code_simp)

end
