(* ===== verification/Java.thy ===== *)
theory Java
  imports Session Staging_Java
begin

text \<open>
  \<^verbatim>\<open>java.go\<close>: the Java Edition probe. The route of a target, with the SRV record of its domain; the
  prepared probe; and one ping: dial, handshake, status request and response, ping and pong.
\<close>

section \<open>Definitions\<close>

record javaPreparedProbe =
  jp_client :: pingClient
  jp_target :: targetSpec
  jp_route :: endpointRoute
  jp_candidates :: "dialCandidate list"
  jp_displayTarget :: addrPort

definition resolveJavaRouteContext :: "system \<Rightarrow> goctx \<Rightarrow> pingClient \<Rightarrow> targetSpec \<Rightarrow> endpointRoute result" where
  "resolveJavaRouteContext sys ctx c target =
     (let routeTarget = fallbackEndpoint target addressFamilyAny editionJava;
          route = \<lparr>Dial = routeTarget, Handshake = routeTarget\<rparr>
      in if PortExplicit target \<or> Port routeTarget \<noteq> defaultMinecraftPort then Inr route
         else if endpoint_literalIP routeTarget \<noteq> None then Inr route
         else
           (case LookupSRV (the (resolver (withDefaults sys c))) ''minecraft'' ''tcp'' (Host routeTarget) of
              Inr (record1 # records) \<Rightarrow>
                (let srvTarget = trimSuffix (srv_Target record1) ''.'' in
                 if srvTarget = '''' \<or> srv_Port record1 = 0 then Inr route
                 else
                   (let resolvedPort = uint (srv_Port record1) in
                    Inr \<lparr>Dial = \<lparr>Host = srvTarget, Port = resolvedPort\<rparr>,
                         Handshake = \<lparr>Host = Host routeTarget, Port = resolvedPort\<rparr>\<rparr>))
            | _ \<Rightarrow> (case ctx_Err ctx 0 of Some e \<Rightarrow> Inl e | None \<Rightarrow> Inr route)))"

definition prepareJavaProbe ::
  "system \<Rightarrow> goctx \<Rightarrow> pingClient \<Rightarrow> targetSpec \<Rightarrow> pingOptions \<Rightarrow> javaPreparedProbe result" where
  "prepareJavaProbe sys ctx client0 target options =
     (let client = withDefaults sys client0;
          wrap = Wrapf ''failed to resolve java server %s: %w'' [AStr (t_Host target)]
      in ebind (emap wrap (resolveJavaRouteContext sys ctx client target)) (\<lambda>route.
         ebind (emap wrap (resolveDialCandidates client (Dial route) options)) (\<lambda>candidates.
           Inr \<lparr>jp_client = client, jp_target = target, jp_route = route, jp_candidates = candidates,
                jp_displayTarget =
                  (if length candidates = 1 then cand_address (hd candidates) else zeroAddrPort)\<rparr>)))"

definition java_summaryLabel :: "javaPreparedProbe \<Rightarrow> bool \<Rightarrow> string" where
  "java_summaryLabel p numeric =
     (if numeric \<and> apIsValid (jp_displayTarget p) then addrString (ap_addr (jp_displayTarget p))
      else t_Host (jp_target p))"

definition java_banner :: "javaPreparedProbe \<Rightarrow> bool \<Rightarrow> string" where
  "java_banner p numeric =
     (let label = java_summaryLabel p numeric;
          displayPort = itoa (Port (Handshake (jp_route p)));
          shown = addrString (ap_addr (jp_displayTarget p));
          kind = edition_String editionJava
      in if apIsValid (jp_displayTarget p) \<and> \<not> numeric \<and> t_Host (jp_target p) \<noteq> shown then
           ''PING '' @ t_Host (jp_target p) @ '' ('' @ shown @ '') port '' @ displayPort @ '' ['' @ kind @ '']:''
         else if apIsValid (jp_displayTarget p) then
           ''PING '' @ shown @ '' port '' @ displayPort @ '' ['' @ kind @ '']:''
         else ''PING '' @ label @ '' port '' @ displayPort @ '' ['' @ kind @ '']:'')"

definition java_observeSample :: "javaPreparedProbe \<Rightarrow> probeSample \<Rightarrow> javaPreparedProbe" where
  "java_observeSample p sample =
     (if apIsValid (remote sample) then p\<lparr>jp_displayTarget := remote sample\<rparr> else p)"

text \<open>
  The exchange on the connection. The clock is read for the deadline when the context has none, before
  the ping is sent and after the pong.
\<close>

definition pingJavaPreparedContext ::
  "probeEnv \<Rightarrow> pingClient \<Rightarrow> endpointRoute \<Rightarrow> dialCandidate list \<Rightarrow> int \<Rightarrow> probeSample result" where
  "pingJavaPreparedContext env c0 route candidates0 timeout =
     (let c = withDefaults (env_sys env) c0;
          now = the (clock c);
          k = (case ctx_Deadline (env_ctx env) of Some _ \<Rightarrow> 0 | None \<Rightarrow> 1)
      in
     ebind (if candidates0 = [] then
              resolveDialCandidates c (Dial route)
                \<lparr>addressFamily_of = addressFamilyAny, allowPrivateAddresses = False\<rparr>
            else Inr candidates0) (\<lambda>candidates.
     ebind (dialCandidates c (env_sched env) candidates) (\<lambda>conn.
     ebind (setDeadline conn (case ctx_Deadline (env_ctx env) of Some t \<Rightarrow> t | None \<Rightarrow> now 0 + timeout)) (\<lambda>_.
     ebind (sendHandshakePacket conn (Handshake route)) (\<lambda>c1.
     ebind (sendStatusRequestPacket c1) (\<lambda>c2.
     ebind (connRead readStatusResponse c2) (\<lambda>(_, c3).
     ebind (the (tokenSource c)) (\<lambda>token.
     (let start = now k in
     ebind (sendPingPacket c3 token) (\<lambda>c4.
     ebind (connRead (\<lambda>r. readPongPacket r token) c4) (\<lambda>(_, c5).
       Inr \<lparr>latency = max (now (k + 1) - start) 1000000,
            remote = remoteAddrPort (env_lookupPort env) (conn_remote c5)\<rparr>)))))))))))"

definition java_probe :: "javaPreparedProbe \<Rightarrow> probeEnv \<Rightarrow> int \<Rightarrow> probeSample result" where
  "java_probe p env timeout =
     pingJavaPreparedContext env (jp_client p) (jp_route p) (jp_candidates p) timeout"

text \<open>The Java probe as a value of the interface \<^verbatim>\<open>preparedProbe\<close>.\<close>

definition javaOps :: "javaPreparedProbe probeOps" where
  "javaOps = \<lparr>op_banner = java_banner, op_summaryLabel = java_summaryLabel, op_observe = java_observeSample, op_probe = java_probe\<rparr>"

section \<open>The interface of the session\<close>

lemmas java_defs = java_summaryLabel_def java_observeSample_def java_probe_def

lemma pingJava_latency: "pingJavaPreparedContext env c route cands timeout = Inr s \<Longrightarrow> 1000000 \<le> latency s"
  by (auto simp: pingJavaPreparedContext_def Let_def result_simps)

interpretation java: prepared_probe java_banner java_summaryLabel java_observeSample java_probe
  "\<lambda>p. t_Host (jp_target p)" jp_displayTarget 1000000
  by unfold_locales (auto simp: java_defs pingJava_latency fun_eq_iff)

section \<open>Lemmas\<close>

lemma prepareJavaProbe_Inr:
  assumes "prepareJavaProbe sys ctx client target options = Inr p"
  shows "\<exists>route. resolveJavaRouteContext sys ctx (withDefaults sys client) target = Inr route \<and>
    jp_route p = route \<and> jp_client p = withDefaults sys client \<and> jp_target p = target \<and>
    resolveDialCandidates (withDefaults sys client) (Dial route) options = Inr (jp_candidates p)"
  using assms by (auto simp: prepareJavaProbe_def Let_def result_simps)

lemma resolveJavaRouteContext_withDefaults:
  "resolveJavaRouteContext sys ctx (withDefaults sys c) target = resolveJavaRouteContext sys ctx c target"
  unfolding resolveJavaRouteContext_def withDefaults_idem ..

text \<open>The connection a ping runs on, when the dial succeeds, and the bytes it writes before the ping.\<close>

lemma connWrite_Inr: "connWrite c bs = Inr c' \<longleftrightarrow> conn_wfail c (conn_sent c @ bs) = None \<and> c' = c\<lparr>conn_sent := conn_sent c @ bs\<rparr>"
  by (auto simp: connWrite_def split: option.splits)

lemma sendHandshakePacket_Inr:
  assumes "sendHandshakePacket c target = Inr c1"
  obtains port where "uint16Port target = Inr port" "int (length (Host target)) \<le> 255"
    "c1 = c\<lparr>conn_sent := conn_sent c @ frame (handshakePayload (Host target) port)\<rparr>"
proof -
  from assms obtain port where port: "uint16Port target = Inr port"
    and len: "int (length (Host target)) \<le> 255"
    by (auto simp: sendHandshakePacket_def writeString_def validateStringByteLength_def maxHandshakeHostByteSize_def
        result_simps split: if_splits)
  from assms sendHandshakePacket_ok [OF port len, of c] have
    "c1 = c\<lparr>conn_sent := conn_sent c @ frame (handshakePayload (Host target) port)\<rparr>"
    by (simp add: connWrite_Inr)
  with port len that show thesis by blast
qed

lemma connRead_Inr:
  "connRead parse c = Inr (x, c') \<Longrightarrow>
     \<exists>r n. parse (drop (conn_taken c) (conn_peer c (conn_sent c)), conn_rerr c) = Inr (x, r) \<and> c' = c\<lparr>conn_taken := n\<rparr>"
  by (auto simp: connRead_def connReader_def result_simps)

text \<open>A ping on a connection to the staging server, step by step.\<close>

lemma pingJava_staging:
  assumes dial: "candidates \<noteq> []"
      "dialCandidates (withDefaults (env_sys env) c) (env_sched env) candidates =
         Inr ((connTo (stagingPeer json))\<lparr>conn_remote := ra\<rparr>)"
    and host: "utf8Valid (bytes_of (Host (Handshake route)))" "int (length (Host (Handshake route))) \<le> 255"
    and port: "uint16Port (Handshake route) = Inr port"
    and json: "utf8Valid (bytes_of json)" "int (length json) \<le> maxStatusJSONLength" "unmarshalAny json = Some JObject"
    and token: "the (tokenSource (withDefaults (env_sys env) c)) = Inr token"
    and ctx: "ctx_Deadline (env_ctx env) = None"
  shows "pingJavaPreparedContext env c route candidates timeout =
    Inr \<lparr>latency = max (the (clock (withDefaults (env_sys env) c)) 2 - the (clock (withDefaults (env_sys env) c)) 1) 1000000,
         remote = remoteAddrPort (env_lookupPort env) ra\<rparr>"
proof -
  let ?h = "Host (Handshake route)"
  let ?conn = "(connTo (stagingPeer json))\<lparr>conn_remote := ra\<rparr>"
  let ?hello = "helloBytes ?h port"
  let ?status = "frame (statusPayload json)" and ?pong = "frame (pingPayload token)"
  let ?c2 = "?conn\<lparr>conn_sent := ?hello\<rparr>"
  let ?c3 = "?c2\<lparr>conn_taken := length ?status\<rparr>"
  let ?c4 = "?conn\<lparr>conn_taken := length ?status, conn_sent := ?hello @ ?pong\<rparr>"
  have hs: "sendHandshakePacket ?conn (Handshake route) = Inr (?conn\<lparr>conn_sent := frame (handshakePayload ?h port)\<rparr>)"
    by (simp add: sendHandshakePacket_ok [OF port host(2)] connWrite_ok)
  have rq: "sendStatusRequestPacket (?conn\<lparr>conn_sent := frame (handshakePayload ?h port)\<rparr>) = Inr ?c2"
    by (simp add: sendStatusRequestPacket_ok connWrite_ok helloBytes_def)
  have st: "connRead readStatusResponse ?c2 = Inr ((), ?c3)"
    using connRead_msg [of ?c2 "[]" ?status "[]" readStatusResponse "()"]
      readStatusResponse_frame [OF json(1,2), of "[]" ErrTimeout] stagingPeer_hello [OF host json(1,2), of port] json(3)
    by simp
  have pg: "sendPingPacket ?c3 token = Inr ?c4"
    by (simp add: sendPingPacket_ok connWrite_ok)
  have pong: "connRead (\<lambda>r. readPongPacket r token) ?c4 = Inr ((), ?c4\<lparr>conn_taken := length ?status + length ?pong\<rparr>)"
    using connRead_msg [of ?c4 ?status ?pong "[]" "\<lambda>r. readPongPacket r token" "()"]
      readPongPacket_frame [of token "[]" ErrTimeout token] stagingPeer_ping [OF host json(1,2), of port token]
    by simp
  show ?thesis
    using dial by (simp add: pingJavaPreparedContext_def Let_def ctx setDeadline_def hs rq st pg pong token
        numeral_2_eq_2)
qed

section \<open>Properties\<close>

text \<open>
  C15: the route of a Java target, in every case. A destination with an explicit port, or a literal address,
  is dialled itself. For a name without a port the service record \<^verbatim>\<open>_minecraft._tcp\<close> decides: its first record,
  when it has a target and a port, gives the host (without the final dot) and the port that are dialled; a
  first record without one of them is ignored; a failed or empty lookup gives the error of the context, if that
  has ended, and is ignored otherwise. Where the record is ignored the name itself is dialled at port 25565. The
  handshake always names the destination the user gave, with the port that is dialled, and a prepared probe
  has this route and the candidates of its dialled host.
\<close>

theorem java_route_follows_srv:
  fixes own :: endpoint
  assumes lookup: "lookup = LookupSRV (the (resolver (withDefaults sys c))) ''minecraft'' ''tcp'' (t_Host target)"
    and own: "own = \<lparr>Host = t_Host target, Port = (if PortExplicit target then t_Port target else 25565)\<rparr>"
  shows "(PortExplicit target \<or> parseAddr (t_Host target) \<noteq> None \<longrightarrow>
      resolveJavaRouteContext sys ctx c target = Inr \<lparr>Dial = own, Handshake = own\<rparr>) \<and>
    (\<not> PortExplicit target \<and> parseAddr (t_Host target) = None \<longrightarrow>
      (\<forall>record1 records. lookup = Inr (record1 # records) \<longrightarrow>
        (trimSuffix (srv_Target record1) ''.'' \<noteq> '''' \<and> srv_Port record1 \<noteq> 0 \<longrightarrow>
          resolveJavaRouteContext sys ctx c target =
            Inr \<lparr>Dial = \<lparr>Host = trimSuffix (srv_Target record1) ''.'', Port = uint (srv_Port record1)\<rparr>,
                 Handshake = \<lparr>Host = t_Host target, Port = uint (srv_Port record1)\<rparr>\<rparr>) \<and>
        (trimSuffix (srv_Target record1) ''.'' = '''' \<or> srv_Port record1 = 0 \<longrightarrow>
          resolveJavaRouteContext sys ctx c target = Inr \<lparr>Dial = own, Handshake = own\<rparr>)) \<and>
      (isl lookup \<or> lookup = Inr [] \<longrightarrow>
        resolveJavaRouteContext sys ctx c target =
          (case ctx_Err ctx 0 of Some e \<Rightarrow> Inl e | None \<Rightarrow> Inr \<lparr>Dial = own, Handshake = own\<rparr>))) \<and>
    (\<forall>route. resolveJavaRouteContext sys ctx c target = Inr route \<longrightarrow>
      Host (Handshake route) = t_Host target \<and> Port (Handshake route) = Port (Dial route)) \<and>
    (\<forall>options p. prepareJavaProbe sys ctx c target options = Inr p \<longrightarrow>
      resolveJavaRouteContext sys ctx c target = Inr (jp_route p) \<and>
      resolveDialCandidates (withDefaults sys c) (Dial (jp_route p)) options = Inr (jp_candidates p))"
proof -
  note route_simps = resolveJavaRouteContext_def Let_def fallbackEndpoint_def defaultPort_def defaultJavaPort_def
    defaultMinecraftPort_def endpoint_literalIP_def
  have given: "PortExplicit target \<or> parseAddr (t_Host target) \<noteq> None \<Longrightarrow>
      resolveJavaRouteContext sys ctx c target = Inr \<lparr>Dial = own, Handshake = own\<rparr>"
    by (auto simp: route_simps own)
  have name: "resolveJavaRouteContext sys ctx c target =
      (case lookup of
         Inr (r # rs) \<Rightarrow>
           if trimSuffix (srv_Target r) ''.'' = '''' \<or> srv_Port r = 0 then Inr \<lparr>Dial = own, Handshake = own\<rparr>
           else Inr \<lparr>Dial = \<lparr>Host = trimSuffix (srv_Target r) ''.'', Port = uint (srv_Port r)\<rparr>,
                     Handshake = \<lparr>Host = t_Host target, Port = uint (srv_Port r)\<rparr>\<rparr>
       | _ \<Rightarrow> (case ctx_Err ctx 0 of Some e \<Rightarrow> Inl e | None \<Rightarrow> Inr \<lparr>Dial = own, Handshake = own\<rparr>))"
    if "\<not> PortExplicit target" "parseAddr (t_Host target) = None"
    using that by (simp add: route_simps own lookup split: sum.split list.split option.split)
  have handshake: "Host (Handshake route) = t_Host target \<and> Port (Handshake route) = Port (Dial route)"
    if "resolveJavaRouteContext sys ctx c target = Inr route" for route
    using that by (auto simp: route_simps split: if_splits sum.splits list.splits option.splits)
  have prepared: "resolveJavaRouteContext sys ctx c target = Inr (jp_route p) \<and>
      resolveDialCandidates (withDefaults sys c) (Dial (jp_route p)) options = Inr (jp_candidates p)"
    if "prepareJavaProbe sys ctx c target options = Inr p" for options p
    using prepareJavaProbe_Inr [OF that] by (auto simp: resolveJavaRouteContext_withDefaults)
  have lost: "(case lookup of Inr (r # rs) \<Rightarrow> f r rs | _ \<Rightarrow> a) = a" if "isl lookup \<or> lookup = Inr []" for f and a :: "endpointRoute result"
    using that by (cases lookup) auto
  show ?thesis
    using given name lost handshake prepared by (intro conjI allI impI) auto
qed

lemma java_probe_permitted:
  assumes "prepareJavaProbe sys ctx client target options = Inr p"
    and "complete_schedule (env_sched env) (jp_candidates p)"
    and "\<And>x. permitted options x \<Longrightarrow> d (cand_Network x) (cand_String x) = d' (cand_Network x) (cand_String x)"
  shows "java_probe (p\<lparr>jp_client := (jp_client p)\<lparr>dialContext := Some d\<rparr>\<rparr>) env timeout =
    java_probe (p\<lparr>jp_client := (jp_client p)\<lparr>dialContext := Some d'\<rparr>\<rparr>) env timeout"
proof -
  from prepareJavaProbe_Inr [OF assms(1)] obtain c and route :: endpointRoute
    where cands: "resolveDialCandidates c (Dial route) options = Inr (jp_candidates p)" by auto
  then have "jp_candidates p \<noteq> []" using resolveDialCandidates_permitted by blast
  moreover have "dialCandidates (c'\<lparr>dialContext := Some d\<rparr>) (env_sched env) (jp_candidates p) =
      dialCandidates (c'\<lparr>dialContext := Some d'\<rparr>) (env_sched env) (jp_candidates p)" for c'
    using java_source.dialled_permitted [of options "(c, Dial route)" "jp_candidates p" "env_sched env"
        "c'\<lparr>dialContext := Some d\<rparr>" d'] cands assms(2,3)
    by simp
  ultimately show ?thesis
    by (simp add: java_probe_def pingJavaPreparedContext_def Let_def cong: option.case_cong)
qed

text \<open>
  C11: a prepared Java probe only ever dials permitted addresses. Two networks that behave alike on the
  addresses that are valid, of the requested family and public (or private ones when these are allowed)
  give the same result of every probe, whatever they do elsewhere: no resolver, service record or
  schedule of the dial makes the probe depend on any other address.
\<close>

theorem java_probe_dials_permitted:
  assumes "prepareJavaProbe sys ctx client target options = Inr p"
    and "complete_schedule (env_sched env) (jp_candidates p)"
    and "\<And>x. permitted options x \<Longrightarrow> d (cand_Network x) (cand_String x) = d' (cand_Network x) (cand_String x)"
  shows "java_probe (p\<lparr>jp_client := (jp_client p)\<lparr>dialContext := Some d\<rparr>\<rparr>) env timeout =
    java_probe (p\<lparr>jp_client := (jp_client p)\<lparr>dialContext := Some d'\<rparr>\<rparr>) env timeout"
  using assms by (rule java_probe_permitted)

text \<open>
  C2: a Java ping succeeds only on an echo of its token. The client has then written exactly the handshake
  that names the target, the status request and a ping with the token of this probe, and the peer, after
  these bytes, has sent the token. The latency is at least a millisecond.
\<close>

theorem java_ping_needs_echo:
  assumes "pingJavaPreparedContext env c route candidates timeout = Inr s" and "candidates \<noteq> []"
  shows "\<exists>conn port token taken pre post.
    dialCandidates (withDefaults (env_sys env) c) (env_sched env) candidates = Inr conn \<and>
    the (tokenSource (withDefaults (env_sys env) c)) = Inr token \<and>
    uint16Port (Handshake route) = Inr port \<and>
    drop taken (conn_peer conn
      (conn_sent conn @ helloBytes (Host (Handshake route)) port @ frame (pingPayload token))) =
      pre @ putUint64 token @ post \<and>
    1000000 \<le> latency s"
proof -
  let ?c = "withDefaults (env_sys env) c"
  from assms obtain conn c1 c2 c3 token c4 c5 where conn: "dialCandidates ?c (env_sched env) candidates = Inr conn"
    and c1: "sendHandshakePacket conn (Handshake route) = Inr c1" and c2: "sendStatusRequestPacket c1 = Inr c2"
    and c3: "connRead readStatusResponse c2 = Inr ((), c3)" and token: "the (tokenSource ?c) = Inr token"
    and c4: "sendPingPacket c3 token = Inr c4" and c5: "connRead (\<lambda>r. readPongPacket r token) c4 = Inr ((), c5)"
    by (auto simp: pingJavaPreparedContext_def Let_def result_simps)
  from c1 obtain port where port: "uint16Port (Handshake route) = Inr port"
    and c1': "c1 = conn\<lparr>conn_sent := conn_sent conn @ frame (handshakePayload (Host (Handshake route)) port)\<rparr>"
    by (rule sendHandshakePacket_Inr)
  from c2 have c2': "c2 = conn\<lparr>conn_sent := conn_sent conn @ helloBytes (Host (Handshake route)) port\<rparr>"
    by (simp add: sendStatusRequestPacket_ok connWrite_Inr c1' helloBytes_def)
  from connRead_Inr [OF c3] obtain n where "c3 = c2\<lparr>conn_taken := n\<rparr>" by blast
  with c4 have sent: "conn_sent c4 = conn_sent conn @ helloBytes (Host (Handshake route)) port @ frame (pingPayload token)"
    and peer: "conn_peer c4 = conn_peer conn"
    by (simp_all add: sendPingPacket_ok connWrite_Inr c2')
  from connRead_Inr [OF c5] obtain r
    where "readPongPacket (drop (conn_taken c4) (conn_peer c4 (conn_sent c4)), conn_rerr c4) token = Inr ((), r)" by blast
  from readPongPacket_Inr [OF this] obtain pre post
    where "drop (conn_taken c4) (conn_peer c4 (conn_sent c4)) = pre @ putUint64 token @ post" by blast
  then show ?thesis
    using conn token port pingJava_latency [OF assms(1)] unfolding sent peer by blast
qed

text \<open>
  C3: the client and the staging server understand each other. A ping of the client whose dial reaches the
  staging server succeeds, for every target name of at most 255 bytes of UTF-8, every port, every token,
  and every status document of the server that is UTF-8, at most 1 MiB long and a JSON object; the sample
  carries the measured time and the remote address.
\<close>

theorem java_ping_reaches_staging_server:
  assumes dial: "candidates \<noteq> []"
      "dialCandidates (withDefaults (env_sys env) c) (env_sched env) candidates =
         Inr ((connTo (stagingPeer json))\<lparr>conn_remote := ra\<rparr>)"
    and host: "utf8Valid (bytes_of (Host (Handshake route)))" "int (length (Host (Handshake route))) \<le> 255"
    and port: "uint16Port (Handshake route) = Inr port"
    and json: "utf8Valid (bytes_of json)" "int (length json) \<le> maxStatusJSONLength" "unmarshalAny json = Some JObject"
    and token: "the (tokenSource (withDefaults (env_sys env) c)) = Inr token"
    and ctx: "ctx_Deadline (env_ctx env) = None"
  shows "pingJavaPreparedContext env c route candidates timeout =
    Inr \<lparr>latency = max (the (clock (withDefaults (env_sys env) c)) 2 - the (clock (withDefaults (env_sys env) c)) 1) 1000000,
         remote = remoteAddrPort (env_lookupPort env) ra\<rparr>"
  using assms by (rule pingJava_staging)

text \<open>
  A text session on a prepared Java probe. Whatever replies it saw, at its end the probe still probes
  what it was prepared for, the summary without \<^verbatim>\<open>-n\<close> still names the destination of the user, and the
  statistics are those of latencies of at least a millisecond each.
\<close>

theorem java_session_keeps_target:
  assumes "sessionLoop rnd javaOps cfg now sleep env deadlineAt fuel 0 (sessionInit javaOps cfg now p) = Some st"
  shows "java_summaryLabel (sn_probe st) False = t_Host (jp_target p) \<and> java_probe (sn_probe st) = java_probe p \<and>
    (\<exists>lats. sessionInv rnd cfg lats st \<and> (\<forall>l \<in> set lats. 1000000 \<le> l))"
proof -
  have "sn_probe (sessionInit javaOps cfg now p) = p" by (simp add: sessionInit_def)
  with java.session_keeps_probe [OF assms [unfolded javaOps_def] sessionInv_init] show ?thesis
    by (simp add: java_summaryLabel_def javaOps_def)
qed

section \<open>An instance\<close>

text \<open>A domain with a service record, whose one address is served by the staging server.\<close>

definition exampleResolver :: dnsResolver where
  "exampleResolver =
     \<lparr>LookupSRV = (\<lambda>_ _ _. Inr [\<lparr>srv_Target = ''mc.example.net.'', srv_Port = 25570\<rparr>]),
      LookupNetIP = (\<lambda>_ _. Inr [Addr4 0x08080808])\<rparr>"

definition exampleSystem :: system where
  "exampleSystem =
     \<lparr>sys_resolver = exampleResolver,
      sys_dial = (\<lambda>_ a. Inr ((connTo (stagingPeer DefaultStatusJSON))\<lparr>conn_remote := Some a\<rparr>)),
      sys_rand = Inr (putUint64 42), sys_clock = (\<lambda>k. int k * 5000000)\<rparr>"

definition exampleEnv :: probeEnv where
  "exampleEnv =
     \<lparr>env_ctx = \<lparr>ctx_Err = (\<lambda>_. None), ctx_Deadline = None\<rparr>,
      env_sched = \<lparr>sch_order = [0], sch_waitErr = (\<lambda>_. None), sch_lateErr = (\<lambda>_. None)\<rparr>,
      env_sys = exampleSystem, env_lookupPort = (\<lambda>_ _. Inl EOF), env_random = (\<lambda>_. Inl EOF)\<rparr>"

definition exampleTarget :: targetSpec where
  "exampleTarget = \<lparr>t_Host = ''example.com'', t_Port = 0, PortExplicit = False\<rparr>"

definition exampleRoute :: endpointRoute where
  "exampleRoute =
     \<lparr>Dial = \<lparr>Host = ''mc.example.net'', Port = 25570\<rparr>, Handshake = \<lparr>Host = ''example.com'', Port = 25570\<rparr>\<rparr>"

definition exampleCandidates :: "dialCandidate list" where
  "exampleCandidates = [\<lparr>cand_address = addrPortFrom (Addr4 0x08080808) 25570\<rparr>]"

definition exampleProbe :: javaPreparedProbe where
  "exampleProbe =
     \<lparr>jp_client = newPingClient exampleSystem, jp_target = exampleTarget, jp_route = exampleRoute,
      jp_candidates = exampleCandidates, jp_displayTarget = addrPortFrom (Addr4 0x08080808) 25570\<rparr>"

lemma withDefaults_newPingClient [simp]: "withDefaults sys (newPingClient sys') = newPingClient sys'"
  by (simp add: withDefaults_def newPingClient_def orElse_def defaultDialFallbackDelay_def)

lemma example_route:
  "resolveJavaRouteContext exampleSystem (env_ctx exampleEnv) (newPingClient exampleSystem) exampleTarget =
     Inr exampleRoute"
  by code_simp

lemma example_candidates:
  "resolveDialCandidates (newPingClient exampleSystem) (Dial exampleRoute) exampleOptions = Inr exampleCandidates"
  by code_simp

lemma example_prepared:
  "prepareJavaProbe exampleSystem (env_ctx exampleEnv) (newPingClient exampleSystem) exampleTarget exampleOptions =
     Inr exampleProbe"
  by (simp add: prepareJavaProbe_def Let_def example_route example_candidates exampleProbe_def exampleCandidates_def)

lemma example_schedule: "complete_schedule (env_sched exampleEnv) exampleCandidates"
  by (simp add: complete_schedule_def exampleEnv_def exampleCandidates_def)

lemma defaultStatusJSON_ok:
  "utf8Valid (bytes_of DefaultStatusJSON)" "int (length DefaultStatusJSON) \<le> maxStatusJSONLength"
  "unmarshalAny DefaultStatusJSON = Some JObject"
  by code_simp+

lemma example_record:
  "LookupSRV (the (resolver (withDefaults exampleSystem (newPingClient exampleSystem)))) ''minecraft'' ''tcp'' (t_Host exampleTarget) =
     Inr [\<lparr>srv_Target = ''mc.example.net.'', srv_Port = 25570\<rparr>]"
  "\<not> PortExplicit exampleTarget" "parseAddr (t_Host exampleTarget) = None" "trimSuffix ''mc.example.net.'' ''.'' = ''mc.example.net''"
  by code_simp+

theorem java_route_follows_srv_witness:
  "resolveJavaRouteContext exampleSystem (env_ctx exampleEnv) (newPingClient exampleSystem) exampleTarget =
     Inr \<lparr>Dial = \<lparr>Host = ''mc.example.net'', Port = 25570\<rparr>, Handshake = \<lparr>Host = t_Host exampleTarget, Port = 25570\<rparr>\<rparr>"
proof -
  have "(25570 :: u16) \<noteq> 0" "uint (25570 :: u16) = 25570" by simp_all
  with java_route_follows_srv [OF refl refl, where sys = exampleSystem and c = "newPingClient exampleSystem" and target = exampleTarget
      and ctx = "env_ctx exampleEnv"]
    example_record show ?thesis by simp
qed

theorem java_probe_dials_permitted_witness:
  "java_probe (exampleProbe\<lparr>jp_client := (jp_client exampleProbe)\<lparr>dialContext := Some (\<lambda>n a. Inl EOF)\<rparr>\<rparr>) exampleEnv 5 =
   java_probe (exampleProbe\<lparr>jp_client := (jp_client exampleProbe)\<lparr>dialContext := Some exampleLoopbackDial\<rparr>\<rparr>)
     exampleEnv 5"
proof (rule java_probe_dials_permitted [OF example_prepared])
  show "complete_schedule (env_sched exampleEnv) (jp_candidates exampleProbe)"
    using example_schedule by (simp add: exampleProbe_def)
  show "Inl EOF = exampleLoopbackDial (cand_Network x) (cand_String x)" if "permitted exampleOptions x" for x
    using example_not_loopback [OF that] by (simp add: exampleLoopbackDial_def)
qed

lemma example_dial:
  "exampleCandidates \<noteq> []"
  "dialCandidates (withDefaults (env_sys exampleEnv) (newPingClient exampleSystem)) (env_sched exampleEnv)
     exampleCandidates =
   Inr ((connTo (stagingPeer DefaultStatusJSON))\<lparr>conn_remote := Some (cand_String (hd exampleCandidates))\<rparr>)"
  by (simp_all add: dialCandidates_def exampleCandidates_def newPingClient_def exampleSystem_def exampleEnv_def
      withDefaults_def orElse_def)

lemma example_hello:
  "utf8Valid (bytes_of (Host (Handshake exampleRoute)))" "int (length (Host (Handshake exampleRoute))) \<le> 255"
  "uint16Port (Handshake exampleRoute) = Inr 25570"
  by code_simp+

lemma example_client:
  "the (tokenSource (withDefaults (env_sys exampleEnv) (newPingClient exampleSystem))) = Inr 42"
  "ctx_Deadline (env_ctx exampleEnv) = None"
  "the (clock (withDefaults (env_sys exampleEnv) (newPingClient exampleSystem))) k = int k * 5000000"
  by (simp_all add: newPingClient_def exampleSystem_def exampleEnv_def withDefaults_def orElse_def generatePingToken_def)

lemma example_remote:
  "remoteAddrPort (env_lookupPort exampleEnv) (Some (cand_String (hd exampleCandidates))) =
     addrPortFrom (Addr4 0x08080808) 25570"
  by code_simp

lemmas example_facts = example_dial example_hello defaultStatusJSON_ok example_client(1,2)

theorem java_ping_reaches_staging_server_witness:
  "pingJavaPreparedContext exampleEnv (newPingClient exampleSystem) exampleRoute exampleCandidates 5 =
     Inr \<lparr>latency = 5000000, remote = addrPortFrom (Addr4 0x08080808) 25570\<rparr>"
  using java_ping_reaches_staging_server [OF example_facts, of 5] example_client(3) [of 1] example_client(3) [of 2]
  by (simp only: example_remote) simp

theorem java_ping_needs_echo_witness:
  "\<exists>token taken pre post port.
     drop taken (stagingPeer DefaultStatusJSON (helloBytes ''example.com'' port @ frame (pingPayload token))) =
       pre @ putUint64 token @ post"
proof -
  have host: "Host (Handshake exampleRoute) = ''example.com''" by (simp add: exampleRoute_def)
  show ?thesis
    using java_ping_needs_echo [OF pingJava_staging [OF example_facts, of 5] example_dial(1)]
    unfolding example_dial(2) host by clarsimp blast
qed

lemma example_loop:
  "\<exists>st. sessionLoop (\<lambda>x. x) javaOps exampleSessionConfig int (\<lambda>_ _. None) \<lparr>se_probe = (\<lambda>_. exampleEnv), se_ctxErr = (\<lambda>_. None)\<rparr>
     None 3 0 (sessionInit javaOps exampleSessionConfig int exampleProbe) = Some st"
  by (rule sessionLoop_count) (simp_all add: exampleSessionConfig_def sessionInit_def)

theorem java_session_keeps_target_witness:
  "\<exists>st. java_summaryLabel (sn_probe st) False = ''example.com'' \<and>
     sessionLoop (\<lambda>x. x) javaOps exampleSessionConfig int (\<lambda>_ _. None) \<lparr>se_probe = (\<lambda>_. exampleEnv), se_ctxErr = (\<lambda>_. None)\<rparr>
       None 3 0 (sessionInit javaOps exampleSessionConfig int exampleProbe) = Some st"
proof -
  obtain st where "sessionLoop (\<lambda>x. x) javaOps exampleSessionConfig int (\<lambda>_ _. None)
      \<lparr>se_probe = (\<lambda>_. exampleEnv), se_ctxErr = (\<lambda>_. None)\<rparr> None 3 0 (sessionInit javaOps exampleSessionConfig int exampleProbe) = Some st"
    using example_loop by blast
  moreover have "t_Host (jp_target exampleProbe) = ''example.com''" by (simp add: exampleProbe_def exampleTarget_def)
  ultimately show ?thesis using java_session_keeps_target by metis
qed

end
