(* ===== verification/Bedrock.thy ===== *)
theory Bedrock
  imports Session
begin

text \<open>
  \<^verbatim>\<open>bedrock.go\<close>: the Bedrock Edition probe over UDP. The unconnected ping, the parser of the pong and of
  the status text, the candidates of a target, and the loop over them.
\<close>

section \<open>Definitions\<close>

definition bedrockUnconnectedPingPacketID :: byte where
  "bedrockUnconnectedPingPacketID = 0x01"

definition bedrockUnconnectedPongPacketID :: byte where
  "bedrockUnconnectedPongPacketID = 0x1c"

definition bedrockStatusMinFields :: nat where
  "bedrockStatusMinFields = 6"

definition bedrockMagic :: "byte list" where
  "bedrockMagic =
     [0x00, 0xff, 0xff, 0x00,
      0xfe, 0xfe, 0xfe, 0xfe,
      0xfd, 0xfd, 0xfd, 0xfd,
      0x12, 0x34, 0x56, 0x78]"

record bedrockStatus =
  Brand :: string
  MOTD :: string
  ProtocolNumber :: int
  VersionText :: string
  PlayersOnline :: int
  PlayersMax :: int
  ServerID :: string
  MapName :: string
  GameMode :: string

record bedrockPreparedProbe =
  bp_client :: pingClient
  bp_target :: targetSpec
  bp_candidates :: "dialCandidate list"
  bp_displayTarget :: addrPort

text \<open>The random bytes are those \<^verbatim>\<open>rand.Read\<close> fills the buffer with, or its error.\<close>

definition randomUint64With :: "byte list result \<Rightarrow> u64 result" where
  "randomUint64With random =
     ebind (emap (Wrapf ''failed to generate random identifier: %w'' []) random) (\<lambda>buf. Inr (getUint64 buf))"

text \<open>\<^verbatim>\<open>UnixMilli\<close> of a time in nanoseconds; the conversion to \<^verbatim>\<open>uint64\<close> wraps.\<close>

definition unixMilli :: "int \<Rightarrow> u64" where
  "unixMilli now = of_int (now div 1000000)"

definition buildBedrockStatusRequestWith :: "int \<Rightarrow> byte list result \<Rightarrow> (byte list \<times> u64) result" where
  "buildBedrockStatusRequestWith now random =
     ebind (randomUint64With random) (\<lambda>clientGUID.
       let pingTime = unixMilli now
       in Inr ([bedrockUnconnectedPingPacketID] @ putUint64 pingTime @ bedrockMagic @ putUint64 clientGUID,
               pingTime))"

definition fieldOr :: "nat \<Rightarrow> string list \<Rightarrow> string" where
  "fieldOr i fs = (if length fs > i then fs ! i else '''')"

definition parseBedrockStatusText :: "string \<Rightarrow> bedrockStatus result" where
  "parseBedrockStatusText statusText =
     (let fields = splitByte CHR '';'' statusText in
      if length fields < bedrockStatusMinFields then
        Inl (Errorf ''bedrock status response has too few fields: %d'' [AInt (int (length fields))])
      else if fields ! 0 \<noteq> ''MCPE'' then
        Inl (Errorf ''unexpected bedrock status brand %q'' [AStr (fields ! 0)])
      else
        ebind (emap (Wrapf ''invalid bedrock protocol version %q: %w'' [AStr (fields ! 2)]) (atoi (fields ! 2))) (\<lambda>protocol.
        ebind (emap (Wrapf ''invalid bedrock online player count %q: %w'' [AStr (fields ! 4)]) (atoi (fields ! 4))) (\<lambda>online.
        ebind (emap (Wrapf ''invalid bedrock max player count %q: %w'' [AStr (fields ! 5)]) (atoi (fields ! 5))) (\<lambda>maxPlayers.
          Inr \<lparr>Brand = fields ! 0, MOTD = fields ! 1, ProtocolNumber = protocol, VersionText = fields ! 3,
               PlayersOnline = online, PlayersMax = maxPlayers,
               ServerID = fieldOr 6 fields, MapName = fieldOr 7 fields, GameMode = fieldOr 8 fields\<rparr>))))"

text \<open>\<^verbatim>\<open>payload[i:j]\<close>, of a payload that is long enough.\<close>

definition slice :: "nat \<Rightarrow> nat \<Rightarrow> 'a list \<Rightarrow> 'a list" where
  "slice i j xs = drop i (take j xs)"

definition parseBedrockStatusResponse :: "byte list \<Rightarrow> u64 \<Rightarrow> bedrockStatus result" where
  "parseBedrockStatusResponse payload expectedPingTime =
     (if length payload < 35 then Inl (Errorf ''bedrock pong too short: %d'' [AInt (int (length payload))])
      else if payload ! 0 \<noteq> bedrockUnconnectedPongPacketID then
        Inl (Errorf ''unexpected bedrock pong packet id: %d'' [AInt (uint (payload ! 0))])
      else if getUint64 (slice 1 9 payload) \<noteq> expectedPingTime then
        Inl (ErrNew ''bedrock pong ping time mismatch'')
      else if slice 17 33 payload \<noteq> bedrockMagic then Inl (ErrNew ''bedrock pong magic mismatch'')
      else
        (let nameLength = unat (getUint16 (slice 33 35 payload)) in
         if length payload < 35 + nameLength then Inl (Errorf ''bedrock status payload: unexpected EOF'' [])
         else if length payload \<noteq> 35 + nameLength then
           Inl (Errorf ''bedrock pong length mismatch: got %d want %d''
             [AInt (int (length payload)), AInt (int (35 + nameLength))])
         else
           (let statusBytes = slice 35 (35 + nameLength) payload in
            if \<not> utf8Valid statusBytes then Inl (ErrNew ''bedrock status payload is not valid UTF-8'')
            else parseBedrockStatusText (string_of statusBytes))))"

text \<open>
  The ports of the resolved addresses: an error of the conversion leaves the port \<open>0\<close>.
\<close>

definition bedrockPortOf :: "targetSpec \<Rightarrow> addr \<Rightarrow> u16" where
  "bedrockPortOf target a = (case toUint16 (portForAddr target a editionBedrock) of Inl _ \<Rightarrow> 0 | Inr port \<Rightarrow> port)"

definition resolveBedrockCandidates :: "pingClient \<Rightarrow> targetSpec \<Rightarrow> pingOptions \<Rightarrow> dialCandidate list result" where
  "resolveBedrockCandidates c target options =
     ebind (target_validate target) (\<lambda>_.
     ebind (family_validate (addressFamily_of options)) (\<lambda>_.
       case target_literalIP target of
         Some parsed \<Rightarrow>
           if \<not> family_matches (addressFamily_of options) parsed then
             Inl (Errorf ''%s is an %s address but %s was requested''
               [AStr (t_Host target), AStr (family_String (addressFamilyForAddr parsed)),
                AStr (forcedFlag (addressFamily_of options))])
           else if \<not> allowPrivateAddresses options \<and> isNonPublicAddr parsed then
             Inl (Errorf ''refusing to connect to non-public address %s (pass --allow-private to override)''
               [AStr (t_Host target)])
           else
             ebind (emap (Wrapf ''derive bedrock port for %s: %w'' [AStr (t_Host target)])
               (toUint16 (portForAddr target parsed editionBedrock))) (\<lambda>port.
               Inr [\<lparr>cand_address = addrPortFrom parsed port\<rparr>])
       | None \<Rightarrow>
           ebind (LookupNetIP (the (resolver c)) (resolverNetwork (addressFamily_of options)) (t_Host target)) (\<lambda>addrs.
             dialCandidatesForResolvedIPsByAddr (t_Host target) addrs (addressFamily_of options)
               (allowPrivateAddresses options) (bedrockPortOf target))))"

definition prepareBedrockProbe ::
  "system \<Rightarrow> pingClient \<Rightarrow> targetSpec \<Rightarrow> pingOptions \<Rightarrow> bedrockPreparedProbe result" where
  "prepareBedrockProbe sys client0 target options =
     (let client = withDefaults sys client0 in
      ebind (emap (Wrapf ''failed to resolve bedrock server %s: %w'' [AStr (t_Host target)])
        (resolveBedrockCandidates client target options)) (\<lambda>candidates.
        Inr \<lparr>bp_client = client, bp_target = target, bp_candidates = candidates,
             bp_displayTarget =
               (if length candidates = 1 then cand_address (hd candidates) else zeroAddrPort)\<rparr>))"

definition bedrock_summaryLabel :: "bedrockPreparedProbe \<Rightarrow> bool \<Rightarrow> string" where
  "bedrock_summaryLabel p numeric =
     (if numeric \<and> apIsValid (bp_displayTarget p) then addrString (ap_addr (bp_displayTarget p))
      else t_Host (bp_target p))"

definition bedrock_banner :: "bedrockPreparedProbe \<Rightarrow> bool \<Rightarrow> string" where
  "bedrock_banner p numeric =
     (let label = bedrock_summaryLabel p numeric;
          displayPort = itoa (if apIsValid (bp_displayTarget p) then uint (ap_port (bp_displayTarget p))
                              else defaultPort (bp_target p) addressFamilyAny editionBedrock);
          shown = addrString (ap_addr (bp_displayTarget p));
          kind = edition_String editionBedrock
      in if apIsValid (bp_displayTarget p) \<and> \<not> numeric \<and> t_Host (bp_target p) \<noteq> shown then
           ''PING '' @ t_Host (bp_target p) @ '' ('' @ shown @ '') port '' @ displayPort @ '' ['' @ kind @ '']:''
         else ''PING '' @ label @ '' port '' @ displayPort @ '' ['' @ kind @ '']:'')"

definition bedrock_observeSample :: "bedrockPreparedProbe \<Rightarrow> probeSample \<Rightarrow> bedrockPreparedProbe" where
  "bedrock_observeSample p sample =
     (if apIsValid (remote sample) then p\<lparr>bp_displayTarget := remote sample\<rparr> else p)"

text \<open>
  One candidate. The clock is read for the deadline when the context has none, for the request, before
  the request is sent and after the reply; \<open>k0\<close> counts the readings before.
\<close>

definition pingBedrockCandidate ::
  "probeEnv \<Rightarrow> pingClient \<Rightarrow> nat \<Rightarrow> dialCandidate \<Rightarrow> int \<Rightarrow> probeSample result" where
  "pingBedrockCandidate env c0 k0 candidate timeout =
     (let c = withDefaults (env_sys env) c0;
          now = the (clock c);
          k = (case ctx_Deadline (env_ctx env) of Some _ \<Rightarrow> k0 | None \<Rightarrow> k0 + 1)
      in
     ebind (the (dialContext c) (cand_UDPNetwork candidate) (cand_String candidate)) (\<lambda>conn.
     ebind (setDeadline conn (case ctx_Deadline (env_ctx env) of Some t \<Rightarrow> t | None \<Rightarrow> now k0 + timeout)) (\<lambda>_.
     ebind (buildBedrockStatusRequestWith (now k) (env_random env k0)) (\<lambda>(request, expectedPingTime).
     (let start = now (k + 1) in
     ebind (connWrite conn request) (\<lambda>c1.
     ebind (readDatagram 2048 c1) (\<lambda>buf.
     ebind (parseBedrockStatusResponse buf expectedPingTime) (\<lambda>_.
       Inr \<lparr>latency = max (now (k + 2) - start) 0,
            remote = remoteAddrPort (env_lookupPort env) (conn_remote c1)\<rparr>))))))))"

text \<open>
  The loop over the candidates: before the \<open>i\<close>-th attempt the context is read. Every attempt of a probe
  starts at its own readings of the clock, \<open>clockAt i\<close>.
\<close>

fun pingBedrockLoop ::
  "probeEnv \<Rightarrow> pingClient \<Rightarrow> (nat \<Rightarrow> nat) \<Rightarrow> nat \<Rightarrow> dialCandidate list \<Rightarrow> goerr list \<Rightarrow> int \<Rightarrow> probeSample result" where
  "pingBedrockLoop env c clockAt i [] errs timeout = Inl (Join errs)"
| "pingBedrockLoop env c clockAt i (candidate # rest) errs timeout =
     (case ctx_Err (env_ctx env) i of
        Some e \<Rightarrow> if errs \<noteq> [] then Inl (Join errs) else Inl e
      | None \<Rightarrow>
          (case pingBedrockCandidate env c (clockAt i) candidate timeout of
             Inr sample \<Rightarrow> Inr sample
           | Inl e \<Rightarrow>
               pingBedrockLoop env c clockAt (i + 1) rest
                 (errs @ [Wrapf ''%s: %w'' [AStr (cand_String candidate)] e]) timeout))"

definition pingBedrockCandidates ::
  "probeEnv \<Rightarrow> pingClient \<Rightarrow> (nat \<Rightarrow> nat) \<Rightarrow> dialCandidate list \<Rightarrow> int \<Rightarrow> probeSample result" where
  "pingBedrockCandidates env c clockAt candidates timeout =
     (if candidates = [] then Inl (ErrNew ''no dial candidates available'')
      else pingBedrockLoop env c clockAt 0 candidates [] timeout)"

text \<open>An attempt reads the clock at most four times; attempts have disjoint readings.\<close>

definition bedrock_probe :: "bedrockPreparedProbe \<Rightarrow> probeEnv \<Rightarrow> int \<Rightarrow> probeSample result" where
  "bedrock_probe p env timeout =
     pingBedrockCandidates env (bp_client p) (\<lambda>i. 4 * i) (bp_candidates p) timeout"

text \<open>The Bedrock probe as a value of the interface \<^verbatim>\<open>preparedProbe\<close>.\<close>

definition bedrockOps :: "bedrockPreparedProbe probeOps" where
  "bedrockOps =
     \<lparr>op_banner = bedrock_banner, op_summaryLabel = bedrock_summaryLabel, op_observe = bedrock_observeSample, op_probe = bedrock_probe\<rparr>"

section \<open>The interfaces\<close>

lemmas bedrock_defs = bedrock_summaryLabel_def bedrock_observeSample_def bedrock_probe_def

lemma pingBedrockCandidate_latency: "pingBedrockCandidate env c k x timeout = Inr s \<Longrightarrow> 0 \<le> latency s"
  by (auto simp: pingBedrockCandidate_def Let_def result_simps)

lemma pingBedrockLoop_latency: "pingBedrockLoop env c clockAt i xs errs timeout = Inr s \<Longrightarrow> 0 \<le> latency s"
  by (induction env c clockAt i xs errs timeout rule: pingBedrockLoop.induct)
    (auto split: option.splits sum.splits if_splits dest: pingBedrockCandidate_latency)

lemma bedrock_probe_latency: "bedrock_probe p env timeout = Inr s \<Longrightarrow> 0 \<le> latency s"
  by (auto simp: bedrock_defs pingBedrockCandidates_def split: if_splits dest: pingBedrockLoop_latency)

interpretation bedrock: prepared_probe bedrock_banner bedrock_summaryLabel bedrock_observeSample bedrock_probe
  "\<lambda>p. t_Host (bp_target p)" bp_displayTarget 0
  by unfold_locales (auto simp: bedrock_defs fun_eq_iff bedrock_probe_latency [unfolded bedrock_defs])

lemma resolveBedrockCandidates_permitted:
  assumes "resolveBedrockCandidates c target options = Inr cs"
  shows "cs \<noteq> [] \<and> (\<forall>x \<in> set cs. permitted options x)"
proof (cases "target_literalIP target")
  case (Some a)
  then have "isValid a" "unmap a = a"
    by (auto simp: target_literalIP_def dest: parseAddr_valid)
  with Some assms show ?thesis
    by (auto simp: resolveBedrockCandidates_def result_simps permitted_def dialable_def addrPortFrom_def
        split: if_splits)
next
  case None
  with assms show ?thesis
    by (auto simp: resolveBedrockCandidates_def result_simps dest!: resolved_permitted)
qed

interpretation bedrock_source: candidate_source "\<lambda>options (c, target). resolveBedrockCandidates c target options"
  by unfold_locales (auto dest: resolveBedrockCandidates_permitted)

section \<open>Lemmas\<close>

lemma pingBedrockLoop_eq:
  assumes "\<And>i. ctx_Err (env_ctx env) i = None" and "xs \<noteq> [] \<or> errs \<noteq> []"
  shows "pingBedrockLoop env c clockAt k xs errs timeout =
    receiveResults (map (\<lambda>i. (xs ! i, pingBedrockCandidate env c (clockAt (k + i)) (xs ! i) timeout)) [0..<length xs]) errs"
  using assms(2)
proof (induction xs arbitrary: k errs)
  case (Cons x xs)
  let ?e = "\<lambda>e. errs @ [Wrapf ''%s: %w'' [AStr (cand_String x)] e]"
  have "map (\<lambda>i. ((x # xs) ! i, pingBedrockCandidate env c (clockAt (k + i)) ((x # xs) ! i) timeout)) [0..<Suc (length xs)] =
      (x, pingBedrockCandidate env c (clockAt k) x timeout) #
      map (\<lambda>i. (xs ! i, pingBedrockCandidate env c (clockAt (Suc k + i)) (xs ! i) timeout)) [0..<length xs]"
    by (simp add: upt_0_Suc del: upt_Suc)
  then show ?case
    using Cons.IH [of "?e _" "Suc k"] assms(1)
    by (cases "pingBedrockCandidate env c (clockAt k) x timeout") (simp_all del: upt_Suc)
qed simp

lemma prepareBedrockProbe_Inr:
  assumes "prepareBedrockProbe sys client target options = Inr p"
  shows "bp_client p = withDefaults sys client" and "bp_target p = target"
    and "resolveBedrockCandidates (withDefaults sys client) target options = Inr (bp_candidates p)"
  using assms by (auto simp: prepareBedrockProbe_def Let_def result_simps)

lemma pingBedrockLoop_cong:
  assumes "\<And>x k. x \<in> set xs \<Longrightarrow> pingBedrockCandidate env c k x timeout = pingBedrockCandidate env c' k x timeout"
  shows "pingBedrockLoop env c clockAt k xs errs timeout = pingBedrockLoop env c' clockAt k xs errs timeout"
  using assms by (induction xs arbitrary: k errs) (auto split: option.split sum.split)

text \<open>A session on a prepared Bedrock probe keeps what it probes and what it is called.\<close>

lemma bedrock_session_keeps_target:
  assumes "sessionLoop rnd bedrockOps cfg now sleep env deadlineAt fuel 0 (sessionInit bedrockOps cfg now p) = Some st"
  shows "bedrock_summaryLabel (sn_probe st) False = t_Host (bp_target p) \<and> bedrock_probe (sn_probe st) = bedrock_probe p \<and>
    (\<exists>lats. sessionInv rnd cfg lats st \<and> (\<forall>l \<in> set lats. 0 \<le> l))"
proof -
  have "sn_probe (sessionInit bedrockOps cfg now p) = p" by (simp add: sessionInit_def)
  with bedrock.session_keeps_probe [OF assms [unfolded bedrockOps_def] sessionInv_init] show ?thesis
    by (simp add: bedrock_summaryLabel_def bedrockOps_def)
qed

section \<open>Properties\<close>

text \<open>
  C22: while its context lasts, a Bedrock probe tries the candidates in their order and returns the sample
  of the first that answers; when none does, it returns the error of every candidate, in that order.
\<close>

theorem bedrock_first_reply:
  assumes "candidates \<noteq> []" and "\<And>i. ctx_Err (env_ctx env) i = None"
  shows "pingBedrockCandidates env c clockAt candidates timeout =
    (case filter (\<lambda>i. \<not> isl (pingBedrockCandidate env c (clockAt i) (candidates ! i) timeout)) [0..<length candidates] of
       i # _ \<Rightarrow> pingBedrockCandidate env c (clockAt i) (candidates ! i) timeout
     | [] \<Rightarrow> Inl (Join (map (\<lambda>i. Wrapf ''%s: %w'' [AStr (cand_String (candidates ! i))]
                 (projl (pingBedrockCandidate env c (clockAt i) (candidates ! i) timeout))) [0..<length candidates])))"
  using assms pingBedrockLoop_eq [of env candidates "[]" c clockAt 0 timeout]
    receiveResults_map [of "\<lambda>i. (candidates ! i, pingBedrockCandidate env c (clockAt i) (candidates ! i) timeout)"
      "\<lambda>i. candidates ! i" "[0..<length candidates]" "[]"]
  by (simp add: pingBedrockCandidates_def split: list.split)

lemma bedrock_probe_permitted:
  assumes "prepareBedrockProbe sys client target options = Inr p"
    and "\<And>x. permitted options x \<Longrightarrow> d (cand_UDPNetwork x) (cand_String x) = d' (cand_UDPNetwork x) (cand_String x)"
  shows "bedrock_probe (p\<lparr>bp_client := (bp_client p)\<lparr>dialContext := Some d\<rparr>\<rparr>) env timeout =
    bedrock_probe (p\<lparr>bp_client := (bp_client p)\<lparr>dialContext := Some d'\<rparr>\<rparr>) env timeout"
proof -
  have "permitted options x" if "x \<in> set (bp_candidates p)" for x
    using bedrock_source.candidates_permitted [of options "(withDefaults sys client, target)"]
      prepareBedrockProbe_Inr(3) [OF assms(1)] that by simp
  then have "pingBedrockCandidate env ((bp_client p)\<lparr>dialContext := Some d\<rparr>) k x timeout =
      pingBedrockCandidate env ((bp_client p)\<lparr>dialContext := Some d'\<rparr>) k x timeout"
    if "x \<in> set (bp_candidates p)" for x k
    using assms(2) [of x] that by (simp add: pingBedrockCandidate_def Let_def withDefaults_dial cong: option.case_cong)
  from pingBedrockLoop_cong [OF this] show ?thesis
    by (simp add: bedrock_probe_def pingBedrockCandidates_def)
qed

text \<open>
  C12: a prepared Bedrock probe only ever dials permitted addresses: two networks that behave alike on the
  addresses that are valid, of the requested family and public (or allowed) give the same result.
\<close>

theorem bedrock_probe_dials_permitted:
  assumes "prepareBedrockProbe sys client target options = Inr p"
    and "\<And>x. permitted options x \<Longrightarrow> d (cand_UDPNetwork x) (cand_String x) = d' (cand_UDPNetwork x) (cand_String x)"
  shows "bedrock_probe (p\<lparr>bp_client := (bp_client p)\<lparr>dialContext := Some d\<rparr>\<rparr>) env timeout =
    bedrock_probe (p\<lparr>bp_client := (bp_client p)\<lparr>dialContext := Some d'\<rparr>\<rparr>) env timeout"
  using assms by (rule bedrock_probe_permitted)

section \<open>An instance\<close>

text \<open>A host with one address of each family, of which the first refuses the dial.\<close>

definition exampleBedrockSystem :: "dialContextFunc \<Rightarrow> system" where
  "exampleBedrockSystem dial =
     \<lparr>sys_resolver =
        \<lparr>LookupSRV = (\<lambda>_ _ _. Inl EOF),
         LookupNetIP = (\<lambda>_ _. Inr [Addr6 0x20014860486000000000000000008888 [], Addr4 0x08080808])\<rparr>,
      sys_dial = dial, sys_rand = Inl EOF, sys_clock = (\<lambda>k. int k * 5000000)\<rparr>"

definition exampleBedrockTarget :: targetSpec where
  "exampleBedrockTarget = \<lparr>t_Host = ''play.example.com'', t_Port = 0, PortExplicit = False\<rparr>"

definition exampleBedrockCandidates :: "dialCandidate list" where
  "exampleBedrockCandidates =
     [\<lparr>cand_address = addrPortFrom (Addr6 0x20014860486000000000000000008888 []) 19133\<rparr>,
      \<lparr>cand_address = addrPortFrom (Addr4 0x08080808) 19132\<rparr>]"

definition exampleBedrockEnv :: "dialContextFunc \<Rightarrow> probeEnv" where
  "exampleBedrockEnv dial =
     \<lparr>env_ctx = \<lparr>ctx_Err = (\<lambda>_. None), ctx_Deadline = None\<rparr>,
      env_sched = \<lparr>sch_order = [], sch_waitErr = (\<lambda>_. None), sch_lateErr = (\<lambda>_. None)\<rparr>,
      env_sys = exampleBedrockSystem dial, env_lookupPort = (\<lambda>_ _. Inl EOF), env_random = (\<lambda>_. Inr (putUint64 9))\<rparr>"

definition exampleBedrockClient :: "dialContextFunc \<Rightarrow> pingClient" where
  "exampleBedrockClient dial = newPingClient (exampleBedrockSystem dial)"

lemma example_bedrock_candidates:
  "resolveBedrockCandidates (exampleBedrockClient dial) exampleBedrockTarget exampleOptions = Inr exampleBedrockCandidates"
proof -
  have "resolveBedrockCandidates (exampleBedrockClient (\<lambda>_ _. Inl EOF)) exampleBedrockTarget exampleOptions =
      Inr exampleBedrockCandidates"
    by code_simp
  moreover have "resolver (exampleBedrockClient dial) = resolver (exampleBedrockClient (\<lambda>_ _. Inl EOF))"
    by (simp add: exampleBedrockClient_def newPingClient_def exampleBedrockSystem_def)
  ultimately show ?thesis
    by (simp only: resolveBedrockCandidates_def)
qed

theorem bedrock_first_reply_witness:
  "pingBedrockCandidates (exampleBedrockEnv (\<lambda>_ _. Inl ErrTimeout)) (exampleBedrockClient (\<lambda>_ _. Inl ErrTimeout)) (\<lambda>i. 4 * i)
     exampleBedrockCandidates 5 =
   Inl (Join [Wrapf ''%s: %w'' [AStr ''[2001:4860:4860::8888]:19133''] ErrTimeout,
              Wrapf ''%s: %w'' [AStr ''8.8.8.8:19132''] ErrTimeout])"
proof -
  let ?p = "\<lambda>k x. pingBedrockCandidate (exampleBedrockEnv (\<lambda>_ _. Inl ErrTimeout))
    (exampleBedrockClient (\<lambda>_ _. Inl ErrTimeout)) k x 5"
  have fails: "?p k x = Inl ErrTimeout" for k x
    by (simp add: pingBedrockCandidate_def exampleBedrockClient_def newPingClient_def exampleBedrockSystem_def
        withDefaults_def orElse_def Let_def)
  have "exampleBedrockCandidates \<noteq> []" "ctx_Err (env_ctx (exampleBedrockEnv (\<lambda>_ _. Inl ErrTimeout))) i = None" for i
    by (simp_all add: exampleBedrockCandidates_def exampleBedrockEnv_def)
  from bedrock_first_reply [OF this, of "exampleBedrockClient (\<lambda>_ _. Inl ErrTimeout)" "\<lambda>i. 4 * i" 5]
  have "pingBedrockCandidates (exampleBedrockEnv (\<lambda>_ _. Inl ErrTimeout)) (exampleBedrockClient (\<lambda>_ _. Inl ErrTimeout))
      (\<lambda>i. 4 * i) exampleBedrockCandidates 5 =
    Inl (Join (map (\<lambda>i. Wrapf ''%s: %w'' [AStr (cand_String (exampleBedrockCandidates ! i))] ErrTimeout)
      [0..<length exampleBedrockCandidates]))"
    by (simp add: fails)
  moreover have "map (\<lambda>i. Wrapf ''%s: %w'' [AStr (cand_String (exampleBedrockCandidates ! i))] ErrTimeout)
      [0..<length exampleBedrockCandidates] =
    [Wrapf ''%s: %w'' [AStr ''[2001:4860:4860::8888]:19133''] ErrTimeout, Wrapf ''%s: %w'' [AStr ''8.8.8.8:19132''] ErrTimeout]"
    by code_simp
  ultimately show ?thesis by simp
qed

definition exampleBedrockProbe :: bedrockPreparedProbe where
  "exampleBedrockProbe =
     \<lparr>bp_client = exampleBedrockClient (\<lambda>_ _. Inl EOF), bp_target = exampleBedrockTarget,
      bp_candidates = exampleBedrockCandidates, bp_displayTarget = zeroAddrPort\<rparr>"

theorem bedrock_probe_dials_permitted_witness:
  "bedrock_probe (exampleBedrockProbe\<lparr>bp_client := (bp_client exampleBedrockProbe)\<lparr>dialContext := Some (\<lambda>_ _. Inl EOF)\<rparr>\<rparr>)
     (exampleBedrockEnv (\<lambda>_ _. Inl EOF)) 5 =
   bedrock_probe (exampleBedrockProbe\<lparr>bp_client := (bp_client exampleBedrockProbe)\<lparr>dialContext := Some exampleLoopbackDial\<rparr>\<rparr>)
     (exampleBedrockEnv (\<lambda>_ _. Inl EOF)) 5"
proof (rule bedrock_probe_dials_permitted)
  have "withDefaults (exampleBedrockSystem (\<lambda>_ _. Inl EOF)) (exampleBedrockClient (\<lambda>_ _. Inl EOF)) =
      exampleBedrockClient (\<lambda>_ _. Inl EOF)"
    by (simp add: exampleBedrockClient_def withDefaults_def newPingClient_def orElse_def defaultDialFallbackDelay_def)
  then show "prepareBedrockProbe (exampleBedrockSystem (\<lambda>_ _. Inl EOF)) (exampleBedrockClient (\<lambda>_ _. Inl EOF))
      exampleBedrockTarget exampleOptions = Inr exampleBedrockProbe"
    by (simp add: prepareBedrockProbe_def example_bedrock_candidates exampleBedrockProbe_def exampleBedrockCandidates_def)
  show "Inl EOF = exampleLoopbackDial (cand_UDPNetwork x) (cand_String x)" if "permitted exampleOptions x" for x
    using example_not_loopback [OF that] by (simp add: exampleLoopbackDial_def)
qed

end
