(* ===== verification/Go_Float.thy ===== *)
theory Go_Float
  imports Go_Text
begin

text \<open>
  Decimal and hexadecimal numbers as \<^verbatim>\<open>strconv.ParseFloat\<close> and \<^verbatim>\<open>big.Rat.SetString\<close> read them, with the
  exact value of the text. The rounding of \<^verbatim>\<open>ParseFloat\<close> to 64 bits matters to the program only where it
  reaches zero or overflows.
\<close>

section \<open>Syntax\<close>

definition hexLetter :: "char \<Rightarrow> int option" where
  "hexLetter c =
     (let n = of_char (lowerASCII c) :: int in if 97 \<le> n \<and> n \<le> 102 then Some (n - 87) else None)"

text \<open>\<^verbatim>\<open>underscoreOK\<close>: the last character seen is the start, a digit, an underscore or another one.\<close>

datatype lastSeen = AtStart | AtDigit | AtUnderscore | AtOther

fun underscoreLoop :: "bool \<Rightarrow> lastSeen \<Rightarrow> string \<Rightarrow> bool" where
  "underscoreLoop hex saw [] \<longleftrightarrow> saw \<noteq> AtUnderscore"
| "underscoreLoop hex saw (c # s) \<longleftrightarrow>
     (if isDigit c \<or> hex \<and> hexLetter c \<noteq> None then underscoreLoop hex AtDigit s
      else if c = CHR ''_'' then saw = AtDigit \<and> underscoreLoop hex AtUnderscore s
      else saw \<noteq> AtUnderscore \<and> underscoreLoop hex AtOther s)"

definition dropSign :: "string \<Rightarrow> string" where
  "dropSign s = (case s of c # r \<Rightarrow> if c = CHR ''+'' \<or> c = CHR ''-'' then r else s | [] \<Rightarrow> [])"

definition underscoreOK :: "string \<Rightarrow> bool" where
  "underscoreOK s0 =
     (let s = dropSign s0 in
      if length s \<ge> 2 \<and> s ! 0 = CHR ''0'' \<and> lowerASCII (s ! 1) \<in> {CHR ''b'', CHR ''o'', CHR ''x''} then
        underscoreLoop (lowerASCII (s ! 1) = CHR ''x'') AtDigit (drop 2 s)
      else underscoreLoop False AtStart s)"

text \<open>
  The digits of the mantissa: whether there was one, the mantissa without its point, the number of digits
  after the point, and the rest of the text.
\<close>

fun mantissaLoop :: "bool \<Rightarrow> bool \<Rightarrow> bool \<Rightarrow> int \<Rightarrow> nat \<Rightarrow> string \<Rightarrow> bool \<times> int \<times> nat \<times> string" where
  "mantissaLoop hex dot digits m f [] = (digits, m, f, [])"
| "mantissaLoop hex dot digits m f (c # s) =
     (if c = CHR ''_'' then mantissaLoop hex dot digits m f s
      else if c = CHR ''.'' then
        (if dot then (digits, m, f, c # s) else mantissaLoop hex True digits m f s)
      else
        (case (case digitVal c of Some d \<Rightarrow> Some d | None \<Rightarrow> if hex then hexLetter c else None) of
           Some d \<Rightarrow> mantissaLoop hex dot True ((if hex then 16 else 10) * m + d) (if dot then f + 1 else f) s
         | None \<Rightarrow> (digits, m, f, c # s)))"

text \<open>The digits of the exponent: its value, and the value of \<^verbatim>\<open>ParseFloat\<close>, which stops to grow at 10000.\<close>

fun exponentLoop :: "int \<Rightarrow> int \<Rightarrow> string \<Rightarrow> int \<times> int \<times> string" where
  "exponentLoop e capped [] = (e, capped, [])"
| "exponentLoop e capped (c # s) =
     (if c = CHR ''_'' then exponentLoop e capped s
      else
        (case digitVal c of
           Some d \<Rightarrow> exponentLoop (e * 10 + d) (if capped < 10000 then capped * 10 + d else capped) s
         | None \<Rightarrow> (e, capped, c # s)))"

definition readExponent :: "string \<Rightarrow> (int \<times> int \<times> string) option" where
  "readExponent s =
     (let neg = (s \<noteq> [] \<and> hd s = CHR ''-'');
          digits = dropSign s
      in if digits = [] \<or> \<not> isDigit (hd digits) then None
         else
           (case exponentLoop 0 0 digits of
              (e, capped, rest) \<Rightarrow> Some (if neg then (- e, - capped, rest) else (e, capped, rest))))"

record floatText =
  ft_neg :: bool
  ft_hex :: bool
  ft_mantissa :: int
  ft_fraction :: nat
  ft_exponent :: int
  ft_capped :: int

definition hexPrefix :: "string \<Rightarrow> bool" where
  "hexPrefix s \<longleftrightarrow> length s > 2 \<and> s ! 0 = CHR ''0'' \<and> lowerASCII (s ! 1) = CHR ''x''"

text \<open>\<^verbatim>\<open>readFloat\<close> on a text that it must consume as a whole.\<close>

definition readFloat :: "string \<Rightarrow> floatText option" where
  "readFloat s =
     (if s = [] then None
      else
        (let neg = (hd s = CHR ''-'');
             s1 = dropSign s;
             hex = hexPrefix s1;
             s2 = (if hex then drop 2 s1 else s1);
             expChar = (if hex then CHR ''p'' else CHR ''e'')
         in case mantissaLoop hex False False 0 0 s2 of
              (digits, m, f, rest) \<Rightarrow>
                if \<not> digits then None
                else
                  (let ex =
                     (case rest of
                        c # r \<Rightarrow> if lowerASCII c = expChar then readExponent r else if hex then None else Some (0, 0, rest)
                      | [] \<Rightarrow> if hex then None else Some (0, 0, []))
                   in case ex of
                        Some (e, capped, []) \<Rightarrow>
                          if CHR ''_'' \<in> set s \<and> \<not> underscoreOK s then None
                          else Some \<lparr>ft_neg = neg, ft_hex = hex, ft_mantissa = m, ft_fraction = f,
                                     ft_exponent = e, ft_capped = capped\<rparr>
                      | _ \<Rightarrow> None)))"

section \<open>Values\<close>

definition powerOf :: "nat \<Rightarrow> int \<Rightarrow> rat" where
  "powerOf b e = (if e < 0 then 1 / of_nat b ^ nat (- e) else of_nat b ^ nat e)"

text \<open>The exact value of the text with the exponent \<open>e\<close>.\<close>

definition textValue :: "floatText \<Rightarrow> int \<Rightarrow> rat" where
  "textValue t e =
     (if ft_neg t then -1 else 1) * of_int (ft_mantissa t) / of_nat (if ft_hex t then 16 else 10) ^ ft_fraction t *
     powerOf (if ft_hex t then 2 else 10) e"

text \<open>
  The positive finite results of \<^verbatim>\<open>ParseFloat(s, 64)\<close>: the value rounds neither to zero (at most half of the
  least subnormal number) nor to infinity. \<^verbatim>\<open>NaN\<close> and infinities are never positive finite numbers.
\<close>

definition parseFloatPositive :: "string \<Rightarrow> bool" where
  "parseFloatPositive s =
     (case readFloat s of
        None \<Rightarrow> False
      | Some t \<Rightarrow>
          (let v = textValue t (ft_capped t) in 1 / 2 ^ 1075 < v \<and> v < 2 ^ 1024 - 2 ^ 970))"

text \<open>
  \<^verbatim>\<open>big.Rat.SetString\<close> on a text that \<^verbatim>\<open>ParseFloat\<close> accepts: the same syntax, the exact exponent, and an error for
  exponents that are too large. (The fractions and the prefixes that it accepts beyond are no floats.)
\<close>

definition ratSetString :: "string \<Rightarrow> rat option" where
  "ratSetString s =
     (case readFloat s of
        None \<Rightarrow> None
      | Some t \<Rightarrow>
          (let e = ft_exponent t - (if ft_hex t then 4 * int (ft_fraction t) else int (ft_fraction t)) in
           if ft_mantissa t = 0 then Some 0
           else if \<not> ft_hex t \<and> \<bar>e\<bar> > 1000000 then None
           else if \<bar>e\<bar> > 10000000 then None
           else Some (textValue t (ft_exponent t))))"

section \<open>Lemmas\<close>

lemma mantissaLoop_digits:
  "parseDigits m s = Some n \<Longrightarrow> mantissaLoop False False d m 0 s = (d \<or> s \<noteq> [], n, 0, [])"
proof (induction s arbitrary: m d)
  case (Cons c s)
  then obtain v where v: "digitVal c = Some v" and "parseDigits (10 * m + v) s = Some n"
    by (auto split: option.splits)
  moreover have "c \<noteq> CHR ''_''" "c \<noteq> CHR ''.''" using v by (auto simp: digitVal_def split: if_splits)
  ultimately show ?case using Cons.IH [of "10 * m + v" True] by simp
qed simp

lemma readFloat_digits:
  assumes "parseDigits 0 s = Some n" and "s \<noteq> []"
  shows "readFloat s = Some \<lparr>ft_neg = False, ft_hex = False, ft_mantissa = n, ft_fraction = 0, ft_exponent = 0, ft_capped = 0\<rparr>"
proof -
  have digit: "digitVal c \<noteq> None" if "c \<in> set s" for c
    using parseDigits_digits [OF assms(1)] that by blast
  have sign: "hd s \<noteq> CHR ''+''" "hd s \<noteq> CHR ''-''" and und: "CHR ''_'' \<notin> set s"
    using digit [of "hd s"] digit [of "CHR ''_''"] assms(2) by (auto simp: digitVal_def)
  then have drop: "dropSign s = s" by (cases s) (simp_all add: dropSign_def)
  have lower: "lowerASCII c \<noteq> CHR ''x''" if "digitVal c \<noteq> None" for c
    using that by (auto simp: digitVal_def lowerASCII_def Let_def split: if_splits)
  have hex: "hexPrefix s = False"
    using lower digit [of "s ! 1"] by (auto simp: hexPrefix_def)
  show ?thesis
    using mantissaLoop_digits [OF assms(1), of False] assms(2) sign und hex
    by (simp add: readFloat_def drop Let_def)
qed

end
