(* ===== verification/Cli.thy ===== *)
theory Cli
  imports Java Bedrock Go_Float
begin

text \<open>
  \<^verbatim>\<open>cli.go\<close> and \<^verbatim>\<open>version.go\<close>: the scanner of the arguments, the configuration with its checks, the durations,
  the choice of the probe and the run of the program with its output and exit code. The scanner's index
  into the arguments is the list of the arguments that follow.
\<close>

section \<open>Definitions\<close>

subsection \<open>Arguments\<close>

datatype parseStatus = parseStatusOK | parseStatusHelp | parseStatusInvalid

record rawCLIConfig =
  raw_destination :: string
  raw_edition :: string
  raw_editionSet :: bool
  raw_javaAlias :: bool
  raw_bedrockAlias :: bool
  raw_forceIPv4 :: bool
  raw_forceIPv6 :: bool
  raw_count :: string
  raw_interval :: string
  raw_deadline :: string
  raw_timeout :: string
  raw_quiet :: bool
  raw_timestamp :: bool
  raw_numeric :: bool
  raw_json :: bool
  raw_allowPrivate :: bool
  raw_showHelp :: bool
  raw_showVersion :: bool

definition zeroRaw :: rawCLIConfig where
  "zeroRaw =
     \<lparr>raw_destination = '''', raw_edition = '''', raw_editionSet = False, raw_javaAlias = False, raw_bedrockAlias = False,
      raw_forceIPv4 = False, raw_forceIPv6 = False, raw_count = '''', raw_interval = '''', raw_deadline = '''',
      raw_timeout = '''', raw_quiet = False, raw_timestamp = False, raw_numeric = False, raw_json = False,
      raw_allowPrivate = False, raw_showHelp = False, raw_showVersion = False\<rparr>"

text \<open>A long flag: the new settings and the arguments that are left, or nothing where it is refused.\<close>

definition consumeLongFlag :: "rawCLIConfig \<Rightarrow> string \<Rightarrow> string list \<Rightarrow> (rawCLIConfig \<times> string list) option" where
  "consumeLongFlag raw arg rest =
     (let (name, val, inline) =
        (case indexByte CHR ''='' arg of
           Some i \<Rightarrow> (take i arg, drop (i + 1) arg, True)
         | None \<Rightarrow> (arg, '''', False))
      in if name = ''--edition'' then
           (if inline \<and> val = '''' then None
            else
              (case (if inline then Some (val, rest) else (case rest of [] \<Rightarrow> None | v # r \<Rightarrow> Some (v, r))) of
                 None \<Rightarrow> None
               | Some (v, r) \<Rightarrow>
                   if trimSpace v = '''' then None
                   else Some (raw\<lparr>raw_edition := v, raw_editionSet := True\<rparr>, r)))
         else if name = ''--java'' then (if inline then None else Some (raw\<lparr>raw_javaAlias := True\<rparr>, rest))
         else if name = ''--allow-private'' then (if inline then None else Some (raw\<lparr>raw_allowPrivate := True\<rparr>, rest))
         else if name = ''--bedrock'' then (if inline then None else Some (raw\<lparr>raw_bedrockAlias := True\<rparr>, rest))
         else if name = ''--help'' then (if inline then None else Some (raw\<lparr>raw_showHelp := True\<rparr>, rest))
         else if name = ''--version'' then (if inline then None else Some (raw\<lparr>raw_showVersion := True\<rparr>, rest))
         else None)"

text \<open>The short flags of one argument, from a position on; a flag with a value takes the rest of it or the next argument.\<close>

definition setShortValue :: "char \<Rightarrow> string \<Rightarrow> rawCLIConfig \<Rightarrow> rawCLIConfig" where
  "setShortValue c v raw =
     (if c = CHR ''c'' then raw\<lparr>raw_count := v\<rparr>
      else if c = CHR ''i'' then raw\<lparr>raw_interval := v\<rparr>
      else if c = CHR ''w'' then raw\<lparr>raw_deadline := v\<rparr>
      else raw\<lparr>raw_timeout := v\<rparr>)"

fun consumeShortFlags :: "rawCLIConfig \<Rightarrow> string \<Rightarrow> string list \<Rightarrow> (rawCLIConfig \<times> string list) option" where
  "consumeShortFlags raw [] rest = Some (raw, rest)"
| "consumeShortFlags raw (c # cs) rest =
     (if c = CHR ''4'' then consumeShortFlags (raw\<lparr>raw_forceIPv4 := True\<rparr>) cs rest
      else if c = CHR ''6'' then consumeShortFlags (raw\<lparr>raw_forceIPv6 := True\<rparr>) cs rest
      else if c = CHR ''q'' then consumeShortFlags (raw\<lparr>raw_quiet := True\<rparr>) cs rest
      else if c = CHR ''D'' then consumeShortFlags (raw\<lparr>raw_timestamp := True\<rparr>) cs rest
      else if c = CHR ''n'' then consumeShortFlags (raw\<lparr>raw_numeric := True\<rparr>) cs rest
      else if c = CHR ''j'' then consumeShortFlags (raw\<lparr>raw_json := True\<rparr>) cs rest
      else if c = CHR ''V'' then consumeShortFlags (raw\<lparr>raw_showVersion := True\<rparr>) cs rest
      else if c = CHR ''h'' then consumeShortFlags (raw\<lparr>raw_showHelp := True\<rparr>) cs rest
      else if c = CHR ''c'' \<or> c = CHR ''i'' \<or> c = CHR ''w'' \<or> c = CHR ''W'' then
        (if cs = '''' then
           (case rest of [] \<Rightarrow> None | v # r \<Rightarrow> Some (setShortValue c v raw, r))
         else Some (setShortValue c cs raw, rest))
      else None)"

lemma if_Some_cases:
  assumes "(if c then a else b) = Some x" and "a = Some x \<Longrightarrow> P" and "b = Some x \<Longrightarrow> P"
  shows P
  using assms by (cases c) simp_all

lemma consumeLongFlag_shorter: "consumeLongFlag raw arg rest = Some (raw', rest') \<Longrightarrow> length rest' \<le> length rest"
  unfolding consumeLongFlag_def Let_def case_prod_beta
  by (elim if_Some_cases) (auto split: if_splits option.splits list.splits)

lemma consumeShortFlags_shorter: "consumeShortFlags raw cs rest = Some (raw', rest') \<Longrightarrow> length rest' \<le> length rest"
proof (induction cs arbitrary: raw)
  case (Cons c cs)
  from Cons.prems [unfolded consumeShortFlags.simps] show ?case
    by (elim if_Some_cases) (use Cons.IH in \<open>auto split: list.splits\<close>)
qed simp

text \<open>The loop over the arguments; it ends early at a request for help or the version.\<close>

function scanLoop :: "rawCLIConfig \<Rightarrow> string list \<Rightarrow> rawCLIConfig \<times> parseStatus" where
  "scanLoop raw [] = (raw, parseStatusOK)"
| "scanLoop raw (arg # rest) =
     (if arg = '''' then (raw, parseStatusInvalid)
      else if arg = ''--'' then
        (case rest of
           [] \<Rightarrow> (raw, parseStatusInvalid)
         | d # rest' \<Rightarrow>
             if raw_destination raw \<noteq> '''' then (raw, parseStatusInvalid)
             else if rest' \<noteq> [] then (raw\<lparr>raw_destination := d\<rparr>, parseStatusInvalid)
             else (raw\<lparr>raw_destination := d\<rparr>, parseStatusOK))
      else if \<not> hasPrefix arg ''-'' \<or> arg = ''-'' then
        (if raw_destination raw \<noteq> '''' then (raw, parseStatusInvalid)
         else scanLoop (raw\<lparr>raw_destination := arg\<rparr>) rest)
      else
        (case (if hasPrefix arg ''--'' then consumeLongFlag raw arg rest else consumeShortFlags raw (tl arg) rest) of
           None \<Rightarrow> (raw, parseStatusInvalid)
         | Some (raw', rest') \<Rightarrow>
             if raw_showHelp raw' \<or> raw_showVersion raw' then (raw', parseStatusOK)
             else scanLoop raw' rest'))"
  by pat_completeness auto
termination
  by (relation "measure (\<lambda>(_, args). length args)")
    (auto dest!: consumeLongFlag_shorter consumeShortFlags_shorter split: if_splits)

declare scanLoop.simps [simp del]

definition scanArgv :: "string list \<Rightarrow> rawCLIConfig \<times> parseStatus" where
  "scanArgv args =
     (case scanLoop zeroRaw args of
        (raw, parseStatusOK) \<Rightarrow> if raw_showHelp raw then (raw, parseStatusHelp) else (raw, parseStatusOK)
      | r \<Rightarrow> r)"

subsection \<open>The configuration\<close>

text \<open>The exact seconds, in nanoseconds, cut towards zero.\<close>

definition parseSecondsDuration :: "string \<Rightarrow> int option" where
  "parseSecondsDuration raw0 =
     (let raw = trimSpace raw0 in
      if \<not> parseFloatPositive raw then None
      else
        (case ratSetString raw of
           None \<Rightarrow> None
         | Some seconds \<Rightarrow>
             if seconds \<le> 0 then None
             else
               (let nanoseconds = seconds * 1000000000 in
                if nanoseconds > 2 ^ 63 - 1 then None
                else
                  (let duration = \<lfloor>nanoseconds\<rfloor> in
                   if duration \<le> 0 \<or> duration > 2 ^ 63 - 1 then None else Some duration))))"

definition defaultConfig :: cliConfig where
  "defaultConfig =
     \<lparr>Target = \<lparr>t_Host = '''', t_Port = 0, PortExplicit = False\<rparr>, Edition = editionJava,
      Options = \<lparr>addressFamily_of = addressFamilyAny, allowPrivateAddresses = False\<rparr>,
      Count = 0, Interval = 1000000000, Deadline = 0, Timeout = 5 * 1000000000,
      Quiet = False, Timestamp = False, Numeric = False, JSON = False, ShowHelp = False, ShowVersion = False\<rparr>"

text \<open>An optional setting: the old value when the text is empty, nothing when it is refused.\<close>

definition optionalSetting :: "string \<Rightarrow> (string \<Rightarrow> int option) \<Rightarrow> int \<Rightarrow> int option" where
  "optionalSetting raw parse old = (if raw = '''' then Some old else parse raw)"

definition parseCount :: "string \<Rightarrow> int option" where
  "parseCount raw = (case atoi raw of Inl _ \<Rightarrow> None | Inr n \<Rightarrow> if n \<le> 0 then None else Some n)"

definition parseTimeout :: "string \<Rightarrow> int option" where
  "parseTimeout raw =
     (case parseSecondsDuration raw of
        None \<Rightarrow> None
      | Some timeout \<Rightarrow> if timeout > maxAllowedTimeout then None else Some timeout)"

definition chooseEdition :: "rawCLIConfig \<Rightarrow> edition option" where
  "chooseEdition raw =
     (let editionSetCount = (if raw_editionSet raw then 1 else 0) + (if raw_javaAlias raw then 1 else 0) +
            (if raw_bedrockAlias raw then 1 else (0 :: int))
      in if editionSetCount > 1 then None
         else if raw_javaAlias raw then Some editionJava
         else if raw_bedrockAlias raw then Some editionBedrock
         else if raw_editionSet raw then
           (case parseEdition (raw_edition raw) of Inl _ \<Rightarrow> None | Inr e \<Rightarrow> Some e)
         else Some editionJava)"

text \<open>\<^verbatim>\<open>normalizeCLIConfig\<close>: the configuration, or nothing where the status is \<^verbatim>\<open>parseStatusInvalid\<close>.\<close>

definition normalizeCLIConfig :: "rawCLIConfig \<Rightarrow> cliConfig option" where
  "normalizeCLIConfig raw =
     (if raw_showVersion raw then Some (defaultConfig\<lparr>ShowVersion := True\<rparr>)
      else if raw_forceIPv4 raw \<and> raw_forceIPv6 raw then None
      else
        (let family = (if raw_forceIPv4 raw then addressFamily4 else if raw_forceIPv6 raw then addressFamily6
                       else addressFamilyAny)
         in
        (case chooseEdition raw of None \<Rightarrow> None | Some ed \<Rightarrow>
         if raw_destination raw = '''' then None
         else
        (case parseDestination (raw_destination raw) of Inl _ \<Rightarrow> None | Inr target \<Rightarrow>
        (case target_validate target of Inl _ \<Rightarrow> None | Inr _ \<Rightarrow>
        (case optionalSetting (raw_count raw) parseCount 0 of None \<Rightarrow> None | Some n \<Rightarrow>
        (case optionalSetting (raw_interval raw) parseSecondsDuration (Interval defaultConfig) of None \<Rightarrow> None | Some interval \<Rightarrow>
        (case optionalSetting (raw_deadline raw) parseSecondsDuration 0 of None \<Rightarrow> None | Some deadline \<Rightarrow>
        (case optionalSetting (raw_timeout raw) parseTimeout (Timeout defaultConfig) of None \<Rightarrow> None | Some timeout \<Rightarrow>
           if raw_json raw \<and> (n > 0 \<or> raw_interval raw \<noteq> '''' \<or> raw_deadline raw \<noteq> '''' \<or> raw_quiet raw \<or> raw_timestamp raw) then None
           else
             Some \<lparr>Target = target, Edition = ed,
                   Options = \<lparr>addressFamily_of = family, allowPrivateAddresses = raw_allowPrivate raw\<rparr>,
                   Count = n, Interval = interval, Deadline = deadline, Timeout = timeout,
                   Quiet = raw_quiet raw, Timestamp = raw_timestamp raw, Numeric = raw_numeric raw, JSON = raw_json raw,
                   ShowHelp = False, ShowVersion = False\<rparr>)))))))))"

definition parseCLIConfig :: "string list \<Rightarrow> cliConfig option \<times> parseStatus" where
  "parseCLIConfig args =
     (case scanArgv args of
        (raw, parseStatusOK) \<Rightarrow>
          (case normalizeCLIConfig raw of
             None \<Rightarrow> (None, parseStatusInvalid)
           | Some cfg \<Rightarrow> (Some cfg, parseStatusOK))
      | (_, status) \<Rightarrow> (None, status))"

subsection \<open>The run of the program\<close>

definition durationToLatencyMs :: "int \<Rightarrow> int" where
  "durationToLatencyMs d = (let latencyMs = milliseconds d in if latencyMs < 1 then 1 else latencyMs)"

record pingResult =
  Server :: string
  LatencyMs :: int

text \<open>\<^verbatim>\<open>json.Marshal\<close> of a \<^verbatim>\<open>pingResult\<close>, with the names of its tags.\<close>

definition marshalPingResult :: "pingResult \<Rightarrow> string" where
  "marshalPingResult r =
     ''{'' @ jsonString ''server'' @ '':'' @ jsonString (Server r) @ '','' @
     jsonString ''latency_ms'' @ '':'' @ itoa (LatencyMs r) @ ''}''"

text \<open>The text between the backquotes; its lines are joined by newlines.\<close>

fun joinLines :: "string list \<Rightarrow> string" where
  "joinLines [] = ''''"
| "joinLines [l] = l"
| "joinLines (l # ls) = l @ newline @ joinLines ls"

definition usageText :: string where
  "usageText = trimSpace (joinLines
     ['''',
      ''Usage: minecraft-ping [options] destination'',
      '''',
      ''Options:'',
      ''  -4                    use IPv4 only'',
      ''  -6                    use IPv6 only'',
      ''  -c count              stop after count probes'',
      ''  -i interval           set the start-to-start interval in seconds'',
      ''  -w deadline           stop starting probes after deadline seconds'',
      ''  -W timeout            set socket I/O timeout after connection, in seconds'',
      ''  -q                    quiet output'',
      ''  -D                    print unix timestamp before each reply line'',
      ''  -n                    numeric output only'',
      ''  -j                    JSON output (single probe)'',
      ''  --allow-private       allow private, loopback, and local-only IP targets'',
      ''  -V, --version         print version and exit'',
      ''  -h, --help            show help'',
      ''  --edition kind        java or bedrock'',
      ''  --java                alias for --edition java'',
      ''  --bedrock             alias for --edition bedrock'',
      ''''])"

definition cliVersion :: string where
  "cliVersion = ''dev''"

text \<open>The release build replaces the value of \<^verbatim>\<open>cliVersion\<close>, which is therefore an argument.\<close>

definition versionLine :: "string \<Rightarrow> string" where
  "versionLine version = ''minecraft-ping '' @ version"

text \<open>A value of the interface \<^verbatim>\<open>preparedProbe\<close>, with its methods.\<close>

datatype preparedProbe = JavaProbe javaPreparedProbe | BedrockProbe bedrockPreparedProbe

fun any_banner :: "preparedProbe \<Rightarrow> bool \<Rightarrow> string" where
  "any_banner (JavaProbe p) = java_banner p"
| "any_banner (BedrockProbe p) = bedrock_banner p"

fun any_summaryLabel :: "preparedProbe \<Rightarrow> bool \<Rightarrow> string" where
  "any_summaryLabel (JavaProbe p) = java_summaryLabel p"
| "any_summaryLabel (BedrockProbe p) = bedrock_summaryLabel p"

fun any_observeSample :: "preparedProbe \<Rightarrow> probeSample \<Rightarrow> preparedProbe" where
  "any_observeSample (JavaProbe p) s = JavaProbe (java_observeSample p s)"
| "any_observeSample (BedrockProbe p) s = BedrockProbe (bedrock_observeSample p s)"

fun any_probe :: "preparedProbe \<Rightarrow> probeEnv \<Rightarrow> int \<Rightarrow> probeSample result" where
  "any_probe (JavaProbe p) = java_probe p"
| "any_probe (BedrockProbe p) = bedrock_probe p"

definition anyOps :: "preparedProbe probeOps" where
  "anyOps = \<lparr>op_banner = any_banner, op_summaryLabel = any_summaryLabel, op_observe = any_observeSample, op_probe = any_probe\<rparr>"

definition prepareProbe :: "system \<Rightarrow> goctx \<Rightarrow> cliConfig \<Rightarrow> preparedProbe result" where
  "prepareProbe sys ctx cfg =
     (if Edition cfg = editionBedrock then
        ebind (prepareBedrockProbe sys (newPingClient sys) (Target cfg) (Options cfg)) (\<lambda>p. Inr (BedrockProbe p))
      else ebind (prepareJavaProbe sys ctx (newPingClient sys) (Target cfg) (Options cfg)) (\<lambda>p. Inr (JavaProbe p)))"

record cliRuntime =
  newContext :: "goctx option"
  cr_session :: sessionRuntime
  prepare :: "(goctx \<Rightarrow> cliConfig \<Rightarrow> preparedProbe result) option"

text \<open>
  What the process meets: the context that a signal ends, the network of the preparation, the clock, the
  surroundings of the probes, the rounding of its floating point numbers, the text of an error and the version.
\<close>

record process =
  pr_signalContext :: goctx
  pr_system :: system
  pr_session :: sessionSystem
  pr_rounds :: sessionEnv
  pr_rnd :: "real \<Rightarrow> real"
  pr_errorText :: "goerr \<Rightarrow> string"
  pr_version :: string

definition defaultCLIRuntime :: "process \<Rightarrow> cliRuntime" where
  "defaultCLIRuntime pr =
     \<lparr>newContext = Some (pr_signalContext pr), cr_session = defaultSessionRuntime (pr_session pr),
      prepare = Some (prepareProbe (pr_system pr))\<rparr>"

record runOutput =
  out_stdout :: string
  out_stderr :: string
  out_code :: int

text \<open>The end of a run that writes a line to one of the two streams.\<close>

definition toStdout :: "string \<Rightarrow> int \<Rightarrow> runOutput" where
  "toStdout line code = \<lparr>out_stdout = line @ newline, out_stderr = '''', out_code = code\<rparr>"

definition toStderr :: "string \<Rightarrow> int \<Rightarrow> runOutput" where
  "toStderr line code = \<lparr>out_stdout = '''', out_stderr = line @ newline, out_code = code\<rparr>"

text \<open>
  \<^verbatim>\<open>runWithRuntime\<close>: what is written and the exit code, or nothing while the session needs more than
  \<open>fuel\<close> rounds.
\<close>

definition runWithRuntime :: "process \<Rightarrow> nat \<Rightarrow> string list \<Rightarrow> cliRuntime \<Rightarrow> runOutput option" where
  "runWithRuntime pr fuel argv0 rt =
     (let argv = (if length argv0 > 1 then drop 1 argv0 else []) in
      case parseCLIConfig argv of
        (cfg0, parseStatusHelp) \<Rightarrow> Some (toStdout usageText 0)
      | (cfg0, parseStatusInvalid) \<Rightarrow> Some (toStderr usageText 2)
      | (cfg0, parseStatusOK) \<Rightarrow>
          (let cfg = the cfg0 in
           if ShowVersion cfg then Some (toStdout (versionLine (pr_version pr)) 0)
           else
             (let ctx = the (orElse (newContext rt) (the (newContext (defaultCLIRuntime pr))));
                  prep = the (orElse (prepare rt) (prepareProbe (pr_system pr)));
                  session = rt_withDefaults (pr_session pr) (cr_session rt)
              in case prep ctx cfg of
                   Inl e \<Rightarrow> Some (toStderr (pr_errorText pr e) 2)
                 | Inr p \<Rightarrow>
                     if JSON cfg then
                       (case any_probe p (se_probe (pr_rounds pr) 0) (Timeout cfg) of
                          Inl e \<Rightarrow> Some (toStderr (pr_errorText pr e) 1)
                        | Inr sample \<Rightarrow>
                            Some (toStdout (marshalPingResult
                              \<lparr>Server = t_Host (Target cfg), LatencyMs = durationToLatencyMs (latency sample)\<rparr>) 0))
                     else
                       map_option (\<lambda>(out, code). \<lparr>out_stdout = out, out_stderr = '''', out_code = code\<rparr>)
                         (runTextSession (pr_rnd pr) (pr_session pr) anyOps (pr_rounds pr) fuel cfg p session))))"

definition run :: "process \<Rightarrow> nat \<Rightarrow> string list \<Rightarrow> runOutput option" where
  "run pr fuel argv = runWithRuntime pr fuel argv (defaultCLIRuntime pr)"

text \<open>\<^verbatim>\<open>main\<close> of \<^verbatim>\<open>minecraft-ping.go\<close>: the exit code of the process.\<close>

definition ping_main :: "process \<Rightarrow> nat \<Rightarrow> string list \<Rightarrow> int option" where
  "ping_main pr fuel args = map_option out_code (run pr fuel args)"

section \<open>The interface of the session\<close>

fun any_label :: "preparedProbe \<Rightarrow> string" where
  "any_label (JavaProbe p) = t_Host (jp_target p)"
| "any_label (BedrockProbe p) = t_Host (bp_target p)"

fun any_display :: "preparedProbe \<Rightarrow> addrPort" where
  "any_display (JavaProbe p) = jp_displayTarget p"
| "any_display (BedrockProbe p) = bp_displayTarget p"

interpretation any: prepared_probe any_banner any_summaryLabel any_observeSample any_probe any_label any_display 0
proof
  fix p :: preparedProbe and numeric s env timeout
  show "any_summaryLabel p numeric =
      (if numeric \<and> apIsValid (any_display p) then addrString (ap_addr (any_display p)) else any_label p)"
    by (cases p) (simp_all add: java.summary bedrock.summary)
  show "any_display (any_observeSample p s) = (if apIsValid (remote s) then remote s else any_display p)"
    by (cases p) (simp_all add: java.observe_display bedrock.observe_display)
  show "any_label (any_observeSample p s) = any_label p"
    by (cases p) (simp_all add: java.observe_label bedrock.observe_label)
  show "any_probe (any_observeSample p s) = any_probe p"
    by (cases p) (simp_all add: java.observe_probe bedrock.observe_probe)
  show "any_probe p env timeout = Inr s \<Longrightarrow> 0 \<le> latency s"
    by (cases p) (simp_all add: java.latency_nonneg bedrock.latency_nonneg)
qed simp

section \<open>Lemmas\<close>

subsection \<open>The configuration\<close>

lemma parseSecondsDuration_Some:
  assumes "parseSecondsDuration raw = Some d"
  shows "\<exists>t. readFloat (trimSpace raw) = Some t \<and>
    d = \<lfloor>textValue t (ft_exponent t) * 1000000000\<rfloor> \<and> 1 \<le> d \<and> d < 2 ^ 63"
proof -
  from assms obtain v where v: "ratSetString (trimSpace raw) = Some v" "0 < v"
    and d: "d = \<lfloor>v * 1000000000\<rfloor>" "1 \<le> d" "d < 2 ^ 63"
    by (auto simp: parseSecondsDuration_def Let_def split: if_splits option.splits)
  from v obtain t where "readFloat (trimSpace raw) = Some t" "v = textValue t (ft_exponent t)"
    by (auto simp: ratSetString_def Let_def split: if_splits option.splits)
  with d show ?thesis by blast
qed

lemma optionalSetting_cases:
  assumes "optionalSetting raw parse old = Some v"
  obtains (old) "raw = ''''" "v = old" | (new) "raw \<noteq> ''''" "parse raw = Some v"
  using assms by (auto simp: optionalSetting_def split: if_splits)

lemma optionalSetting_range:
  assumes "optionalSetting raw parse old = Some v" and "P old" and "\<And>d. parse raw = Some d \<Longrightarrow> P d"
  shows "P v"
  using assms by (auto elim: optionalSetting_cases)

lemma parseCount_range: "parseCount raw = Some n \<Longrightarrow> 0 < n \<and> n < 2 ^ 63"
  by (auto simp: parseCount_def split: sum.splits if_splits dest: atoi_range)

lemma seconds_range: "parseSecondsDuration raw = Some d \<Longrightarrow> 0 < d \<and> d < 2 ^ 63"
  by (drule parseSecondsDuration_Some) auto

lemma parseTimeout_range: "parseTimeout raw = Some d \<Longrightarrow> 0 < d \<and> d \<le> maxAllowedTimeout"
  by (auto simp: parseTimeout_def split: option.splits if_splits dest: seconds_range)

text \<open>The configurations that the rest of the program is written for.\<close>

definition validConfig :: "cliConfig \<Rightarrow> bool" where
  "validConfig cfg \<longleftrightarrow>
     target_validate (Target cfg) = Inr () \<and>
     addressFamily_of (Options cfg) \<in> {addressFamilyAny, addressFamily4, addressFamily6} \<and>
     0 \<le> Count cfg \<and> Count cfg < 2 ^ 63 \<and> 0 < Interval cfg \<and> Interval cfg < 2 ^ 63 \<and>
     0 \<le> Deadline cfg \<and> Deadline cfg < 2 ^ 63 \<and> 0 < Timeout cfg \<and> Timeout cfg \<le> maxAllowedTimeout \<and>
     (JSON cfg \<longrightarrow> Count cfg = 0 \<and> Interval cfg = 1000000000 \<and> Deadline cfg = 0 \<and> \<not> Quiet cfg \<and> \<not> Timestamp cfg)"

lemma normalizeCLIConfig_version: "raw_showVersion raw \<Longrightarrow> normalizeCLIConfig raw = Some (defaultConfig\<lparr>ShowVersion := True\<rparr>)"
  by (simp add: normalizeCLIConfig_def)

lemma normalizeCLIConfig_Some:
  assumes "normalizeCLIConfig raw = Some cfg" and "\<not> raw_showVersion raw"
  obtains target n interval deadline timeout ed family where
    "parseDestination (raw_destination raw) = Inr target" "target_validate target = Inr ()"
    "optionalSetting (raw_count raw) parseCount 0 = Some n"
    "optionalSetting (raw_interval raw) parseSecondsDuration 1000000000 = Some interval"
    "optionalSetting (raw_deadline raw) parseSecondsDuration 0 = Some deadline"
    "optionalSetting (raw_timeout raw) parseTimeout 5000000000 = Some timeout"
    "\<not> (raw_json raw \<and> (n > 0 \<or> raw_interval raw \<noteq> '''' \<or> raw_deadline raw \<noteq> '''' \<or> raw_quiet raw \<or> raw_timestamp raw))"
    "chooseEdition raw = Some ed" "family \<in> {addressFamilyAny, addressFamily4, addressFamily6}"
    "cfg = \<lparr>Target = target, Edition = ed,
            Options = \<lparr>addressFamily_of = family, allowPrivateAddresses = raw_allowPrivate raw\<rparr>,
            Count = n, Interval = interval, Deadline = deadline, Timeout = timeout,
            Quiet = raw_quiet raw, Timestamp = raw_timestamp raw, Numeric = raw_numeric raw, JSON = raw_json raw,
            ShowHelp = False, ShowVersion = False\<rparr>"
  using assms
  by (auto simp: normalizeCLIConfig_def Let_def defaultConfig_def
      split: if_splits option.splits sum.splits)

lemma normalizeCLIConfig_valid:
  assumes "normalizeCLIConfig raw = Some cfg" and "\<not> raw_showVersion raw"
  shows "validConfig cfg"
proof -
  from assms obtain target n interval deadline timeout ed family where
    settings: "target_validate target = Inr ()"
      "optionalSetting (raw_count raw) parseCount 0 = Some n"
      "optionalSetting (raw_interval raw) parseSecondsDuration 1000000000 = Some interval"
      "optionalSetting (raw_deadline raw) parseSecondsDuration 0 = Some deadline"
      "optionalSetting (raw_timeout raw) parseTimeout 5000000000 = Some timeout"
    and json: "\<not> (raw_json raw \<and> (n > 0 \<or> raw_interval raw \<noteq> '''' \<or> raw_deadline raw \<noteq> '''' \<or> raw_quiet raw \<or> raw_timestamp raw))"
    and family: "family \<in> {addressFamilyAny, addressFamily4, addressFamily6}"
    and cfg: "cfg = \<lparr>Target = target, Edition = ed,
            Options = \<lparr>addressFamily_of = family, allowPrivateAddresses = raw_allowPrivate raw\<rparr>,
            Count = n, Interval = interval, Deadline = deadline, Timeout = timeout,
            Quiet = raw_quiet raw, Timestamp = raw_timestamp raw, Numeric = raw_numeric raw, JSON = raw_json raw,
            ShowHelp = False, ShowVersion = False\<rparr>"
    by (rule normalizeCLIConfig_Some) blast
  have n: "0 \<le> n \<and> n < 2 ^ 63"
    by (rule optionalSetting_range [OF settings(2)]) (use parseCount_range in fastforce)+
  moreover have "0 < interval \<and> interval < 2 ^ 63"
    by (rule optionalSetting_range [OF settings(3)]) (use seconds_range in fastforce)+
  moreover have "0 \<le> deadline \<and> deadline < 2 ^ 63"
    by (rule optionalSetting_range [OF settings(4)]) (use seconds_range in fastforce)+
  moreover have "0 < timeout \<and> timeout \<le> maxAllowedTimeout"
    by (rule optionalSetting_range [OF settings(5)]) (use parseTimeout_range in \<open>fastforce simp: maxAllowedTimeout_def\<close>)+
  moreover have "raw_json raw \<longrightarrow> n = 0 \<and> interval = 1000000000 \<and> deadline = 0 \<and> \<not> raw_quiet raw \<and> \<not> raw_timestamp raw"
    using json settings(3,4) n by (auto simp: optionalSetting_def)
  ultimately show ?thesis
    using settings(1) family by (simp add: validConfig_def cfg)
qed

lemma parseCLIConfig_OK:
  assumes "parseCLIConfig args = (cfg0, parseStatusOK)"
  obtains raw cfg where "scanArgv args = (raw, parseStatusOK)" "normalizeCLIConfig raw = Some cfg" "cfg0 = Some cfg"
    "ShowVersion cfg = raw_showVersion raw"
proof -
  from assms obtain raw cfg where raw: "scanArgv args = (raw, parseStatusOK)" "normalizeCLIConfig raw = Some cfg" "cfg0 = Some cfg"
    by (auto simp: parseCLIConfig_def split: prod.splits parseStatus.splits option.splits)
  moreover have "ShowVersion cfg = raw_showVersion raw"
  proof (cases "raw_showVersion raw")
    case True
    with raw(2) show ?thesis by (auto simp: normalizeCLIConfig_version)
  next
    case False
    with raw(2) show ?thesis by (auto elim: normalizeCLIConfig_Some)
  qed
  ultimately show thesis using that by blast
qed

subsection \<open>The output\<close>

lemma durationToLatencyMs_pos: "0 < durationToLatencyMs d"
  by (simp add: durationToLatencyMs_def Let_def)

lemma foldl_jstep_append: "foldl jstep st (s @ t) = foldl jstep (foldl jstep st s) t"
  by simp

lemma marshalPingResult_valid:
  assumes "0 < LatencyMs r"
  shows "jsonValid (marshalPingResult r)"
proof -
  have quoted: "foldl jstep (beginStringOrEmpty, ps) (jsonString s) = (endValue, ps)"
    "foldl jstep (beginString, ps) (jsonString s) = (endValue, ps)"
    "foldl jstep (beginValue, ps) (jsonString s) = (endValue, ps)" for ps s
    by (simp_all add: scan_jsonString)
  have digits: "\<not> isDigit CHR ''}''" "itoa (LatencyMs r) = natText (LatencyMs r)"
    using assms by (simp_all add: isDigit_def digitVal_def itoa_def)
  show ?thesis
    using scan_natText [OF assms, of "[parseObjectValue]"]
    by (simp add: jsonValid_def marshalPingResult_def quoted digits stepBeginValue_def jsonSpace_def jpush_def
        stepZero_def jpop_def stepEndTop_def)
qed

lemma whole_text:
  assumes "0 \<le> n"
  shows "readFloat (natText n) = Some \<lparr>ft_neg = False, ft_hex = False, ft_mantissa = n, ft_fraction = 0, ft_exponent = 0, ft_capped = 0\<rparr>"
  using assms by (simp add: readFloat_digits)

lemma parseSecondsDuration_whole:
  assumes "0 \<le> n"
  shows "parseSecondsDuration (itoa n) = (if 1 \<le> n \<and> n \<le> 9223372036 then Some (n * 1000000000) else None)"
proof -
  have rat: "ratSetString (natText n) = Some (of_int n)"
    using whole_text [OF assms] by (simp add: ratSetString_def textValue_def powerOf_def)
  have "parseFloatPositive (natText n)" if "1 \<le> n" "n \<le> 9223372036"
  proof -
    have "of_int n < (2 :: rat) ^ 1024 - 2 ^ 970"
      using that(2) by (rule_tac order_le_less_trans [of _ "9223372036"]) simp_all
    moreover have "1 / 2 ^ 1075 < (of_int n :: rat)"
      using that(1) by (rule_tac order_less_le_trans [of _ 1]) (simp_all add: divide_less_eq)
    ultimately show ?thesis
      using whole_text [OF assms] by (simp add: parseFloatPositive_def textValue_def powerOf_def Let_def)
  qed
  moreover have "(of_int n :: rat) * 1000000000 > 2 ^ 63 - 1 \<longleftrightarrow> n > 9223372036"
  proof -
    have "(of_int n :: rat) * 1000000000 > 2 ^ 63 - 1 \<longleftrightarrow> of_int (n * 1000000000) > (of_int (2 ^ 63 - 1) :: rat)" by simp
    also have "\<dots> \<longleftrightarrow> n > 9223372036" unfolding of_int_less_iff by (simp, linarith)
    finally show ?thesis .
  qed
  moreover have "\<lfloor>(of_int n :: rat) * 1000000000\<rfloor> = n * 1000000000"
    using floor_of_int [of "n * 1000000000", where ?'a = rat] by simp
  ultimately show ?thesis
    using assms by (simp add: parseSecondsDuration_def itoa_def trimSpace_natText rat Let_def)
qed

subsection \<open>The run\<close>

lemma run_eq:
  "run pr fuel argv =
     (case parseCLIConfig (drop 1 argv) of
        (cfg0, parseStatusHelp) \<Rightarrow> Some (toStdout usageText 0)
      | (cfg0, parseStatusInvalid) \<Rightarrow> Some (toStderr usageText 2)
      | (cfg0, parseStatusOK) \<Rightarrow>
          if ShowVersion (the cfg0) then Some (toStdout (versionLine (pr_version pr)) 0)
          else
            (case prepareProbe (pr_system pr) (pr_signalContext pr) (the cfg0) of
               Inl e \<Rightarrow> Some (toStderr (pr_errorText pr e) 2)
             | Inr p \<Rightarrow>
                 if JSON (the cfg0) then
                   (case any_probe p (se_probe (pr_rounds pr) 0) (Timeout (the cfg0)) of
                      Inl e \<Rightarrow> Some (toStderr (pr_errorText pr e) 1)
                    | Inr sample \<Rightarrow>
                        Some (toStdout (marshalPingResult
                          \<lparr>Server = t_Host (Target (the cfg0)), LatencyMs = durationToLatencyMs (latency sample)\<rparr>) 0))
                 else
                   map_option (\<lambda>(out, code). \<lparr>out_stdout = out, out_stderr = '''', out_code = code\<rparr>)
                     (runTextSession (pr_rnd pr) (pr_session pr) anyOps (pr_rounds pr) fuel (the cfg0) p
                       (defaultSessionRuntime (pr_session pr)))))"
proof -
  have argv: "(if length argv > 1 then drop 1 argv else []) = drop 1 argv" by simp
  have defaults: "the (orElse (newContext (defaultCLIRuntime pr)) x) = pr_signalContext pr"
    "the (orElse (prepare (defaultCLIRuntime pr)) y) = prepareProbe (pr_system pr)"
    "rt_withDefaults (pr_session pr) (cr_session (defaultCLIRuntime pr)) = defaultSessionRuntime (pr_session pr)" for x y
    by (simp_all add: defaultCLIRuntime_def orElse_def rt_withDefaults_def defaultSessionRuntime_def Let_def)
  show ?thesis
    unfolding run_def runWithRuntime_def argv Let_def defaults by (rule refl)
qed

lemma sessionSummary_out: "sn_out (sessionSummary rnd ops cfg now st) \<noteq> []"
  by (simp add: sessionSummary_def writeSessionLine_def Let_def newline_def)

lemma runTextSession_result:
  assumes "runTextSession rnd sys ops env fuel cfg p rt = Some (out, code)"
  shows "code \<in> {0, 1} \<and> out \<noteq> []"
proof -
  have "sessionExit cfg st \<in> {0, 1}" for st by (simp add: sessionExit_def)
  with assms show ?thesis by (auto elim!: runTextSession_Some simp: sessionSummary_out)
qed

lemma defaultSessionRuntime_eq:
  "defaultSessionRuntime sys = \<lparr>rt_now = Some (sy_now sys), rt_sleep = rt_sleep (defaultSessionRuntime sys)\<rparr>"
  by (simp add: defaultSessionRuntime_def)

text \<open>Another network under the same probe.\<close>

fun changeDial :: "dialContextFunc \<Rightarrow> preparedProbe \<Rightarrow> preparedProbe" where
  "changeDial d (JavaProbe p) = JavaProbe (p\<lparr>jp_client := (jp_client p)\<lparr>dialContext := Some d\<rparr>\<rparr>)"
| "changeDial d (BedrockProbe p) = BedrockProbe (p\<lparr>bp_client := (bp_client p)\<lparr>dialContext := Some d\<rparr>\<rparr>)"

lemma newPingClient_dial: "newPingClient (sys\<lparr>sys_dial := d\<rparr>) = (newPingClient sys)\<lparr>dialContext := Some d\<rparr>"
  by (simp add: newPingClient_def)

lemma prepareProbe_dial:
  "prepareProbe (sys\<lparr>sys_dial := d\<rparr>) ctx cfg = ebind (prepareProbe sys ctx cfg) (\<lambda>p. Inr (changeDial d p))"
proof -
  have route: "resolveJavaRouteContext (sys\<lparr>sys_dial := d\<rparr>) ctx ((newPingClient sys)\<lparr>dialContext := Some d\<rparr>) t =
      resolveJavaRouteContext sys ctx (newPingClient sys) t" for t
    by (simp add: resolveJavaRouteContext_def withDefaults_def Let_def)
  have java: "resolveDialCandidates ((newPingClient sys)\<lparr>dialContext := Some d\<rparr>) e options =
      resolveDialCandidates (newPingClient sys) e options" for e options
    by (simp add: resolveDialCandidates_def cong: option.case_cong)
  have bedrock: "resolveBedrockCandidates ((newPingClient sys)\<lparr>dialContext := Some d\<rparr>) t options =
      resolveBedrockCandidates (newPingClient sys) t options" for t options
    by (simp add: resolveBedrockCandidates_def cong: option.case_cong)
  have client: "withDefaults sys' ((newPingClient sys)\<lparr>dialContext := Some d\<rparr>) = (newPingClient sys)\<lparr>dialContext := Some d\<rparr>" for sys'
    by (simp add: withDefaults_def newPingClient_def orElse_def defaultDialFallbackDelay_def)
  have "prepareJavaProbe (sys\<lparr>sys_dial := d\<rparr>) ctx (newPingClient (sys\<lparr>sys_dial := d\<rparr>)) t options =
      ebind (prepareJavaProbe sys ctx (newPingClient sys) t options)
        (\<lambda>p. Inr (p\<lparr>jp_client := (jp_client p)\<lparr>dialContext := Some d\<rparr>\<rparr>))" for t options
    by (simp only: prepareJavaProbe_def newPingClient_dial client withDefaults_newPingClient route java Let_def)
      (simp add: ebind_def split: sum.split)
  moreover have "prepareBedrockProbe (sys\<lparr>sys_dial := d\<rparr>) (newPingClient (sys\<lparr>sys_dial := d\<rparr>)) t options =
      ebind (prepareBedrockProbe sys (newPingClient sys) t options)
        (\<lambda>p. Inr (p\<lparr>bp_client := (bp_client p)\<lparr>dialContext := Some d\<rparr>\<rparr>))" for t options
    by (simp only: prepareBedrockProbe_def newPingClient_dial client withDefaults_newPingClient bedrock Let_def)
      (simp add: ebind_def split: sum.split)
  ultimately show ?thesis
    by (simp only: prepareProbe_def split: if_split) (simp add: ebind_def split: sum.split)
qed

lemma changeDial_observe: "any_observeSample (changeDial d p) s = changeDial d (any_observeSample p s)"
  by (cases p) (simp_all add: java_observeSample_def bedrock_observeSample_def)

lemma changeDial_shown:
  "any_summaryLabel (changeDial d p) n = any_summaryLabel p n" "any_banner (changeDial d p) n = any_banner p n"
proof -
  show label: "any_summaryLabel (changeDial d p) n = any_summaryLabel p n" for n
    by (cases p) (simp_all add: java_summaryLabel_def bedrock_summaryLabel_def)
  show "any_banner (changeDial d p) n = any_banner p n"
  proof (cases p)
    case (JavaProbe q)
    have "jp_route (q\<lparr>jp_client := c\<rparr>) = jp_route q" "jp_target (q\<lparr>jp_client := c\<rparr>) = jp_target q"
      "jp_displayTarget (q\<lparr>jp_client := c\<rparr>) = jp_displayTarget q" for c by simp_all
    with JavaProbe label [of n] show ?thesis
      by (simp only: changeDial.simps any_banner.simps any_summaryLabel.simps java_banner_def)
  next
    case (BedrockProbe q)
    have "bp_target (q\<lparr>bp_client := c\<rparr>) = bp_target q"
      "bp_displayTarget (q\<lparr>bp_client := c\<rparr>) = bp_displayTarget q" for c by simp_all
    with BedrockProbe label [of n] show ?thesis
      by (simp only: changeDial.simps any_banner.simps any_summaryLabel.simps bedrock_banner_def)
  qed
qed

lemma prepareProbe_own_dial: "prepareProbe sys ctx cfg = Inr p \<Longrightarrow> changeDial (sys_dial sys) p = p"
  using prepareProbe_dial [where sys = sys and d = "sys_dial sys" and ctx = ctx and cfg = cfg] by (simp add: ebind_def)

text \<open>The schedules of the dials of a Java probe, in every round, report every attempt.\<close>

fun completeRounds :: "sessionEnv \<Rightarrow> preparedProbe \<Rightarrow> nat \<Rightarrow> bool" where
  "completeRounds env (JavaProbe p) i \<longleftrightarrow> complete_schedule (env_sched (se_probe env i)) (jp_candidates p)"
| "completeRounds env (BedrockProbe p) i \<longleftrightarrow> True"

definition alikeOnPermitted :: "pingOptions \<Rightarrow> dialContextFunc \<Rightarrow> dialContextFunc \<Rightarrow> bool" where
  "alikeOnPermitted options d d' \<longleftrightarrow>
     (\<forall>x. permitted options x \<longrightarrow>
        d (cand_Network x) (cand_String x) = d' (cand_Network x) (cand_String x) \<and>
        d (cand_UDPNetwork x) (cand_String x) = d' (cand_UDPNetwork x) (cand_String x))"

lemma any_probe_permitted:
  assumes "prepareProbe sys ctx cfg = Inr p" and "completeRounds env p i"
    and "alikeOnPermitted (Options cfg) (sys_dial sys) d'"
  shows "any_probe (changeDial d' p) (se_probe env i) t = any_probe p (se_probe env i) t"
proof -
  have "any_probe (changeDial (sys_dial sys) p) (se_probe env i) t = any_probe (changeDial d' p) (se_probe env i) t"
  proof (cases p)
    case (JavaProbe q)
    with assms(1) have "prepareJavaProbe sys ctx (newPingClient sys) (Target cfg) (Options cfg) = Inr q"
      by (auto simp: prepareProbe_def result_simps split: if_splits)
    then show ?thesis
      unfolding JavaProbe changeDial.simps any_probe.simps
      by (rule java_probe_permitted) (use assms(2,3) JavaProbe in \<open>simp_all add: alikeOnPermitted_def\<close>)
  next
    case (BedrockProbe q)
    with assms(1) have "prepareBedrockProbe sys (newPingClient sys) (Target cfg) (Options cfg) = Inr q"
      by (auto simp: prepareProbe_def result_simps split: if_splits)
    then show ?thesis
      unfolding BedrockProbe changeDial.simps any_probe.simps
      by (rule bedrock_probe_permitted) (use assms(3) in \<open>simp add: alikeOnPermitted_def\<close>)
  qed
  then show ?thesis by (simp add: prepareProbe_own_dial [OF assms(1)])
qed

lemma changeDial_observed: "foldl any_observeSample (changeDial d p) ss = changeDial d (foldl any_observeSample p ss)"
  by (induction ss arbitrary: p) (simp_all add: changeDial_observe)

lemma changeDial_unnoticed:
  assumes "prepareProbe sys ctx cfg = Inr p" and "\<And>i. completeRounds env p i"
    and "alikeOnPermitted (Options cfg) (sys_dial sys) d'"
  shows "unnoticed anyOps env (changeDial d') p"
proof -
  have "any_probe (changeDial d' (foldl any_observeSample p ss)) (se_probe env i) t =
      any_probe (foldl any_observeSample p ss) (se_probe env i) t" for ss i t
    using any.observed_probe [of "changeDial d' p" ss] any.observed_probe [of p ss] any_probe_permitted [OF assms(1) assms(2) assms(3)]
    by (simp add: changeDial_observed)
  then show ?thesis
    by (simp add: unnoticed_def anyOps_def changeDial_observe changeDial_shown)
qed

section \<open>Properties\<close>

text \<open>
  C1: the program as a whole reaches no address it must not reach. Take any arguments that are accepted, and
  any second network that behaves like the first one on the addresses that are valid, of the requested family
  and public (or allowed by \<^verbatim>\<open>--allow-private\<close>). What the program writes and its exit code are the same on both,
  in a text session of any length and in the JSON mode, whatever the name services return.
\<close>

theorem run_reaches_permitted_only:
  assumes "parseCLIConfig (drop 1 argv) = (Some cfg, parseStatusOK)"
    and "alikeOnPermitted (Options cfg) (sys_dial (pr_system pr)) d'"
    and "\<And>p i. prepareProbe (pr_system pr) (pr_signalContext pr) cfg = Inr p \<Longrightarrow> completeRounds (pr_rounds pr) p i"
  shows "run (pr\<lparr>pr_system := (pr_system pr)\<lparr>sys_dial := d'\<rparr>\<rparr>) fuel argv = run pr fuel argv"
proof (cases "prepareProbe (pr_system pr) (pr_signalContext pr) cfg")
  case (Inl e)
  then show ?thesis by (simp add: run_eq assms(1) prepareProbe_dial ebind_def del: One_nat_def)
next
  case (Inr p)
  note rounds = assms(3) [OF Inr]
  have "runTextSession rnd sys anyOps (pr_rounds pr) fuel cfg (changeDial d' p) rt =
      runTextSession rnd sys anyOps (pr_rounds pr) fuel cfg p rt" for rnd sys rt
    using changeDial_unnoticed [OF Inr rounds assms(2)] by (rule runTextSession_unnoticed)
  with any_probe_permitted [OF Inr rounds assms(2)] Inr show ?thesis
    by (simp add: run_eq assms(1) prepareProbe_dial ebind_def del: One_nat_def cong: sum.case_cong)
qed

text \<open>
  C9: the settings the program runs with. Arguments that are accepted, other than a request for the version,
  give a target that passes validation, a count from 0 to the largest \<^verbatim>\<open>int\<close>, a positive interval, a deadline
  that is not negative, a positive timeout of at most half a minute, and in JSON mode none of the settings of
  the text session.
\<close>

theorem cli_config_valid:
  assumes "parseCLIConfig args = (cfg0, parseStatusOK)"
  shows "\<exists>cfg. cfg0 = Some cfg \<and> (ShowVersion cfg \<or> validConfig cfg)"
  using assms by (metis parseCLIConfig_OK normalizeCLIConfig_valid)

text \<open>
  C27: a duration in seconds is exact. When a text is accepted, the duration in nanoseconds is the exact value
  of the decimal or hexadecimal number, cut to a whole number, and lies between 1 and the largest \<^verbatim>\<open>int64\<close>; no
  rounding of floating point numbers shows.
\<close>

theorem seconds_exact:
  assumes "parseSecondsDuration raw = Some d"
  shows "\<exists>t. readFloat (trimSpace raw) = Some t \<and>
    of_int d \<le> textValue t (ft_exponent t) * 1000000000 \<and> textValue t (ft_exponent t) * 1000000000 < of_int d + 1 \<and>
    1 \<le> d \<and> d < 2 ^ 63"
proof -
  from parseSecondsDuration_Some [OF assms] obtain t where "readFloat (trimSpace raw) = Some t"
    and "d = \<lfloor>textValue t (ft_exponent t) * 1000000000\<rfloor>" "1 \<le> d" "d < 2 ^ 63" by blast
  with floor_correct [of "textValue t (ft_exponent t) * 1000000000"] show ?thesis by auto
qed

text \<open>
  A whole number of seconds in decimal digits is accepted exactly from 1 to 9223372036, the last one whose
  nanoseconds fit into an \<^verbatim>\<open>int64\<close>, and gives that many seconds.
\<close>

theorem whole_seconds:
  assumes "0 \<le> n"
  shows "parseSecondsDuration (itoa n) = (if 1 \<le> n \<and> n \<le> 9223372036 then Some (n * 1000000000) else None)"
  using assms by (rule parseSecondsDuration_whole)

text \<open>
  C25: a run in JSON mode ends after its one probe. It writes one line of valid JSON and exits with 0, or it
  writes the error to the second stream and nothing to the first, and exits with 2 when the preparation failed
  and with 1 when the probe did.
\<close>

theorem json_run:
  assumes "parseCLIConfig (drop 1 argv) = (Some cfg, parseStatusOK)" and "JSON cfg"
  shows "\<exists>r. run pr fuel argv = Some r \<and>
    (case prepareProbe (pr_system pr) (pr_signalContext pr) cfg of
       Inl e \<Rightarrow> out_code r = 2 \<and> out_stdout r = '''' \<and> out_stderr r = pr_errorText pr e @ newline
     | Inr p \<Rightarrow>
         (case any_probe p (se_probe (pr_rounds pr) 0) (Timeout cfg) of
            Inl e \<Rightarrow> out_code r = 1 \<and> out_stdout r = '''' \<and> out_stderr r = pr_errorText pr e @ newline
          | Inr s \<Rightarrow> out_code r = 0 \<and> out_stderr r = '''' \<and>
              (\<exists>line. out_stdout r = line @ newline \<and> jsonValid line \<and>
                 line = marshalPingResult \<lparr>Server = t_Host (Target cfg), LatencyMs = max 1 (milliseconds (latency s))\<rparr>)))"
proof -
  have "\<not> ShowVersion cfg"
    using assms by (auto elim!: parseCLIConfig_OK simp: normalizeCLIConfig_version defaultConfig_def)
  moreover have "durationToLatencyMs d = max 1 (milliseconds d)" for d
    by (simp add: durationToLatencyMs_def Let_def max_def)
  ultimately show ?thesis
    using assms marshalPingResult_valid
    by (auto simp: run_eq toStdout_def toStderr_def simp del: One_nat_def split: sum.split)
qed

text \<open>
  C26: the exit code says what happened. It is 0, 1 or 2; with 0 the second stream is empty and the first is
  not, with 2 it is the other way round, and 2 comes exactly from arguments that are refused and from a
  preparation that failed.
\<close>

theorem run_exit_code:
  assumes "run pr fuel argv = Some r"
  shows "out_code r \<in> {0, 1, 2} \<and> (out_code r = 0 \<longrightarrow> out_stderr r = '''' \<and> out_stdout r \<noteq> '''') \<and>
    (out_code r = 2 \<longrightarrow> out_stdout r = '''' \<and> out_stderr r \<noteq> '''') \<and>
    (out_code r = 2 \<longleftrightarrow>
       (case parseCLIConfig (drop 1 argv) of
          (cfg0, parseStatusInvalid) \<Rightarrow> True
        | (cfg0, parseStatusHelp) \<Rightarrow> False
        | (cfg0, parseStatusOK) \<Rightarrow> \<not> ShowVersion (the cfg0) \<and>
            (\<exists>e. prepareProbe (pr_system pr) (pr_signalContext pr) (the cfg0) = Inl e)))"
  using assms
  by (auto simp: run_eq toStdout_def toStderr_def newline_def simp del: One_nat_def dest!: runTextSession_result
      split: prod.splits parseStatus.splits if_splits sum.splits)

text \<open>
  A run ends when its arguments ask for no text session, give a count, or give a deadline that the clock
  reaches: after no more rounds than the count, or than readings of the clock before the deadline.
\<close>

theorem run_ends:
  assumes "\<And>cfg. parseCLIConfig (drop 1 argv) = (Some cfg, parseStatusOK) \<Longrightarrow>
    ShowVersion cfg \<or> JSON cfg \<or> Count cfg > 0 \<and> nat (Count cfg) < fuel \<or>
    Deadline cfg > 0 \<and> N < fuel \<and>
      (\<forall>k \<ge> N. sy_now (pr_session pr) 0 + Deadline cfg \<le> sy_now (pr_session pr) k)"
  shows "\<exists>r. run pr fuel argv = Some r"
proof (cases "parseCLIConfig (drop 1 argv)")
  case (Pair cfg0 status)
  show ?thesis
  proof (cases status)
    case parseStatusOK
    with Pair obtain cfg where cfg: "cfg0 = Some cfg" by (auto elim: parseCLIConfig_OK)
    then have parse: "parseCLIConfig (drop 1 argv) = (Some cfg, parseStatusOK)" using Pair parseStatusOK by simp
    show ?thesis
    proof (cases "ShowVersion cfg \<or> JSON cfg")
      case True
      then show ?thesis unfolding run_eq parse by (auto split: sum.split)
    next
      case False
      with assms [OF parse] have "Count cfg > 0 \<and> nat (Count cfg) < fuel \<or> Deadline cfg > 0 \<and> N < fuel \<and>
        (\<forall>k \<ge> N. sy_now (pr_session pr) 0 + Deadline cfg \<le> sy_now (pr_session pr) k)" by blast
      note session = runTextSession_ends [OF this]
      show ?thesis
      proof (cases "prepareProbe (pr_system pr) (pr_signalContext pr) cfg")
        case (Inr p)
        obtain out code where "runTextSession (pr_rnd pr) (pr_session pr) anyOps (pr_rounds pr) fuel cfg p
            (defaultSessionRuntime (pr_session pr)) = Some (out, code)"
          using session [of "pr_rnd pr" "pr_session pr" anyOps "pr_rounds pr" p
              "rt_sleep (defaultSessionRuntime (pr_session pr))"]
          unfolding defaultSessionRuntime_eq [of "pr_session pr", symmetric] by blast
        with Inr False show ?thesis unfolding run_eq parse by simp
      qed (use False in \<open>simp add: run_eq parse del: One_nat_def\<close>)
    qed
  qed (use Pair in \<open>simp_all add: run_eq del: One_nat_def\<close>)
qed

section \<open>Instances\<close>

definition exampleArgs :: "string list" where
  "exampleArgs = [''minecraft-ping'', ''-j'', ''example.com'']"

definition exampleJsonConfig :: cliConfig where
  "exampleJsonConfig =
     \<lparr>Target = exampleTarget, Edition = editionJava, Options = exampleOptions,
      Count = 0, Interval = 1000000000, Deadline = 0, Timeout = 5000000000, Quiet = False, Timestamp = False, Numeric = False,
      JSON = True, ShowHelp = False, ShowVersion = False\<rparr>"

lemma example_parse: "parseCLIConfig (drop 1 exampleArgs) = (Some exampleJsonConfig, parseStatusOK)"
  by code_simp

lemma example_float:
  "trimSpace ''1.5'' = ''1.5''"
  "readFloat ''1.5'' = Some \<lparr>ft_neg = False, ft_hex = False, ft_mantissa = 15, ft_fraction = 1, ft_exponent = 0, ft_capped = 0\<rparr>"
  by code_simp+

lemma example_seconds: "parseSecondsDuration ''1.5'' = Some 1500000000"
proof -
  have "1 / 2 ^ 1075 < (3 / 2 :: rat)" by (rule order_less_le_trans [of _ 1]) (simp_all add: divide_less_eq)
  moreover have "(3 / 2 :: rat) < 2 ^ 1024 - 2 ^ 970" by (rule order_less_trans [of _ 2]) simp_all
  moreover have "textValue \<lparr>ft_neg = False, ft_hex = False, ft_mantissa = 15, ft_fraction = 1, ft_exponent = 0, ft_capped = 0\<rparr> 0 = 3 / 2"
    by (simp add: textValue_def powerOf_def)
  ultimately have "parseFloatPositive ''1.5''" "ratSetString ''1.5'' = Some (3 / 2)"
    by (simp_all add: parseFloatPositive_def ratSetString_def example_float Let_def)
  then show ?thesis by (simp add: parseSecondsDuration_def example_float Let_def)
qed

definition exampleProcess :: process where
  "exampleProcess =
     \<lparr>pr_signalContext = env_ctx exampleEnv, pr_system = exampleSystem,
      pr_session = \<lparr>sy_now = int, sy_ctxDone = (\<lambda>_. None)\<rparr>,
      pr_rounds = \<lparr>se_probe = (\<lambda>_. exampleEnv), se_ctxErr = (\<lambda>_. None)\<rparr>,
      pr_rnd = (\<lambda>x. x), pr_errorText = (\<lambda>_. ''error''), pr_version = cliVersion\<rparr>"

lemma exampleProcess_sel [simp]:
  "pr_signalContext exampleProcess = env_ctx exampleEnv" "pr_system exampleProcess = exampleSystem"
  "se_probe (pr_rounds exampleProcess) i = exampleEnv" "pr_session exampleProcess = \<lparr>sy_now = int, sy_ctxDone = (\<lambda>_. None)\<rparr>"
  by (simp_all add: exampleProcess_def)

lemma exampleJsonConfig_sel [simp]:
  "Options exampleJsonConfig = exampleOptions" "Target exampleJsonConfig = exampleTarget" "Edition exampleJsonConfig = editionJava"
  "JSON exampleJsonConfig" "\<not> ShowVersion exampleJsonConfig"
  by (simp_all add: exampleJsonConfig_def)

lemma example_prepareProbe: "prepareProbe exampleSystem (env_ctx exampleEnv) exampleJsonConfig = Inr (JavaProbe exampleProbe)"
  by (simp add: prepareProbe_def example_prepared)

text \<open>The network of the example, with a loopback address that refuses.\<close>

definition exampleRefusal :: dialContextFunc where
  "exampleRefusal n a = (if a = ''127.0.0.1:25570'' then Inl EOF else sys_dial exampleSystem n a)"

theorem run_reaches_permitted_only_witness:
  "run (exampleProcess\<lparr>pr_system := (pr_system exampleProcess)\<lparr>sys_dial := exampleRefusal\<rparr>\<rparr>) 0 exampleArgs =
   run exampleProcess 0 exampleArgs"
proof (rule run_reaches_permitted_only [OF example_parse])
  show "alikeOnPermitted (Options exampleJsonConfig) (sys_dial (pr_system exampleProcess)) exampleRefusal"
    using example_not_loopback by (simp add: alikeOnPermitted_def exampleRefusal_def)
  show "completeRounds (pr_rounds exampleProcess) p i"
    if "prepareProbe (pr_system exampleProcess) (pr_signalContext exampleProcess) exampleJsonConfig = Inr p" for p i
    using that example_prepareProbe example_schedule by (auto simp: exampleProbe_def)
qed

theorem cli_config_valid_witness: "validConfig exampleJsonConfig"
  using cli_config_valid [OF example_parse] by simp

theorem seconds_exact_witness: "\<exists>t. readFloat (trimSpace ''1.5'') = Some t \<and> 1500000000 \<le> textValue t (ft_exponent t) * 1000000000"
  using seconds_exact [OF example_seconds] by auto

theorem whole_seconds_witness: "parseSecondsDuration (itoa 30) = Some 30000000000"
  using whole_seconds [of 30] by simp

theorem json_run_witness: "\<exists>r. run exampleProcess 0 exampleArgs = Some r \<and> out_code r \<in> {0, 1}"
  using json_run [OF example_parse, of exampleProcess 0] example_prepareProbe
  by (cases "java_probe exampleProbe exampleEnv (Timeout exampleJsonConfig)") auto

theorem run_exit_code_witness: "\<exists>r. run exampleProcess 0 [''minecraft-ping''] = Some r \<and> out_code r = 2"
proof -
  have parse: "parseCLIConfig (drop 1 [''minecraft-ping'']) = (None, parseStatusInvalid)" by code_simp
  then have "run exampleProcess 0 [''minecraft-ping''] = Some (toStderr usageText 2)"
    unfolding run_eq by simp
  from this run_exit_code [OF this] parse show ?thesis by (auto simp del: One_nat_def)
qed

theorem run_ends_witness: "\<exists>r. run exampleProcess 0 exampleArgs = Some r"
  by (rule run_ends [where N = 0]) (use example_parse in auto)

end
