(* ===== verification/Staging_Bedrock.thy ===== *)
theory Staging_Bedrock
  imports Bedrock Protocol
begin

text \<open>
  \<^verbatim>\<open>internal/stagingserver/bedrock.go\<close>: the Bedrock side of the staging server. The status text and its
  validation, the parser of the unconnected ping, the encoder of the pong, the loop that answers
  datagrams, and the probe of the harness. The names that \<^verbatim>\<open>bedrock.go\<close> of the client has as well carry the
  prefix \<open>ss_\<close>.
\<close>

section \<open>Definitions\<close>

definition ss_bedrockUnconnectedPingPacketID :: byte where
  "ss_bedrockUnconnectedPingPacketID = 0x01"

definition ss_bedrockUnconnectedPongPacketID :: byte where
  "ss_bedrockUnconnectedPongPacketID = 0x1c"

definition bedrockServerGUID :: u64 where
  "bedrockServerGUID = 1"

definition bedrockProbeClientGUID :: u64 where
  "bedrockProbeClientGUID = 1"

definition maxBedrockStatusLength :: int where
  "maxBedrockStatusLength = 65535"

definition ss_bedrockMagic :: "byte list" where
  "ss_bedrockMagic =
     [0x00, 0xff, 0xff, 0x00,
      0xfe, 0xfe, 0xfe, 0xfe,
      0xfd, 0xfd, 0xfd, 0xfd,
      0x12, 0x34, 0x56, 0x78]"

definition DefaultBedrockStatus :: "int \<Rightarrow> int \<Rightarrow> string" where
  "DefaultBedrockStatus ipv4Port ipv6Port =
     ''MCPE;minecraft-ping staging;924;1.26.3;0;10;1;staging;Creative;1;'' @ itoa ipv4Port @ '';'' @ itoa ipv6Port @ '';0;''"

definition validateBedrockStatus :: "string \<Rightarrow> unit result" where
  "validateBedrockStatus status =
     (if status = '''' then Inl (ErrNew ''bedrock status must not be empty'')
      else if \<not> utf8Valid (bytes_of status) then Inl (ErrNew ''bedrock status must be valid UTF-8'')
      else if int (length status) > maxBedrockStatusLength then
        Inl (Errorf ''bedrock status exceeds maximum size: %d'' [AInt (int (length status))])
      else if \<not> hasPrefix status ''MCPE;'' then Inl (ErrNew ''bedrock status must start with MCPE;'')
      else Inr ())"

definition configuredPort :: "string \<Rightarrow> int \<Rightarrow> int" where
  "configuredPort address fallback =
     (if address = '''' then fallback
      else
        (case splitHostPort address of
           Inl _ \<Rightarrow> fallback
         | Inr (_, portText) \<Rightarrow>
             (case atoi portText of
                Inl _ \<Rightarrow> fallback
              | Inr port \<Rightarrow> if port \<le> 0 \<or> port > 65535 then fallback else port)))"

text \<open>
  The local addresses of the packet listeners: \<^const>\<open>None\<close> where it is no \<^verbatim>\<open>*net.UDPAddr\<close>, otherwise its IP
  (\<^const>\<open>AddrInvalid\<close> for one of neither length) and port. \<^verbatim>\<open>To4\<close> succeeds on IPv4 and on IPv4-mapped addresses.
\<close>

fun listenerPorts :: "(addr \<times> int) option list \<Rightarrow> int \<times> int \<Rightarrow> int \<times> int" where
  "listenerPorts [] ports = ports"
| "listenerPorts (None # rest) ports = listenerPorts rest ports"
| "listenerPorts (Some (ip, port) # rest) (ipv4Port, ipv6Port) =
     (if is4 (unmap ip) then listenerPorts rest (port, ipv6Port)
      else if is6 ip then listenerPorts rest (ipv4Port, port)
      else listenerPorts rest (ipv4Port, ipv6Port))"

definition defaultBedrockStatusForListeners :: "(addr \<times> int) option list \<Rightarrow> string" where
  "defaultBedrockStatusForListeners listeners =
     (case listenerPorts listeners (19132, 19133) of (ipv4Port, ipv6Port) \<Rightarrow> DefaultBedrockStatus ipv4Port ipv6Port)"

definition parseBedrockUnconnectedPing :: "byte list \<Rightarrow> u64 result" where
  "parseBedrockUnconnectedPing payload =
     (if length payload \<noteq> 33 then Inl (Errorf ''unexpected bedrock ping length: %d'' [AInt (int (length payload))])
      else if payload ! 0 \<noteq> ss_bedrockUnconnectedPingPacketID then
        Inl (Errorf ''unexpected bedrock ping packet id: %d'' [AInt (uint (payload ! 0))])
      else if slice 9 25 payload \<noteq> ss_bedrockMagic then Inl (ErrNew ''bedrock ping magic mismatch'')
      else Inr (getUint64 (slice 1 9 payload)))"

definition encodeBedrockUnconnectedPong :: "u64 \<Rightarrow> string \<Rightarrow> byte list result" where
  "encodeBedrockUnconnectedPong pingTime status =
     ebind (validateBedrockStatus status) (\<lambda>_.
       Inr ([ss_bedrockUnconnectedPongPacketID] @ putUint64 pingTime @ putUint64 bedrockServerGUID @ ss_bedrockMagic @
            putUint16 (of_nat (length status)) @ bytes_of status))"

definition buildBedrockStatusResponse :: "byte list \<Rightarrow> string \<Rightarrow> byte list result" where
  "buildBedrockStatusResponse request status =
     ebind (parseBedrockUnconnectedPing request) (\<lambda>pingTime. encodeBedrockUnconnectedPong pingTime status)"

text \<open>
  What the loop of the listener meets: a datagram from a sender, or an error of the read, with the state
  of the context at that moment. A write gives its error and that state. The result is what the loop
  sent, and the error it offers to the channel when it ends with one; without further events it waits.
\<close>

datatype 'a listenEvent = Datagram "byte list" 'a | ReadError goerr bool

definition listenerStops :: "goerr \<Rightarrow> bool \<Rightarrow> goerr option" where
  "listenerStops e ctxDone = (if ctxDone \<or> errorsIs e ErrClosed then None else Some e)"

fun serveBedrockListener ::
  "string \<Rightarrow> (byte list \<Rightarrow> 'a \<Rightarrow> (goerr \<times> bool) option) \<Rightarrow> 'a listenEvent list \<Rightarrow>
     (byte list \<times> 'a) list \<times> goerr option" where
  "serveBedrockListener status writeTo [] = ([], None)"
| "serveBedrockListener status writeTo (ReadError e ctxDone # _) = ([], listenerStops e ctxDone)"
| "serveBedrockListener status writeTo (Datagram d sender # rest) =
     (case buildBedrockStatusResponse (take 2048 d) status of
        Inl _ \<Rightarrow> serveBedrockListener status writeTo rest
      | Inr response \<Rightarrow>
          (case writeTo response sender of
             Some (e, ctxDone) \<Rightarrow> ([], listenerStops e ctxDone)
           | None \<Rightarrow>
               (case serveBedrockListener status writeTo rest of
                  (sent, stop) \<Rightarrow> ((response, sender) # sent, stop))))"

definition parseBedrockPong :: "byte list \<Rightarrow> u64 \<Rightarrow> unit result" where
  "parseBedrockPong payload expectedPingTime =
     (if length payload < 35 then Inl (Errorf ''bedrock pong too short: %d'' [AInt (int (length payload))])
      else if payload ! 0 \<noteq> ss_bedrockUnconnectedPongPacketID then
        Inl (Errorf ''unexpected bedrock pong packet id: %d'' [AInt (uint (payload ! 0))])
      else if getUint64 (slice 1 9 payload) \<noteq> expectedPingTime then
        Inl (ErrNew ''bedrock pong ping time mismatch'')
      else if slice 17 33 payload \<noteq> ss_bedrockMagic then Inl (ErrNew ''bedrock pong magic mismatch'')
      else if length payload \<noteq> 35 + unat (getUint16 (slice 33 35 payload)) then
        Inl (Errorf ''unexpected bedrock pong length: %d'' [AInt (int (length payload))])
      else validateBedrockStatus (string_of (drop 35 payload)))"

text \<open>The probe of the harness; the two readings of the clock are \<open>now 0\<close> and \<open>now 1\<close>.\<close>

definition ProbeBedrock ::
  "(int \<Rightarrow> string \<Rightarrow> string \<Rightarrow> conn result) \<Rightarrow> (nat \<Rightarrow> int) \<Rightarrow> string \<Rightarrow> string \<Rightarrow> int \<Rightarrow> int \<Rightarrow> unit result" where
  "ProbeBedrock dial now network host port timeout =
     (if port < 0 \<or> port > 65535 then Inl (Errorf ''invalid port %d'' [AInt port])
      else
        ebind (dial timeout network (joinHostPort host (itoa port))) (\<lambda>conn.
        ebind (setDeadline conn (now 0 + timeout)) (\<lambda>_.
          (let pingTime = unixMilli (now 1);
               request = [ss_bedrockUnconnectedPingPacketID] @ putUint64 pingTime @ ss_bedrockMagic @
                 putUint64 bedrockProbeClientGUID
           in ebind (connWrite conn request) (\<lambda>c1.
              ebind (readDatagram 2048 c1) (\<lambda>buf. parseBedrockPong buf pingTime))))))"

section \<open>Lemmas\<close>

lemma bedrock_constants_agree:
  "ss_bedrockUnconnectedPingPacketID = bedrockUnconnectedPingPacketID"
  "ss_bedrockUnconnectedPongPacketID = bedrockUnconnectedPongPacketID"
  "ss_bedrockMagic = bedrockMagic"
  by (simp_all add: ss_bedrockUnconnectedPingPacketID_def bedrockUnconnectedPingPacketID_def
      ss_bedrockUnconnectedPongPacketID_def bedrockUnconnectedPongPacketID_def ss_bedrockMagic_def bedrockMagic_def)

lemma length_bedrockMagic [simp]: "length bedrockMagic = 16"
  by (simp add: bedrockMagic_def)

text \<open>The layout of the two datagrams.\<close>

definition pingDatagram :: "u64 \<Rightarrow> u64 \<Rightarrow> byte list" where
  "pingDatagram t guid = [bedrockUnconnectedPingPacketID] @ putUint64 t @ bedrockMagic @ putUint64 guid"

definition pongDatagram :: "u64 \<Rightarrow> u64 \<Rightarrow> u16 \<Rightarrow> byte list \<Rightarrow> byte list" where
  "pongDatagram t guid n body =
     [bedrockUnconnectedPongPacketID] @ putUint64 t @ putUint64 guid @ bedrockMagic @ putUint16 n @ body"

lemma slice_append_right: "length xs \<le> i \<Longrightarrow> slice i j (xs @ ys) = slice (i - length xs) (j - length xs) ys"
  by (cases "length xs \<le> j") (simp_all add: slice_def min_def)

lemma slice_0_append: "j = length xs \<Longrightarrow> slice 0 j (xs @ ys) = xs"
  by (simp add: slice_def)

lemma slice_Cons: "0 < i \<Longrightarrow> slice i j (x # xs) = slice (i - 1) (j - 1) xs"
  by (cases i; cases j) (simp_all add: slice_def)

lemmas slice_simps = slice_append_right slice_0_append slice_Cons

lemma pingDatagram_fields:
  "length (pingDatagram t guid) = 33" "pingDatagram t guid ! 0 = bedrockUnconnectedPingPacketID"
  "slice 1 9 (pingDatagram t guid) = putUint64 t" "slice 9 25 (pingDatagram t guid) = bedrockMagic"
  by (simp_all add: pingDatagram_def slice_simps)

lemma pongDatagram_fields:
  "length (pongDatagram t guid n body) = 35 + length body"
  "pongDatagram t guid n body ! 0 = bedrockUnconnectedPongPacketID"
  "slice 1 9 (pongDatagram t guid n body) = putUint64 t" "slice 17 33 (pongDatagram t guid n body) = bedrockMagic"
  "slice 33 35 (pongDatagram t guid n body) = putUint16 n" "drop 35 (pongDatagram t guid n body) = body"
  by (simp_all add: pongDatagram_def slice_simps)

lemma take_pongDatagram: "35 \<le> k \<Longrightarrow> take k (pongDatagram t guid n body) = pongDatagram t guid n (take (k - 35) body)"
  by (simp add: pongDatagram_def take_Cons')

lemma take_slice: "i \<le> j \<Longrightarrow> take i xs @ slice i j xs = take j xs"
  by (metis append_take_drop_id min.absorb1 slice_def take_take)

lemma take_1: "xs \<noteq> [] \<Longrightarrow> take 1 xs = [xs ! 0]"
  by (cases xs) auto

text \<open>A datagram put together from its slices.\<close>

lemma ping_slices:
  assumes "length p = 33"
  shows "[p ! 0] @ slice 1 9 p @ slice 9 25 p @ drop 25 p = p"
proof -
  have "[p ! 0] @ slice 1 9 p = take 9 p"
    using assms take_slice [of 1 9 p] take_1 [of p] by force
  then have "([p ! 0] @ slice 1 9 p) @ slice 9 25 p = take 25 p"
    by (simp only: take_slice)
  then show ?thesis
    by (metis append.assoc append_take_drop_id)
qed

lemma pong_slices:
  assumes "35 \<le> length p"
  shows "[p ! 0] @ slice 1 9 p @ slice 9 17 p @ slice 17 33 p @ slice 33 35 p @ drop 35 p = p"
proof -
  have "p \<noteq> []" using assms by auto
  then have "[p ! 0] @ slice 1 9 p = take 9 p"
    using take_slice [of 1 9 p] take_1 [of p] by force
  then have "((([p ! 0] @ slice 1 9 p) @ slice 9 17 p) @ slice 17 33 p) @ slice 33 35 p = take 35 p"
    by (simp only: take_slice)
  then show ?thesis
    by (metis append.assoc append_take_drop_id)
qed

lemma parseBedrockUnconnectedPing_pingDatagram:
  "parseBedrockUnconnectedPing (pingDatagram t guid) = Inr t"
  by (simp add: parseBedrockUnconnectedPing_def bedrock_constants_agree pingDatagram_fields del: One_nat_def)

lemma buildBedrockStatusRequestWith_eq:
  "buildBedrockStatusRequestWith now (Inr buf) = Inr (pingDatagram (unixMilli now) (getUint64 buf), unixMilli now)"
  by (simp add: buildBedrockStatusRequestWith_def randomUint64With_def pingDatagram_def Let_def)

lemma validateBedrockStatus_Inr:
  "validateBedrockStatus status = Inr u \<longleftrightarrow>
     utf8Valid (bytes_of status) \<and> length status \<le> 65535 \<and> hasPrefix status ''MCPE;''"
  by (auto simp: validateBedrockStatus_def maxBedrockStatusLength_def hasPrefix_def)

lemma encodeBedrockUnconnectedPong_Inr:
  "encodeBedrockUnconnectedPong t status = Inr pong \<longleftrightarrow>
     validateBedrockStatus status = Inr () \<and>
     pong = pongDatagram t bedrockServerGUID (of_nat (length status)) (bytes_of status)"
  by (auto simp: encodeBedrockUnconnectedPong_def result_simps pongDatagram_def bedrock_constants_agree)

lemma parseBedrockStatusResponse_pong:
  "parseBedrockStatusResponse (pongDatagram t guid n body) t =
     (if length body < unat n then Inl (Errorf ''bedrock status payload: unexpected EOF'' [])
      else if length body \<noteq> unat n then
        Inl (Errorf ''bedrock pong length mismatch: got %d want %d''
          [AInt (int (35 + length body)), AInt (int (35 + unat n))])
      else if \<not> utf8Valid body then Inl (ErrNew ''bedrock status payload is not valid UTF-8'')
      else parseBedrockStatusText (string_of body))"
proof -
  have "slice 35 (35 + length body) (pongDatagram t guid n body) = body"
    using pongDatagram_fields(6) [of t guid n body] pongDatagram_fields(1) [of t guid n body] by (simp add: slice_def)
  then show ?thesis
    by (cases "length body = unat n")
      (simp_all add: parseBedrockStatusResponse_def pongDatagram_fields Let_def del: One_nat_def)
qed

lemma unat_length_status: "length status \<le> 65535 \<Longrightarrow> unat (of_nat (length status) :: u16) = length status"
  by (simp add: unsigned_of_nat take_bit_nat_eq_self)

lemma getUint16_length:
  "length bs = 2 \<Longrightarrow> putUint16 (beUint bs) = bs"
proof -
  assume "length bs = 2"
  then obtain a b where bs: "bs = [a, b]" by (auto simp: numeral_2_eq_2 length_Suc_conv)
  have "ucast (drop_bit 8 (push_bit 8 (ucast a) OR ucast b :: u16)) = a"
    "ucast (push_bit 8 (ucast a) OR ucast b :: u16) = b"
    by (rule bit_eqI; auto simp: bit_simps dest: bit_imp_le_length)+
  then show ?thesis by (simp add: bs beUint_def putUint16_def)
qed

text \<open>What an accepted status text looks like.\<close>

lemma splitByte_eq_Cons:
  "splitByte c s = f # fs \<Longrightarrow> fs \<noteq> [] \<Longrightarrow> \<exists>rest. s = f @ c # rest \<and> splitByte c rest = fs"
  by (induction c s arbitrary: f fs rule: splitByte.induct) (auto split: if_splits list.splits)

lemma parseBedrockStatusText_Inr:
  assumes "parseBedrockStatusText text = Inr st"
  shows "Brand st = ''MCPE'' \<and> hasPrefix text ''MCPE;'' \<and> 6 \<le> length (splitByte CHR '';'' text) \<and>
    atoi (splitByte CHR '';'' text ! 2) = Inr (ProtocolNumber st) \<and>
    atoi (splitByte CHR '';'' text ! 4) = Inr (PlayersOnline st) \<and>
    atoi (splitByte CHR '';'' text ! 5) = Inr (PlayersMax st)"
proof -
  let ?f = "splitByte CHR '';'' text"
  from assms have len: "6 \<le> length ?f" and brand: "?f ! 0 = ''MCPE''"
    by (auto simp: parseBedrockStatusText_def bedrockStatusMinFields_def Let_def result_simps split: if_splits)
  then obtain fs where f: "?f = ''MCPE'' # fs"
    by (cases ?f) auto
  with len have "fs \<noteq> []" by auto
  with f have "hasPrefix text ''MCPE;''"
    by (auto simp: hasPrefix_def dest!: splitByte_eq_Cons)
  with assms len brand show ?thesis
    by (auto simp: parseBedrockStatusText_def bedrockStatusMinFields_def Let_def result_simps split: if_splits)
qed

lemma parseBedrockStatusResponse_Inr:
  assumes "parseBedrockStatusResponse payload t = Inr st"
  shows "length payload = 35 + unat (getUint16 (slice 33 35 payload))"
    and "payload ! 0 = bedrockUnconnectedPongPacketID" and "getUint64 (slice 1 9 payload) = t"
    and "slice 17 33 payload = bedrockMagic" and "utf8Valid (drop 35 payload)"
    and "parseBedrockStatusText (string_of (drop 35 payload)) = Inr st"
proof -
  note p = assms [unfolded parseBedrockStatusResponse_def Let_def]
  show len: "length payload = 35 + unat (getUint16 (slice 33 35 payload))"
    and "payload ! 0 = bedrockUnconnectedPongPacketID" and "getUint64 (slice 1 9 payload) = t"
    and "slice 17 33 payload = bedrockMagic"
    using p by (simp_all only: sum.distinct simp_thms split: if_splits)
  have "slice 35 (35 + unat (getUint16 (slice 33 35 payload))) payload = drop 35 payload"
    by (simp only: slice_def [of 35] len [symmetric] take_all order_refl)
  with p show "utf8Valid (drop 35 payload)"
    and "parseBedrockStatusText (string_of (drop 35 payload)) = Inr st"
    by (simp_all only: sum.distinct simp_thms split: if_splits)
qed

lemma pong_shape:
  assumes "parseBedrockStatusResponse payload t = Inr st"
  shows "payload = pongDatagram t (getUint64 (slice 9 17 payload)) (of_nat (length (drop 35 payload))) (drop 35 payload)"
proof -
  note parsed = parseBedrockStatusResponse_Inr [OF assms]
  let ?n = "getUint16 (slice 33 35 payload)"
  have len: "35 \<le> length payload" using parsed(1) by simp
  have time: "slice 1 9 payload = putUint64 t"
    using putUint64_beUint [of "slice 1 9 payload"] parsed(3) len by (simp add: slice_def)
  have guid: "slice 9 17 payload = putUint64 (getUint64 (slice 9 17 payload))"
    using putUint64_beUint [of "slice 9 17 payload"] len by (simp add: slice_def)
  have "of_nat (length (drop 35 payload)) = ?n" using parsed(1) by simp
  moreover have "putUint16 ?n = slice 33 35 payload"
    using getUint16_length [of "slice 33 35 payload"] len by (simp add: slice_def)
  ultimately have name: "slice 33 35 payload = putUint16 (of_nat (length (drop 35 payload)))" by simp
  have "payload = [payload ! 0] @ slice 1 9 payload @ slice 9 17 payload @ slice 17 33 payload @
      slice 33 35 payload @ drop 35 payload"
    by (rule pong_slices [OF len, symmetric])
  then show ?thesis
    unfolding pongDatagram_def parsed(2) parsed(4) time name using guid by argo
qed

lemma ping_accepted_shape:
  "parseBedrockUnconnectedPing payload = Inr t \<Longrightarrow> \<exists>guid. payload = pingDatagram t guid"
proof -
  assume ok: "parseBedrockUnconnectedPing payload = Inr t"
  then have len: "length payload = 33" and head: "payload ! 0 = bedrockUnconnectedPingPacketID"
    and magic: "slice 9 25 payload = bedrockMagic" and time: "t = getUint64 (slice 1 9 payload)"
    by (auto simp: parseBedrockUnconnectedPing_def bedrock_constants_agree split: if_splits)
  have "putUint64 t = slice 1 9 payload"
    unfolding time by (rule putUint64_beUint) (simp add: slice_def len)
  moreover have "putUint64 (getUint64 (drop 25 payload)) = drop 25 payload"
    by (rule putUint64_beUint) (simp add: len)
  ultimately have "payload = pingDatagram t (getUint64 (drop 25 payload))"
    using ping_slices [OF len] head magic by (simp only: pingDatagram_def)
  then show ?thesis ..
qed

section \<open>Properties\<close>

text \<open>
  The staging server accepts a datagram as a ping exactly when it is the packet number, an eight byte
  time, the magic and an eight byte client number, and it reads the time off it.
\<close>

theorem bedrock_ping_accepted_iff:
  "parseBedrockUnconnectedPing payload = Inr t \<longleftrightarrow> (\<exists>guid. payload = pingDatagram t guid)"
  using ping_accepted_shape parseBedrockUnconnectedPing_pingDatagram by blast

text \<open>
  C13: the client accepts a datagram as the answer to the ping sent at time \<open>t\<close> only when it is a whole pong
  with that time and the magic, whose length field counts the bytes of the status exactly; the status is
  UTF-8, has at least six fields and the brand \<^verbatim>\<open>MCPE\<close>, and the numbers returned are those written in it.
\<close>

theorem bedrock_pong_accepted:
  assumes "parseBedrockStatusResponse payload t = Inr st"
  shows "\<exists>guid body. payload = pongDatagram t guid (of_nat (length body)) body \<and> length body \<le> 65535 \<and>
    utf8Valid body \<and> hasPrefix (string_of body) ''MCPE;'' \<and> Brand st = ''MCPE'' \<and>
    6 \<le> length (splitByte CHR '';'' (string_of body)) \<and>
    atoi (splitByte CHR '';'' (string_of body) ! 2) = Inr (ProtocolNumber st) \<and>
    atoi (splitByte CHR '';'' (string_of body) ! 4) = Inr (PlayersOnline st) \<and>
    atoi (splitByte CHR '';'' (string_of body) ! 5) = Inr (PlayersMax st)"
proof -
  let ?body = "drop 35 payload"
  have "length payload = 35 + unat (getUint16 (slice 33 35 payload))"
    using assms by (rule parseBedrockStatusResponse_Inr)
  then have "length ?body \<le> 65535"
    using unsigned_less [of "getUint16 (slice 33 35 payload)", where 'a = nat] by simp
  then show ?thesis
    using pong_shape [OF assms] parseBedrockStatusResponse_Inr(5) [OF assms]
      parseBedrockStatusText_Inr [OF parseBedrockStatusResponse_Inr(6) [OF assms]]
    by blast
qed

text \<open>
  C39: the pong of the staging server at the client, which reads 2048 bytes of it. A status of up to 2013
  bytes arrives whole, and the result is that of its text; of a longer one, which the server accepts up to
  65535 bytes, the datagram is cut and the client always reports an unexpected end.
\<close>

theorem bedrock_pong_at_client:
  assumes "encodeBedrockUnconnectedPong t status = Inr pong"
  shows "parseBedrockStatusResponse (take 2048 pong) t =
    (if length status \<le> 2013 then parseBedrockStatusText status
     else Inl (Errorf ''bedrock status payload: unexpected EOF'' []))"
proof -
  from assms have ok: "utf8Valid (bytes_of status)" "length status \<le> 65535"
    and pong: "pong = pongDatagram t bedrockServerGUID (of_nat (length status)) (bytes_of status)"
    by (auto simp: encodeBedrockUnconnectedPong_Inr validateBedrockStatus_Inr)
  show ?thesis
    using ok by (simp add: pong take_pongDatagram parseBedrockStatusResponse_pong unat_length_status)
qed

text \<open>
  C21: the listener of the staging server, with a valid status. A datagram that is a ping is answered, to
  its sender, with the pong that repeats its time, and the listener goes on; every other datagram is
  skipped without an answer and without ending the listener.
\<close>

theorem bedrock_listener_answers_pings:
  assumes "validateBedrockStatus status = Inr ()" and "\<And>r a. writeTo r a = None"
  shows "(\<forall>t guid. serveBedrockListener status writeTo (Datagram (pingDatagram t guid) sender # rest) =
      ((pongDatagram t bedrockServerGUID (of_nat (length status)) (bytes_of status), sender) #
         fst (serveBedrockListener status writeTo rest), snd (serveBedrockListener status writeTo rest))) \<and>
    ((\<nexists>t guid. d = pingDatagram t guid) \<longrightarrow>
      serveBedrockListener status writeTo (Datagram d sender # rest) = serveBedrockListener status writeTo rest)"
proof (intro conjI allI impI)
  fix t guid
  have "take 2048 (pingDatagram t guid) = pingDatagram t guid"
    by (rule take_all) (simp add: pingDatagram_fields)
  moreover have "encodeBedrockUnconnectedPong t status =
      Inr (pongDatagram t bedrockServerGUID (of_nat (length status)) (bytes_of status))"
    using assms(1) by (simp add: encodeBedrockUnconnectedPong_Inr)
  ultimately show "serveBedrockListener status writeTo (Datagram (pingDatagram t guid) sender # rest) =
      ((pongDatagram t bedrockServerGUID (of_nat (length status)) (bytes_of status), sender) #
         fst (serveBedrockListener status writeTo rest), snd (serveBedrockListener status writeTo rest))"
    using assms(2) by (simp add: buildBedrockStatusResponse_def parseBedrockUnconnectedPing_pingDatagram
        split: prod.splits)
next
  assume other: "\<nexists>t guid. d = pingDatagram t guid"
  have "d = pingDatagram t guid" if eq: "take 2048 d = pingDatagram t guid" for t guid
  proof -
    have "length d = 33"
      using arg_cong [OF eq, of length] by (simp add: pingDatagram_fields(1) min_def split: if_splits)
    with eq show ?thesis by simp
  qed
  with other have "\<nexists>t. parseBedrockUnconnectedPing (take 2048 d) = Inr t"
    using ping_accepted_shape [of "take 2048 d"] by blast
  then obtain e where "parseBedrockUnconnectedPing (take 2048 d) = Inl e"
    by (metis sum.exhaust)
  then show "serveBedrockListener status writeTo (Datagram d sender # rest) = serveBedrockListener status writeTo rest"
    by (simp add: buildBedrockStatusResponse_def)
qed

text \<open>
  The default status text of the staging server is accepted by the client, whatever ports are written
  into it.
\<close>

theorem default_bedrock_status_parses:
  "parseBedrockStatusText (DefaultBedrockStatus p4 p6) =
     Inr \<lparr>Brand = ''MCPE'', MOTD = ''minecraft-ping staging'', ProtocolNumber = 924, VersionText = ''1.26.3'',
          PlayersOnline = 0, PlayersMax = 10, ServerID = ''1'', MapName = ''staging'', GameMode = ''Creative''\<rparr>"
proof -
  have "splitByte CHR '';'' (DefaultBedrockStatus p4 p6) =
      [''MCPE'', ''minecraft-ping staging'', ''924'', ''1.26.3'', ''0'', ''10'', ''1'', ''staging'', ''Creative'', ''1''] @
      splitByte CHR '';'' (itoa p4 @ '';'' @ itoa p6 @ '';0;'')"
    by (simp add: DefaultBedrockStatus_def)
  moreover have "atoi ''924'' = Inr 924" "atoi ''0'' = Inr 0" "atoi ''10'' = Inr 10" by code_simp+
  ultimately show ?thesis
    by (simp add: parseBedrockStatusText_def bedrockStatusMinFields_def Let_def fieldOr_def)
qed

section \<open>The client against the staging server\<close>

text \<open>The listener as the peer of a datagram connection.\<close>

definition stagingReply :: "string \<Rightarrow> byte list \<Rightarrow> byte list option" where
  "stagingReply status request =
     (case serveBedrockListener status (\<lambda>_ _. None) [Datagram request ()] of
        ((response, _) # _, _) \<Rightarrow> Some response
      | _ \<Rightarrow> None)"

lemma stagingReply_ping:
  assumes "validateBedrockStatus status = Inr ()"
  shows "stagingReply status (pingDatagram t guid) =
    Some (pongDatagram t bedrockServerGUID (of_nat (length status)) (bytes_of status))"
proof -
  have "take 2048 (pingDatagram t guid) = pingDatagram t guid"
    by (rule take_all) (simp add: pingDatagram_fields)
  then show ?thesis
    using assms
    by (simp add: stagingReply_def buildBedrockStatusResponse_def parseBedrockUnconnectedPing_pingDatagram
        encodeBedrockUnconnectedPong_Inr [THEN iffD2])
qed

lemma udpTo_simps [simp]:
  "conn_sent (udpTo reply ra) = []" "conn_wfail (udpTo reply ra) = (\<lambda>_. None)" "conn_dlfail (udpTo reply ra) = (\<lambda>_. None)"
  "conn_reply (udpTo reply ra) = reply" "conn_remote (udpTo reply ra) = Some ra"
  by (simp_all add: udpTo_def)

lemma pong_received:
  assumes "validateBedrockStatus status = Inr ()" and "length status \<le> 2013"
  shows "readDatagram 2048 ((udpTo (stagingReply status) ra)\<lparr>conn_sent := pingDatagram t guid\<rparr>) =
    Inr (pongDatagram t bedrockServerGUID (of_nat (length status)) (bytes_of status))"
  using assms by (simp add: readDatagram_def stagingReply_ping take_pongDatagram)

text \<open>
  C4: the Bedrock client and the staging server understand each other. A ping whose dial reaches the
  staging server succeeds, for every time, client number and status text that the server accepts, that is
  at most 2013 bytes long and that has the fields the client asks for.
\<close>

theorem bedrock_ping_reaches_staging_server:
  assumes dial: "the (dialContext (withDefaults (env_sys env) c)) (cand_UDPNetwork x) (cand_String x) =
      Inr (udpTo (stagingReply status) ra)"
    and status: "validateBedrockStatus status = Inr ()" "length status \<le> 2013" "parseBedrockStatusText status = Inr st"
    and random: "env_random env k = Inr buf" and ctx: "ctx_Deadline (env_ctx env) = None"
  shows "pingBedrockCandidate env c k x timeout =
    Inr \<lparr>latency = max (the (clock (withDefaults (env_sys env) c)) (k + 3) - the (clock (withDefaults (env_sys env) c)) (k + 2)) 0,
         remote = remoteAddrPort (env_lookupPort env) (Some ra)\<rparr>"
proof -
  let ?now = "the (clock (withDefaults (env_sys env) c))"
  let ?t = "unixMilli (?now (k + 1))"
  have "parseBedrockStatusResponse (pongDatagram ?t bedrockServerGUID (of_nat (length status)) (bytes_of status)) ?t = Inr st"
    using status by (simp add: parseBedrockStatusResponse_pong unat_length_status validateBedrockStatus_Inr)
  then show ?thesis
    using dial status(1,2) random ctx
    by (simp add: pingBedrockCandidate_def Let_def setDeadline_def buildBedrockStatusRequestWith_eq connWrite_def
        pong_received numeral_2_eq_2 numeral_3_eq_3)
qed

text \<open>
  The probe of the integration harness succeeds against the staging server, for every status the server
  accepts of at most 2013 bytes and every port.
\<close>

theorem harness_bedrock_probe_succeeds:
  assumes "dial timeout network (joinHostPort host (itoa port)) = Inr (udpTo (stagingReply status) ra)"
    and "validateBedrockStatus status = Inr ()" and "length status \<le> 2013" and "0 \<le> port" and "port \<le> 65535"
  shows "ProbeBedrock dial now network host port timeout = Inr ()"
proof -
  let ?t = "unixMilli (now 1)"
  let ?pong = "pongDatagram ?t bedrockServerGUID (of_nat (length status)) (bytes_of status)"
  have "parseBedrockPong ?pong ?t = Inr ()"
    using assms(2,3)
    by (simp add: parseBedrockPong_def bedrock_constants_agree pongDatagram_fields unat_length_status del: One_nat_def)
  then show ?thesis
    using assms pong_received [OF assms(2,3), where t = ?t and guid = bedrockProbeClientGUID and ra = ra]
    by (simp add: ProbeBedrock_def setDeadline_def connWrite_def bedrock_constants_agree Let_def
        pingDatagram_def [symmetric, simplified])
qed

section \<open>Instances\<close>

definition exampleStatus :: string where
  "exampleStatus = DefaultBedrockStatus 19132 19133"

lemma exampleStatus_ok: "validateBedrockStatus exampleStatus = Inr ()" "length exampleStatus \<le> 2013"
  by code_simp+

lemma exampleStatus_parses: "\<exists>st. parseBedrockStatusText exampleStatus = Inr st"
proof -
  have "\<not> isl (parseBedrockStatusText exampleStatus)" by code_simp
  then show ?thesis by (cases "parseBedrockStatusText exampleStatus") simp_all
qed

lemma exampleStatus_pong:
  "encodeBedrockUnconnectedPong 7 exampleStatus =
     Inr (pongDatagram 7 bedrockServerGUID (of_nat (length exampleStatus)) (bytes_of exampleStatus))"
  using exampleStatus_ok by (simp add: encodeBedrockUnconnectedPong_Inr)

theorem bedrock_pong_accepted_witness:
  "\<exists>payload st guid body. parseBedrockStatusResponse payload 7 = Inr st \<and>
     payload = pongDatagram 7 guid (of_nat (length body)) body \<and> Brand st = ''MCPE''"
proof -
  obtain st where "parseBedrockStatusText exampleStatus = Inr st" using exampleStatus_parses by blast
  then have "parseBedrockStatusResponse
      (pongDatagram 7 bedrockServerGUID (of_nat (length exampleStatus)) (bytes_of exampleStatus)) 7 = Inr st"
    using exampleStatus_ok by (simp add: parseBedrockStatusResponse_pong unat_length_status validateBedrockStatus_Inr)
  from this bedrock_pong_accepted [OF this] show ?thesis by blast
qed

theorem bedrock_pong_at_client_witness:
  "parseBedrockStatusResponse
     (take 2048 (pongDatagram 7 bedrockServerGUID (of_nat (length exampleStatus)) (bytes_of exampleStatus))) 7 =
   parseBedrockStatusText exampleStatus"
  using bedrock_pong_at_client [OF exampleStatus_pong] exampleStatus_ok(2) by simp

theorem bedrock_listener_answers_pings_witness:
  "serveBedrockListener exampleStatus (\<lambda>_ _. None) [Datagram [] ''a'', Datagram (pingDatagram 7 9) ''b''] =
     ([(pongDatagram 7 bedrockServerGUID (of_nat (length exampleStatus)) (bytes_of exampleStatus), ''b'')], None)"
proof -
  have "\<nexists>t guid. [] = pingDatagram t guid" by (simp add: pingDatagram_def)
  with bedrock_listener_answers_pings [OF exampleStatus_ok(1), of "\<lambda>_ _. None" "''a''" "[Datagram (pingDatagram 7 9) ''b'']" "[]"]
    bedrock_listener_answers_pings [OF exampleStatus_ok(1), of "\<lambda>_ _. None" "''b''" "[]" "[]"]
  show ?thesis by simp
qed

lemma example_dial_staging:
  "the (dialContext (withDefaults (env_sys (exampleBedrockEnv (\<lambda>_ a. Inr (udpTo (stagingReply exampleStatus) a))))
      (exampleBedrockClient (\<lambda>_ a. Inr (udpTo (stagingReply exampleStatus) a))))) n a = Inr (udpTo (stagingReply exampleStatus) a)"
  by (simp add: exampleBedrockClient_def newPingClient_def exampleBedrockSystem_def withDefaults_def orElse_def)

theorem bedrock_ping_reaches_staging_server_witness:
  "\<exists>s. pingBedrockCandidate (exampleBedrockEnv (\<lambda>_ a. Inr (udpTo (stagingReply exampleStatus) a)))
     (exampleBedrockClient (\<lambda>_ a. Inr (udpTo (stagingReply exampleStatus) a))) 0 (hd exampleBedrockCandidates) 5 = Inr s \<and>
     latency s = 5000000"
proof -
  obtain st where "parseBedrockStatusText exampleStatus = Inr st" using exampleStatus_parses by blast
  moreover have "env_random (exampleBedrockEnv d) 0 = Inr (putUint64 9)" "ctx_Deadline (env_ctx (exampleBedrockEnv d)) = None" for d
    by (simp_all add: exampleBedrockEnv_def)
  ultimately show ?thesis
    by (subst bedrock_ping_reaches_staging_server [OF example_dial_staging exampleStatus_ok])
      (simp_all add: exampleBedrockClient_def newPingClient_def exampleBedrockSystem_def withDefaults_def orElse_def)
qed

theorem harness_bedrock_probe_succeeds_witness:
  "ProbeBedrock (\<lambda>_ _ a. Inr (udpTo (stagingReply exampleStatus) a)) (\<lambda>k. int k) ''udp4'' ''127.0.0.1'' 19132 5 = Inr ()"
  using harness_bedrock_probe_succeeds [of "\<lambda>_ _ a. Inr (udpTo (stagingReply exampleStatus) a)" 5 "''udp4''" "''127.0.0.1''"
      19132 exampleStatus _ "\<lambda>k. int k"] exampleStatus_ok
  by simp

end
