(* ===== verification/Staging_Serve.thy ===== *)
theory Staging_Serve
  imports Staging_Java Staging_Bedrock Steps
begin

text \<open>
  The life of the staging server, \<^verbatim>\<open>Serve\<close> in \<^verbatim>\<open>internal/stagingserver/server.go\<close> and \<^verbatim>\<open>cmd/staging-server/main.go\<close>: the
  checks of the configuration and the opening of the listeners as a function with the trace of what was opened
  and closed, and the goroutines of the running server, with the channel of their errors and the shutdown, as a
  step relation. What a listener does with one connection or datagram is in \<open>Staging_Java\<close> and
  \<open>Staging_Bedrock\<close>.
\<close>

section \<open>Definitions\<close>

subsection \<open>Configuration and listeners\<close>

record Config =
  ListenIPv4 :: string
  ListenIPv6 :: string
  BedrockListenIPv4 :: string
  BedrockListenIPv6 :: string
  StatusJSON :: string
  BedrockStatus :: string
  ConnectionDeadline :: int

text \<open>The flags of \<^verbatim>\<open>cmd/staging-server\<close> and their defaults.\<close>

definition bindFlags :: Config where
  "bindFlags =
     \<lparr>ListenIPv4 = ''127.0.0.1:25565'', ListenIPv6 = ''[::1]:25566'', BedrockListenIPv4 = '''', BedrockListenIPv6 = '''',
      StatusJSON = DefaultStatusJSON, BedrockStatus = '''', ConnectionDeadline = 10 * 1000000000\<rparr>"

definition config_withDefaults :: "Config \<Rightarrow> Config" where
  "config_withDefaults cfg =
     (let cfg1 = (if StatusJSON cfg = '''' then cfg\<lparr>StatusJSON := DefaultStatusJSON\<rparr> else cfg) in
      if ConnectionDeadline cfg1 \<le> 0 then cfg1\<lparr>ConnectionDeadline := 10 * 1000000000\<rparr> else cfg1)"

text \<open>A listener by its network and address; a packet listener has a local address, where that is a UDP address.\<close>

datatype listener = StreamListener string string | PacketListener string string "(addr \<times> int) option"

record listenSystem =
  ls_Listen :: "string \<Rightarrow> string \<Rightarrow> unit result"
  ls_ListenPacket :: "string \<Rightarrow> string \<Rightarrow> (addr \<times> int) option result"

text \<open>What happens to listeners, in order.\<close>

datatype listenTrace = Opened listener | Closed listener

definition closeAll :: "listener list \<Rightarrow> listenTrace list" where
  "closeAll ls =
     map Closed (filter (\<lambda>l. case l of StreamListener _ _ \<Rightarrow> True | _ \<Rightarrow> False) ls) @
     map Closed (filter (\<lambda>l. case l of StreamListener _ _ \<Rightarrow> False | _ \<Rightarrow> True) ls)"

text \<open>The wanted listeners with their addresses, in the order of the code.\<close>

definition wanted :: "listenSystem \<Rightarrow> Config \<Rightarrow> (string \<times> listener result) list" where
  "wanted sys cfg =
     [(ListenIPv4 cfg, ebind (ls_Listen sys ''tcp4'' (ListenIPv4 cfg)) (\<lambda>_. Inr (StreamListener ''tcp4'' (ListenIPv4 cfg)))),
      (ListenIPv6 cfg, ebind (ls_Listen sys ''tcp6'' (ListenIPv6 cfg)) (\<lambda>_. Inr (StreamListener ''tcp6'' (ListenIPv6 cfg)))),
      (BedrockListenIPv4 cfg, ebind (ls_ListenPacket sys ''udp4'' (BedrockListenIPv4 cfg))
         (\<lambda>a. Inr (PacketListener ''udp4'' (BedrockListenIPv4 cfg) a))),
      (BedrockListenIPv6 cfg, ebind (ls_ListenPacket sys ''udp6'' (BedrockListenIPv6 cfg))
         (\<lambda>a. Inr (PacketListener ''udp6'' (BedrockListenIPv6 cfg) a)))]"

fun openAll :: "(string \<times> listener result) list \<Rightarrow> listener list \<Rightarrow> listenTrace list \<times> listener list result" where
  "openAll [] opened = ([], Inr opened)"
| "openAll ((address, r) # rest) opened =
     (if address = '''' then openAll rest opened
      else
        (case r of
           Inl e \<Rightarrow> (closeAll opened, Inl (Wrapf ''listen on %s: %w'' [AStr address] e))
         | Inr l \<Rightarrow> (case openAll rest (opened @ [l]) of (trace, res) \<Rightarrow> (Opened l # trace, res))))"

definition packetAddrs :: "listener list \<Rightarrow> (addr \<times> int) option list" where
  "packetAddrs ls = concat (map (\<lambda>l. case l of StreamListener _ _ \<Rightarrow> [] | PacketListener _ _ a \<Rightarrow> [a]) ls)"

text \<open>\<^verbatim>\<open>Serve\<close> up to the start of its goroutines: the trace, and an error or the settings and listeners.\<close>

definition serveSetup :: "listenSystem \<Rightarrow> Config \<Rightarrow> listenTrace list \<times> (Config \<times> listener list) result" where
  "serveSetup sys cfg0 =
     (let cfg = config_withDefaults cfg0;
          javaEnabled = (ListenIPv4 cfg \<noteq> '''' \<or> ListenIPv6 cfg \<noteq> '''');
          bedrockEnabled = (BedrockListenIPv4 cfg \<noteq> '''' \<or> BedrockListenIPv6 cfg \<noteq> '''')
      in case (if javaEnabled then validateStatusJSON (StatusJSON cfg) else Inr ()) of
           Inl e \<Rightarrow> ([], Inl e)
         | Inr _ \<Rightarrow>
             if \<not> javaEnabled \<and> \<not> bedrockEnabled then ([], Inl (ErrNew ''at least one listen address is required''))
             else
               (case openAll (wanted sys cfg) [] of
                  (trace, Inl e) \<Rightarrow> (trace, Inl e)
                | (trace, Inr ls) \<Rightarrow>
                    if \<not> bedrockEnabled then (trace, Inr (cfg, ls))
                    else
                      (let cfg' = (if BedrockStatus cfg = ''''
                                   then cfg\<lparr>BedrockStatus := defaultBedrockStatusForListeners (packetAddrs ls)\<rparr> else cfg)
                       in case validateBedrockStatus (BedrockStatus cfg') of
                            Inl e \<Rightarrow> (trace @ closeAll ls, Inl e)
                          | Inr _ \<Rightarrow> (trace, Inr (cfg', ls)))))"

subsection \<open>The running server\<close>

text \<open>
  The loop of a listener with the number of connections it serves, and what the main goroutine does:
  the \<^verbatim>\<open>select\<close>, the deferred \<^verbatim>\<open>closeAll\<close>, the deferred wait, and the return.
\<close>

datatype loop = Accepting nat | Draining nat | LoopDone

datatype serveMain = Selecting | ClosingAll "unit result" | Waiting "unit result" | Exited "unit result"

text \<open>\<open>sg_dropped\<close> collects the errors that found the channel full.\<close>

record serving =
  sg_loops :: "loop list"
  sg_open :: "bool list"
  sg_errCh :: "goerr list"
  sg_dropped :: "goerr list"
  sg_ctxErr :: "goerr option"
  sg_main :: serveMain

definition serveStart :: "listener list \<Rightarrow> serving" where
  "serveStart ls =
     \<lparr>sg_loops = replicate (length ls) (Accepting 0), sg_open = replicate (length ls) True, sg_errCh = [],
      sg_dropped = [], sg_ctxErr = None, sg_main = Selecting\<rparr>"

text \<open>The \<^verbatim>\<open>select\<close> with a default case: the error goes to the channel unless its buffer is full.\<close>

definition offer :: "nat \<Rightarrow> goerr option \<Rightarrow> serving \<Rightarrow> serving" where
  "offer capacity e s =
     (case e of
        None \<Rightarrow> s
      | Some x \<Rightarrow>
          if length (sg_errCh s) < capacity then s\<lparr>sg_errCh := sg_errCh s @ [x]\<rparr>
          else s\<lparr>sg_dropped := sg_dropped s @ [x]\<rparr>)"

text \<open>
  The steps. A listener that was closed gives errors that are \<^verbatim>\<open>net.ErrClosed\<close>, an open one gives others.
\<close>

inductive serveStep :: "listener list \<Rightarrow> serving \<Rightarrow> serving \<Rightarrow> bool" for ls where
  cancel: "sg_ctxErr s = None \<Longrightarrow> serveStep ls s (s\<lparr>sg_ctxErr := Some e\<rparr>)"
| watcher: "i < length ls \<Longrightarrow> sg_ctxErr s \<noteq> None \<Longrightarrow> serveStep ls s (s\<lparr>sg_open := (sg_open s)[i := False]\<rparr>)"
| accept: "i < length ls \<Longrightarrow> ls ! i = StreamListener network address \<Longrightarrow> sg_loops s ! i = Accepting k \<Longrightarrow> sg_open s ! i \<Longrightarrow>
    serveStep ls s (s\<lparr>sg_loops := (sg_loops s)[i := Accepting (Suc k)]\<rparr>)"
| connEnds: "i < length ls \<Longrightarrow> sg_loops s ! i = Accepting (Suc k) \<Longrightarrow>
    serveStep ls s (s\<lparr>sg_loops := (sg_loops s)[i := Accepting k]\<rparr>)"
| lastConnEnds: "i < length ls \<Longrightarrow> sg_loops s ! i = Draining (Suc k) \<Longrightarrow>
    serveStep ls s (s\<lparr>sg_loops := (sg_loops s)[i := Draining k]\<rparr>)"
| acceptError: "i < length ls \<Longrightarrow> sg_loops s ! i = Accepting k \<Longrightarrow> errorsIs e ErrClosed \<longleftrightarrow> \<not> sg_open s ! i \<Longrightarrow>
    serveStep ls s
      (offer (length ls) (listenerStops e (sg_ctxErr s \<noteq> None)) (s\<lparr>sg_loops := (sg_loops s)[i := Draining k]\<rparr>))"
| drained: "i < length ls \<Longrightarrow> sg_loops s ! i = Draining 0 \<Longrightarrow>
    serveStep ls s (s\<lparr>sg_loops := (sg_loops s)[i := LoopDone]\<rparr>)"
| selectDone: "sg_main s = Selecting \<Longrightarrow> sg_ctxErr s \<noteq> None \<Longrightarrow> serveStep ls s (s\<lparr>sg_main := ClosingAll (Inr ())\<rparr>)"
| selectErr: "sg_main s = Selecting \<Longrightarrow> sg_errCh s = e # rest \<Longrightarrow>
    serveStep ls s (s\<lparr>sg_main := ClosingAll (Inl e), sg_errCh := rest\<rparr>)"
| closing: "sg_main s = ClosingAll r \<Longrightarrow>
    serveStep ls s (s\<lparr>sg_main := Waiting r, sg_open := replicate (length ls) False\<rparr>)"
| exit: "sg_main s = Waiting r \<Longrightarrow> \<forall>l \<in> set (sg_loops s). l = LoopDone \<Longrightarrow> serveStep ls s (s\<lparr>sg_main := Exited r\<rparr>)"

definition serveRun :: "listener list \<Rightarrow> serving \<Rightarrow> serving \<Rightarrow> bool" where
  "serveRun ls = (serveStep ls)\<^sup>*\<^sup>*"

text \<open>\<^verbatim>\<open>main\<close> of \<^verbatim>\<open>cmd/staging-server\<close>: the exit code for the error of \<^verbatim>\<open>Serve\<close>.\<close>

definition serverExitCode :: "unit result \<Rightarrow> int" where
  "serverExitCode r = (case r of Inl e \<Rightarrow> if e \<noteq> ErrCanceled then 1 else 0 | Inr _ \<Rightarrow> 0)"

section \<open>Lemmas\<close>

subsection \<open>The listeners that stay open\<close>

definition openedIn :: "listenTrace list \<Rightarrow> listener list" where
  "openedIn trace = concat (map (\<lambda>t. case t of Opened l \<Rightarrow> [l] | Closed _ \<Rightarrow> []) trace)"

definition closedIn :: "listenTrace list \<Rightarrow> listener list" where
  "closedIn trace = concat (map (\<lambda>t. case t of Opened _ \<Rightarrow> [] | Closed l \<Rightarrow> [l]) trace)"

lemma trace_simps [simp]:
  "openedIn [] = []" "closedIn [] = []" "openedIn (Opened l # t) = l # openedIn t" "closedIn (Opened l # t) = closedIn t"
  "openedIn (t @ u) = openedIn t @ openedIn u" "closedIn (t @ u) = closedIn t @ closedIn u"
  by (simp_all add: openedIn_def closedIn_def)

lemma trace_map_Closed [simp]: "openedIn (map Closed ls) = []" "closedIn (map Closed ls) = ls"
  by (induction ls) (simp_all add: openedIn_def closedIn_def)

lemma closeAll_trace: "openedIn (closeAll ls) = []" "mset (closedIn (closeAll ls)) = mset ls"
  by (induction ls) (simp_all add: closeAll_def split: listener.split)

lemma openAll_Inl:
  "openAll rs opened = (trace, Inl e) \<Longrightarrow> mset (closedIn trace) = mset opened + mset (openedIn trace)"
  by (induction rs opened arbitrary: trace rule: openAll.induct)
    (auto simp: closeAll_trace split: if_splits sum.splits prod.splits)

lemma openAll_Inr:
  "openAll rs opened = (trace, Inr ls) \<Longrightarrow> closedIn trace = [] \<and> ls = opened @ openedIn trace \<and>
     openedIn trace = concat (map (\<lambda>(address, r). if address = '''' then [] else [projr r]) rs) \<and>
     (\<forall>(address, r) \<in> set rs. address \<noteq> '''' \<longrightarrow> (\<exists>l. r = Inr l))"
  by (induction rs opened arbitrary: trace rule: openAll.induct)
    (fastforce split: if_splits sum.splits prod.splits)+

text \<open>The listeners open after a trace.\<close>

definition leftOpen :: "listenTrace list \<Rightarrow> listener multiset" where
  "leftOpen trace = mset (openedIn trace) - mset (closedIn trace)"

lemma config_withDefaults_sel [simp]:
  "ListenIPv4 (config_withDefaults cfg) = ListenIPv4 cfg" "ListenIPv6 (config_withDefaults cfg) = ListenIPv6 cfg"
  "BedrockListenIPv4 (config_withDefaults cfg) = BedrockListenIPv4 cfg"
  "BedrockListenIPv6 (config_withDefaults cfg) = BedrockListenIPv6 cfg"
  "BedrockStatus (config_withDefaults cfg) = BedrockStatus cfg" "0 < ConnectionDeadline (config_withDefaults cfg)"
  by (simp_all add: config_withDefaults_def Let_def)

lemma serveSetup_Inl:
  assumes "serveSetup sys cfg = (trace, Inl e)"
  shows "leftOpen trace = {#}"
proof -
  have fail: "leftOpen trace = {#}" if "openAll rs [] = (trace, Inl e)" for rs
    using openAll_Inl [OF that] by (simp add: leftOpen_def)
  have late: "leftOpen (t @ closeAll ls) = {#}" if "openAll rs [] = (t, Inr ls)" for rs t ls
    using openAll_Inr [OF that] by (simp add: leftOpen_def closeAll_trace)
  show ?thesis
    using assms fail late
    by (auto simp: serveSetup_def Let_def leftOpen_def split: if_splits sum.splits prod.splits)
qed

lemma serveSetup_Inr:
  assumes "serveSetup sys cfg = (trace, Inr (cfg', ls))"
  shows "leftOpen trace = mset ls \<and> ls \<noteq> [] \<and> 0 < ConnectionDeadline cfg' \<and>
    (ListenIPv4 cfg \<noteq> '''' \<or> ListenIPv6 cfg \<noteq> '''' \<longrightarrow> validateStatusJSON (StatusJSON cfg') = Inr ()) \<and>
    (BedrockListenIPv4 cfg \<noteq> '''' \<or> BedrockListenIPv6 cfg \<noteq> '''' \<longrightarrow> validateBedrockStatus (BedrockStatus cfg') = Inr ())"
proof -
  from assms obtain cfg1 where opened: "openAll (wanted sys (config_withDefaults cfg)) [] = (trace, Inr ls)"
    and some: "ListenIPv4 cfg \<noteq> '''' \<or> ListenIPv6 cfg \<noteq> '''' \<or> BedrockListenIPv4 cfg \<noteq> '''' \<or> BedrockListenIPv6 cfg \<noteq> ''''"
    by (auto simp: serveSetup_def Let_def split: if_splits sum.splits prod.splits)
  from openAll_Inr [OF opened] have "closedIn trace = []" "ls = openedIn trace" and
    ls: "ls = concat (map (\<lambda>(address, r). if address = '''' then [] else [projr r]) (wanted sys (config_withDefaults cfg)))"
    by simp_all
  then have "leftOpen trace = mset ls" by (simp add: leftOpen_def)
  moreover have "ls \<noteq> []" using some by (auto simp: ls wanted_def)
  ultimately show ?thesis
    using assms by (auto simp: serveSetup_def Let_def split: if_splits sum.splits prod.splits)
qed

subsection \<open>The invariant of the running server\<close>

fun accepting :: "loop \<Rightarrow> bool" where
  "accepting (Accepting _) = True"
| "accepting _ = False"

definition numAccepting :: "serving \<Rightarrow> nat" where
  "numAccepting s = (\<Sum>l\<leftarrow>sg_loops s. if accepting l then 1 else 0)"

fun mainResult :: "serveMain \<Rightarrow> unit result option" where
  "mainResult Selecting = None"
| "mainResult (ClosingAll r) = Some r"
| "mainResult (Waiting r) = Some r"
| "mainResult (Exited r) = Some r"

fun mainClosed :: "serveMain \<Rightarrow> bool" where
  "mainClosed (Waiting r) = True"
| "mainClosed (Exited r) = True"
| "mainClosed _ = False"

definition servingInv :: "listener list \<Rightarrow> serving \<Rightarrow> bool" where
  "servingInv ls s \<longleftrightarrow>
     length (sg_loops s) = length ls \<and> length (sg_open s) = length ls \<and>
     length (sg_errCh s) + numAccepting s \<le> length ls \<and> sg_dropped s = [] \<and>
     (\<forall>e \<in> set (sg_errCh s). \<not> errorsIs e ErrClosed) \<and>
     (\<forall>e. mainResult (sg_main s) = Some (Inl e) \<longrightarrow> \<not> errorsIs e ErrClosed) \<and>
     (mainResult (sg_main s) = Some (Inr ()) \<longrightarrow> sg_ctxErr s \<noteq> None) \<and>
     (mainClosed (sg_main s) \<longrightarrow> True \<notin> set (sg_open s)) \<and>
     (\<forall>r. sg_main s = Exited r \<longrightarrow> (\<forall>l \<in> set (sg_loops s). l = LoopDone))"

lemma servingInv_start: "servingInv ls (serveStart ls)"
  by (simp add: servingInv_def serveStart_def numAccepting_def sum_list_replicate)

lemma numAccepting_update:
  "i < length (sg_loops s) \<Longrightarrow>
     numAccepting (s\<lparr>sg_loops := (sg_loops s)[i := a]\<rparr>) + (if accepting (sg_loops s ! i) then 1 else 0) =
     numAccepting s + (if accepting a then 1 else 0)"
  using sum_list_map_update [of i "sg_loops s" "\<lambda>l. if accepting l then 1 else 0" a] by (simp add: numAccepting_def)

lemma numAccepting_cong: "sg_loops s = sg_loops s' \<Longrightarrow> numAccepting s = numAccepting s'"
  by (simp add: numAccepting_def)

text \<open>A loop that changes its state while it may still run.\<close>

lemma servingInv_loop:
  assumes "servingInv ls s" and "i < length ls" and "sg_loops s ! i \<noteq> LoopDone" and "accepting a \<longrightarrow> accepting (sg_loops s ! i)"
  shows "servingInv ls (s\<lparr>sg_loops := (sg_loops s)[i := a]\<rparr>)"
proof -
  have "sg_loops s ! i \<in> set (sg_loops s)" using assms by (simp add: servingInv_def)
  then have "\<nexists>r. sg_main s = Exited r" using assms unfolding servingInv_def by blast
  moreover have "numAccepting (s\<lparr>sg_loops := (sg_loops s)[i := a]\<rparr>) \<le> numAccepting s"
    using numAccepting_update [of i s a] assms by (auto simp: servingInv_def split: if_splits)
  ultimately show ?thesis using assms(1) unfolding servingInv_def by auto
qed

lemma servingInv_acceptError:
  assumes inv: "servingInv ls s" and i: "i < length ls" and loop: "sg_loops s ! i = Accepting k"
    and e: "errorsIs e ErrClosed \<longleftrightarrow> \<not> sg_open s ! i"
  shows "servingInv ls (offer (length ls) (listenerStops e (sg_ctxErr s \<noteq> None)) (s\<lparr>sg_loops := (sg_loops s)[i := Draining k]\<rparr>))"
proof (cases "listenerStops e (sg_ctxErr s \<noteq> None)")
  case None
  with servingInv_loop [OF inv i, of "Draining k"] loop show ?thesis by (simp add: offer_def)
next
  case (Some x)
  then have x: "x = e" "\<not> errorsIs e ErrClosed" by (auto simp: listenerStops_def split: if_splits)
  let ?s = "s\<lparr>sg_loops := (sg_loops s)[i := Draining k]\<rparr>"
  have "numAccepting ?s + 1 = numAccepting s"
    using numAccepting_update [of i s "Draining k"] loop i inv by (simp add: servingInv_def)
  then have room: "length (sg_errCh s) + numAccepting ?s < length ls" using inv by (simp add: servingInv_def)
  have "servingInv ls ?s" using servingInv_loop [OF inv i, of "Draining k"] loop by simp
  then have "servingInv ls (?s\<lparr>sg_errCh := sg_errCh s @ [e]\<rparr>)"
    using x room numAccepting_cong [of "?s\<lparr>sg_errCh := sg_errCh s @ [e]\<rparr>" ?s] by (simp add: servingInv_def)
  with room show ?thesis unfolding Some x(1) by (simp add: offer_def)
qed

lemma servingInv_step:
  assumes "serveStep ls s s'" and inv: "servingInv ls s"
  shows "servingInv ls s'"
  using assms(1)
proof cases
  case (watcher i)
  with inv show ?thesis
    by (auto simp: servingInv_def numAccepting_def dest: set_update_subset_insert [THEN subsetD])
next
  case (acceptError i k e)
  with servingInv_acceptError [OF inv] show ?thesis by simp
next
  case (accept i network address k)
  with servingInv_loop [OF inv, of i "Accepting (Suc k)"] show ?thesis by simp
next
  case (connEnds i k)
  with servingInv_loop [OF inv, of i "Accepting k"] show ?thesis by simp
next
  case (lastConnEnds i k)
  with servingInv_loop [OF inv, of i "Draining k"] show ?thesis by simp
next
  case (drained i)
  with servingInv_loop [OF inv, of i LoopDone] show ?thesis by simp
qed (use inv in \<open>auto simp: servingInv_def numAccepting_def\<close>)

subsection \<open>The end of the server\<close>

fun loopRank :: "loop \<Rightarrow> nat" where
  "loopRank (Accepting k) = k + 2"
| "loopRank (Draining k) = k + 1"
| "loopRank LoopDone = 0"

fun mainRank :: "serveMain \<Rightarrow> nat" where
  "mainRank Selecting = 3"
| "mainRank (ClosingAll r) = 2"
| "mainRank (Waiting r) = 1"
| "mainRank (Exited r) = 0"

definition servingRank :: "serving \<Rightarrow> nat" where
  "servingRank s = (\<Sum>l\<leftarrow>sg_loops s. loopRank l) + mainRank (sg_main s)"

lemma servingRank_loop:
  assumes "i < length (sg_loops s)" and "loopRank a < loopRank (sg_loops s ! i)"
  shows "servingRank (s\<lparr>sg_loops := (sg_loops s)[i := a]\<rparr>) < servingRank s"
  using sum_list_map_update [of i "sg_loops s" loopRank a] assms by (simp add: servingRank_def)

lemma offer_sel [simp]:
  "sg_loops (offer n e s) = sg_loops s" "sg_main (offer n e s) = sg_main s" "sg_open (offer n e s) = sg_open s"
  "sg_ctxErr (offer n e s) = sg_ctxErr s"
  by (simp_all add: offer_def split: option.split)

lemma servingRank_offer [simp]: "servingRank (offer n e s) = servingRank s"
  by (simp add: servingRank_def)

text \<open>Once the listeners are closed or the context has ended, some step leads on, and it lowers the rank.\<close>

lemma serving_progress:
  assumes inv: "servingInv ls s" and going: "\<nexists>r. sg_main s = Exited r"
    and reason: "sg_ctxErr s \<noteq> None \<or> sg_errCh s \<noteq> [] \<or> sg_main s \<noteq> Selecting"
  shows "\<exists>s'. serveStep ls s s' \<and> servingRank s' < servingRank s \<and>
    (sg_ctxErr s' \<noteq> None \<or> sg_errCh s' \<noteq> [] \<or> sg_main s' \<noteq> Selecting)"
proof (cases "sg_main s")
  case Selecting
  show ?thesis
  proof (cases "sg_ctxErr s")
    case None
    with reason Selecting obtain e rest where "sg_errCh s = e # rest" by (cases "sg_errCh s") auto
    from serveStep.selectErr [OF Selecting this] show ?thesis
      by (intro exI [of _ "s\<lparr>sg_main := ClosingAll (Inl e), sg_errCh := rest\<rparr>"]) (simp add: servingRank_def Selecting)
  next
    case (Some e)
    from serveStep.selectDone [OF Selecting, of ls] Some show ?thesis
      by (intro exI [of _ "s\<lparr>sg_main := ClosingAll (Inr ())\<rparr>"]) (simp add: servingRank_def Selecting)
  qed
next
  case (ClosingAll r)
  from serveStep.closing [OF this, of ls] show ?thesis
    by (intro exI [of _ "s\<lparr>sg_main := Waiting r, sg_open := replicate (length ls) False\<rparr>"]) (simp add: servingRank_def ClosingAll)
next
  case (Waiting r)
  have len: "length (sg_loops s) = length ls" "length (sg_open s) = length ls" and shut: "True \<notin> set (sg_open s)"
    using inv Waiting by (simp_all add: servingInv_def)
  show ?thesis
  proof (cases "\<forall>l \<in> set (sg_loops s). l = LoopDone")
    case True
    from serveStep.exit [OF Waiting True, of ls] show ?thesis
      by (intro exI [of _ "s\<lparr>sg_main := Exited r\<rparr>"]) (simp add: servingRank_def Waiting)
  next
    case False
    then obtain i where i: "i < length ls" "sg_loops s ! i \<noteq> LoopDone" by (metis in_set_conv_nth len(1))
    then have closed: "\<not> sg_open s ! i" using shut len(2) by (metis (full_types) nth_mem)
    show ?thesis
    proof (cases "sg_loops s ! i")
      case (Accepting k)
      have "errorsIs ErrClosed ErrClosed" by simp
      with closed have "errorsIs ErrClosed ErrClosed \<longleftrightarrow> \<not> sg_open s ! i" by simp
      from serveStep.acceptError [OF i(1) Accepting this] servingRank_loop [of i s "Draining k"] Accepting i len show ?thesis
        by (intro exI conjI) (assumption, simp_all add: Waiting)
    next
      case (Draining k)
      show ?thesis
      proof (cases k)
        case 0
        with serveStep.drained [of i ls s] servingRank_loop [of i s LoopDone] Draining i len Waiting show ?thesis
          by (intro exI [of _ "s\<lparr>sg_loops := (sg_loops s)[i := LoopDone]\<rparr>"]) simp
      next
        case (Suc m)
        with serveStep.lastConnEnds [of i ls s m] servingRank_loop [of i s "Draining m"] Draining i len Waiting show ?thesis
          by (intro exI [of _ "s\<lparr>sg_loops := (sg_loops s)[i := Draining m]\<rparr>"]) simp
      qed
    qed (use i in simp)
  qed
qed (use going in simp)

interpretation serving: finishing_system "serveStep ls" "servingInv ls" servingRank
  "\<lambda>s. sg_ctxErr s \<noteq> None \<or> sg_errCh s \<noteq> [] \<or> sg_main s \<noteq> Selecting" "\<lambda>s. \<exists>r. sg_main s = Exited r"
proof
  fix s s'
  show "serveStep ls s s' \<Longrightarrow> servingInv ls s \<Longrightarrow> servingInv ls s'" by (rule servingInv_step)
  assume "servingInv ls s" and "sg_ctxErr s \<noteq> None \<or> sg_errCh s \<noteq> [] \<or> sg_main s \<noteq> Selecting"
    and "\<nexists>r. sg_main s = Exited r"
  then show "\<exists>s'. serveStep ls s s' \<and> servingRank s' < servingRank s \<and>
      (sg_ctxErr s' \<noteq> None \<or> sg_errCh s' \<noteq> [] \<or> sg_main s' \<noteq> Selecting)"
    by (intro serving_progress)
qed

lemma servingInv_run: "serveRun ls s s' \<Longrightarrow> servingInv ls s \<Longrightarrow> servingInv ls s'"
  unfolding serveRun_def by (rule serving.inv_run)

lemma serving_exits:
  "servingInv ls s \<Longrightarrow> sg_ctxErr s \<noteq> None \<or> sg_errCh s \<noteq> [] \<or> sg_main s \<noteq> Selecting \<Longrightarrow>
     \<exists>s' r. serveRun ls s s' \<and> sg_main s' = Exited r"
  using serving.finishes [of ls s] by (auto simp: serveRun_def)

section \<open>Properties\<close>

text \<open>
  C17: the start of the staging server. When it fails, no listener stays open, whichever check or listener
  failed. When it succeeds, exactly the listeners it goes on with are open, there is at least one, the
  deadline of connections is positive, and every status that will be served has passed its validation.
\<close>

theorem serve_setup:
  "case serveSetup sys cfg of
     (trace, Inl e) \<Rightarrow> leftOpen trace = {#}
   | (trace, Inr (cfg', ls)) \<Rightarrow>
       leftOpen trace = mset ls \<and> ls \<noteq> [] \<and> 0 < ConnectionDeadline cfg' \<and>
       (ListenIPv4 cfg \<noteq> '''' \<or> ListenIPv6 cfg \<noteq> '''' \<longrightarrow> validateStatusJSON (StatusJSON cfg') = Inr ()) \<and>
       (BedrockListenIPv4 cfg \<noteq> '''' \<or> BedrockListenIPv6 cfg \<noteq> '''' \<longrightarrow>
          validateBedrockStatus (BedrockStatus cfg') = Inr ())"
  using serveSetup_Inl [of sys cfg] serveSetup_Inr [of sys cfg] by (auto split: prod.split sum.split)

text \<open>
  C18: the shutdown of the staging server. No error of a listener is ever lost to a full channel. When the
  server has returned, every loop has ended and every listener is closed; it returns no error only after its
  context has ended, and an error it returns is not one of a closed listener. Once the context has ended or a
  listener has failed, the server can always go on to return.
\<close>

theorem serve_shutdown:
  assumes "serveRun ls (serveStart ls) s"
  shows "sg_dropped s = [] \<and>
    (\<forall>r. sg_main s = Exited r \<longrightarrow>
       (\<forall>l \<in> set (sg_loops s). l = LoopDone) \<and> True \<notin> set (sg_open s) \<and>
       (r = Inr () \<longrightarrow> sg_ctxErr s \<noteq> None) \<and> (\<forall>e. r = Inl e \<longrightarrow> \<not> errorsIs e ErrClosed)) \<and>
    (sg_ctxErr s \<noteq> None \<or> sg_errCh s \<noteq> [] \<longrightarrow> (\<exists>s' r. serveRun ls s s' \<and> sg_main s' = Exited r))"
proof -
  have inv: "servingInv ls s" using servingInv_run [OF assms servingInv_start] .
  then have "sg_dropped s = []" by (simp add: servingInv_def)
  moreover have "(\<forall>l \<in> set (sg_loops s). l = LoopDone) \<and> True \<notin> set (sg_open s) \<and>
       (r = Inr () \<longrightarrow> sg_ctxErr s \<noteq> None) \<and> (\<forall>e. r = Inl e \<longrightarrow> \<not> errorsIs e ErrClosed)"
    if "sg_main s = Exited r" for r
    using inv that by (simp add: servingInv_def)
  ultimately show ?thesis using serving_exits [OF inv] by blast
qed

section \<open>Instances\<close>

text \<open>A server with its default flags: its first listener fails, and the server returns that error.\<close>

definition exampleListenSystem :: listenSystem where
  "exampleListenSystem = \<lparr>ls_Listen = (\<lambda>_ _. Inr ()), ls_ListenPacket = (\<lambda>_ a. Inr None)\<rparr>"

theorem serve_setup_witness:
  "\<exists>trace ls. serveSetup exampleListenSystem bindFlags = (trace, Inr (bindFlags, ls)) \<and> leftOpen trace = mset ls \<and> ls \<noteq> []"
proof -
  let ?ls = "[StreamListener ''tcp4'' ''127.0.0.1:25565'', StreamListener ''tcp6'' ''[::1]:25566'']"
  have "serveSetup exampleListenSystem bindFlags = (map Opened ?ls, Inr (bindFlags, ?ls))" by code_simp
  with serve_setup [where sys = exampleListenSystem and cfg = bindFlags] show ?thesis by auto
qed

theorem serve_shutdown_witness:
  "\<exists>s' r. serveRun [StreamListener ''tcp4'' ''127.0.0.1:25565'']
     ((serveStart [StreamListener ''tcp4'' ''127.0.0.1:25565''])\<lparr>sg_ctxErr := Some ErrCanceled\<rparr>) s' \<and> sg_main s' = Exited r"
proof -
  let ?ls = "[StreamListener ''tcp4'' ''127.0.0.1:25565'']"
  have "serveRun ?ls (serveStart ?ls) ((serveStart ?ls)\<lparr>sg_ctxErr := Some ErrCanceled\<rparr>)"
    unfolding serveRun_def by (rule r_into_rtranclp [of "serveStep ?ls", OF serveStep.cancel]) (simp add: serveStart_def)
  from serve_shutdown [OF this] show ?thesis by simp
qed

end
