(* ===== verification/Go_Unmarshal.thy ===== *)
theory Go_Unmarshal
  imports Go_Json
begin

text \<open>
  The part of \<^verbatim>\<open>json.Unmarshal\<close> that fills a struct of strings and integers: the members of the object of a text,
  found with the scanner of \<open>Go_Json\<close>, the text a string literal stands for, and the comparison of names.
\<close>

section \<open>String literals\<close>

definition hexVal :: "char \<Rightarrow> int" where
  "hexVal c =
     (let n = of_char c in
      if 48 \<le> n \<and> n \<le> 57 then n - 48 else if 97 \<le> n \<and> n \<le> 102 then n - 87 else n - 55)"

definition hex4 :: "string \<Rightarrow> int" where
  "hex4 s = foldl (\<lambda>acc c. 16 * acc + hexVal c) 0 (take 4 s)"

text \<open>\<^verbatim>\<open>utf8.AppendRune\<close>.\<close>

definition encodeRune :: "int \<Rightarrow> string" where
  "encodeRune r =
     (if r < 0x80 then [char_of r]
      else if r < 0x800 then [char_of (0xC0 + r div 64), char_of (0x80 + r mod 64)]
      else if r < 0x10000 then [char_of (0xE0 + r div 4096), char_of (0x80 + r div 64 mod 64), char_of (0x80 + r mod 64)]
      else [char_of (0xF0 + r div 262144), char_of (0x80 + r div 4096 mod 64), char_of (0x80 + r div 64 mod 64),
            char_of (0x80 + r mod 64)])"

definition runeError :: string where
  "runeError = encodeRune 0xFFFD"

definition unescape :: "char \<Rightarrow> char" where
  "unescape c =
     (if c = CHR ''b'' then CHR 8 else if c = CHR ''f'' then CHR 12 else if c = CHR ''n'' then CHR 10
      else if c = CHR ''r'' then CHR 13 else if c = CHR ''t'' then CHR 9 else c)"

text \<open>
  One step of \<^verbatim>\<open>unquoteBytes\<close> at a character: what it stands for, and how many characters after it belong to it. A
  half of a surrogate pair without the other becomes the replacement character, as does a byte that is not UTF-8.
\<close>

definition unquoteStep :: "char \<Rightarrow> string \<Rightarrow> string \<times> nat" where
  "unquoteStep c s =
     (if c = CHR 0x5C then
        (case s of
           [] \<Rightarrow> ([], 0)
         | e # t \<Rightarrow>
             if e = CHR ''u'' then
               (let r = hex4 t in
                if 0xD800 \<le> r \<and> r \<le> 0xDFFF then
                  (let r2 = (if take 2 (drop 4 t) = [CHR 0x5C, CHR ''u''] then hex4 (drop 6 t) else 0) in
                   if r < 0xDC00 \<and> 0xDC00 \<le> r2 \<and> r2 \<le> 0xDFFF then
                     (encodeRune (0x10000 + (r - 0xD800) * 0x400 + (r2 - 0xDC00)), 11)
                   else (runeError, 5))
                else (encodeRune r, 5))
             else ([unescape e], 1))
      else if (of_char c :: nat) < 128 then ([c], 0)
      else
        (case runeSize (c # s) of
           None \<Rightarrow> (runeError, 0)
         | Some n \<Rightarrow> (take n (c # s), n - 1)))"

function jsonUnquote :: "string \<Rightarrow> string" where
  "jsonUnquote [] = []"
| "jsonUnquote (c # s) = fst (unquoteStep c s) @ jsonUnquote (drop (snd (unquoteStep c s)) s)"
  by pat_completeness auto
termination
  by (relation "measure length") auto

declare jsonUnquote.simps(2) [simp del]

section \<open>Members\<close>

text \<open>
  The texts of the names and values of the object at the top. The stack of the scanner shows where they end: at the
  colon the name gives way to the value, at a comma the value to the next name, and at the brace the object ends.
\<close>

fun jsonMembers :: "jscan \<Rightarrow> string \<Rightarrow> string \<Rightarrow> string \<Rightarrow> (string \<times> string) list" where
  "jsonMembers st key acc [] = []"
| "jsonMembers st key acc (c # s) =
     (let st' = jstep st c in
      if snd st = [] then jsonMembers st' [] [] s
      else if snd st = [parseObjectKey] \<and> snd st' = [parseObjectValue] then jsonMembers st' acc [] s
      else if snd st = [parseObjectValue] \<and> snd st' = [parseObjectKey] then (key, acc) # jsonMembers st' [] [] s
      else if snd st = [parseObjectValue] \<and> snd st' = [] then [(key, acc)]
      else jsonMembers st' key (acc @ [c]) s)"

definition trimJson :: "string \<Rightarrow> string" where
  "trimJson s = rev (dropWhile jsonSpace (rev (dropWhile jsonSpace s)))"

definition literalText :: "string \<Rightarrow> string" where
  "literalText s = jsonUnquote (butlast (tl s))"

definition objectMembers :: "string \<Rightarrow> (string \<times> string) list" where
  "objectMembers s = map (\<lambda>(key, value). (literalText (trimJson key), trimJson value)) (jsonMembers (beginValue, []) [] [] s)"

text \<open>
  Names are compared exactly and then without case; of the characters outside ASCII only the long s folds to a letter
  of the names in use.
\<close>

fun foldName :: "string \<Rightarrow> string" where
  "foldName [] = []"
| "foldName (c # s) =
     (case s of
        d # t \<Rightarrow> if c = CHR 0xC5 \<and> d = CHR 0xBF then CHR ''s'' # foldName t else lowerASCII c # foldName s
      | [] \<Rightarrow> [lowerASCII c])"

definition sameName :: "string \<Rightarrow> string \<Rightarrow> bool" where
  "sameName field key \<longleftrightarrow> key = field \<or> foldName key = foldName field"

section \<open>Values\<close>

definition typeError :: "string \<Rightarrow> string \<Rightarrow> goerr" where
  "typeError value goType = Errorf ''json: cannot unmarshal %s into Go struct field of type %s'' [AStr value, AStr goType]"

text \<open>The value of a field of type \<^verbatim>\<open>string\<close> and of type \<^verbatim>\<open>int64\<close>; \<^verbatim>\<open>null\<close> leaves the old one.\<close>

definition storeString :: "string \<Rightarrow> string \<Rightarrow> string result" where
  "storeString value old =
     (if value = ''null'' then Inr old
      else if value \<noteq> [] \<and> hd value = CHR 0x22 then Inr (literalText value)
      else Inl (typeError value ''string''))"

definition storeInt64 :: "string \<Rightarrow> int \<Rightarrow> int result" where
  "storeInt64 value old =
     (if value = ''null'' then Inr old
      else if value \<noteq> [] \<and> (hd value = CHR ''-'' \<or> isDigit (hd value)) then
        emap (\<lambda>_. typeError value ''int64'') (atoi value)
      else Inl (typeError value ''int64''))"

section \<open>Lemmas\<close>

subsection \<open>The members of what is written\<close>

lemma members_stay:
  "snd (jstep st c) = snd st \<Longrightarrow> snd st \<noteq> [] \<Longrightarrow> jsonMembers st key acc (c # s) = jsonMembers (jstep st c) key (acc @ [c]) s"
  by (auto simp: Let_def)

lemma members_plain:
  "\<forall>c \<in> set r. 128 \<le> (of_char c :: nat) \<Longrightarrow> ps \<noteq> [] \<Longrightarrow>
     jsonMembers (inString, ps) key acc (r @ s) = jsonMembers (inString, ps) key (acc @ r) s"
proof (induction r arbitrary: acc)
  case (Cons c r)
  have "c \<noteq> CHR 0x22" "c \<noteq> CHR 0x5C" using Cons.prems by auto
  with Cons show ?case using jstep_plain [of c ps] by (simp add: members_stay del: jstep.simps jsonMembers.simps)
qed simp

lemma members_jsonEscape:
  assumes "(of_char c :: nat) < 128" and "ps \<noteq> []"
  shows "jsonMembers (inString, ps) key acc (jsonEscape c @ s) = jsonMembers (inString, ps) key (acc @ jsonEscape c) s"
proof -
  have "(of_char c :: nat) div 16 < 16" "(of_char c :: nat) mod 16 < 16" using assms by simp_all
  note hex = this [THEN isHex_jsonHexDigit]
  show ?thesis
    using jstep_plain [of c ps] hex assms by (simp add: jsonEscape_def Let_def isHex_literals members_stay del: jsonMembers.simps(2))
qed

lemma members_jsonRune:
  "\<forall>c \<in> set r. 128 \<le> (of_char c :: nat) \<Longrightarrow> ps \<noteq> [] \<Longrightarrow>
     jsonMembers (inString, ps) key acc (jsonRune r @ s) = jsonMembers (inString, ps) key (acc @ jsonRune r) s"
  by (auto simp: jsonRune_def isHex_literals members_plain members_stay simp del: jsonMembers.simps(2))

lemma members_jsonStringBody:
  "ps \<noteq> [] \<Longrightarrow> jsonMembers (inString, ps) key acc (jsonStringBody w @ s) = jsonMembers (inString, ps) key (acc @ jsonStringBody w) s"
proof (induction w arbitrary: acc rule: jsonStringBody.induct)
  case (2 c w)
  then show ?case
    using members_jsonEscape [of c ps] runeSize_high [of c w] members_jsonRune
    by (auto simp: jsonStringBody.simps(2) isHex_literals not_less members_stay
        simp del: take_Cons' drop_Cons' jsonMembers.simps(2) split: option.split)
qed (simp add: jsonStringBody.simps(1))

lemma members_jsonString:
  assumes "st \<in> {beginValue, beginString, beginStringOrEmpty}" and "ps \<noteq> []"
  shows "jsonMembers (st, ps) key acc (jsonString w @ s) = jsonMembers (endValue, ps) key (acc @ jsonString w) s"
proof -
  have "jstep (st, ps) CHR 0x22 = (inString, ps)"
    using assms by (auto simp: stepBeginValue_def stepBeginString_def jsonSpace_def)
  with assms(2) show ?thesis
    by (simp add: jsonString_def members_stay members_jsonStringBody del: jsonMembers.simps(2))
qed

lemma members_natText:
  "0 < n \<Longrightarrow> ps \<noteq> [] \<Longrightarrow>
     jsonMembers (beginValue, ps) key acc (natText n @ s) = jsonMembers (numInt, ps) key (acc @ natText n) s"
proof (induction n arbitrary: s acc rule: natText.induct)
  case (1 n)
  show ?case
  proof (cases "n < 10")
    case True
    then have "natText n = [digitChar n]" by (simp add: natText.simps [of n])
    moreover from this have "jstep (beginValue, ps) (digitChar n) = (numInt, ps)" using scan_natText [OF 1(2), of ps] by simp
    ultimately show ?thesis using 1(3) by (simp add: members_stay del: jsonMembers.simps(2) jstep.simps)
  next
    case False
    then have n: "natText n = natText (n div 10) @ [digitChar (n mod 10)]" by (simp add: natText.simps [of n])
    have "jstep (numInt, ps) (digitChar (n mod 10)) = (numInt, ps)" by (simp add: isDigit_def)
    with n 1(1) [of acc "digitChar (n mod 10) # s"] False 1 show ?thesis
      by (simp add: members_stay del: jsonMembers.simps(2) jstep.simps)
  qed
qed

subsection \<open>What a literal stands for\<close>

lemma unquote_plain:
  "c \<noteq> CHR 0x5C \<Longrightarrow> (of_char c :: nat) < 128 \<Longrightarrow> jsonUnquote (c # s) = c # jsonUnquote s"
  by (simp add: jsonUnquote.simps(2) unquoteStep_def)

lemma unquote_short:
  "e \<noteq> CHR ''u'' \<Longrightarrow> jsonUnquote (CHR 0x5C # e # s) = unescape e # jsonUnquote s"
  by (simp add: jsonUnquote.simps(2) unquoteStep_def)

lemma unquote_u:
  "hex4 [a, b, c, d] < 0xD800 \<Longrightarrow> jsonUnquote (CHR 0x5C # CHR ''u'' # a # b # c # d # s) = encodeRune (hex4 [a, b, c, d]) @ jsonUnquote s"
  by (simp add: jsonUnquote.simps(2) unquoteStep_def hex4_def Let_def)

text \<open>The three shapes of what is written for a character of ASCII.\<close>

definition escapeFits :: "char \<Rightarrow> bool" where
  "escapeFits c \<longleftrightarrow>
     (case jsonEscape c of
        [x] \<Rightarrow> x = c \<and> x \<noteq> CHR 0x5C
      | [b, x] \<Rightarrow> b = CHR 0x5C \<and> x \<noteq> CHR ''u'' \<and> unescape x = c
      | [b, u, h1, h2, h3, h4] \<Rightarrow> b = CHR 0x5C \<and> u = CHR ''u'' \<and> hex4 [h1, h2, h3, h4] = of_char c
      | _ \<Rightarrow> False)"

lemma escapeFits_ascii: "(of_char c :: nat) < 128 \<Longrightarrow> escapeFits c"
proof -
  assume "(of_char c :: nat) < 128"
  then have "0 \<le> (of_char c :: int)" "(of_char c :: int) < 128"
    using of_nat_of_char [of c, where ?'a = int] by linarith+
  moreover have "list_all (\<lambda>n. escapeFits (char_of n)) [0..127]" by code_simp
  then have "escapeFits (char_of n)" if "0 \<le> n" "n < 128" for n :: int
    using that by (simp add: list_all_iff)
  ultimately have "escapeFits (char_of (of_char c :: int))" by blast
  then show "escapeFits c" by simp
qed

lemma unquote_jsonEscape:
  assumes "(of_char c :: nat) < 128"
  shows "jsonUnquote (jsonEscape c @ s) = c # jsonUnquote s"
proof -
  have "(of_char c :: int) < 128" using assms of_nat_of_char [of c, where ?'a = int] by linarith
  with escapeFits_ascii [OF assms] assms show ?thesis
    by (auto simp: escapeFits_def unquote_plain unquote_short unquote_u encodeRune_def split: list.splits)
qed

text \<open>The size of a sequence depends on the sequence only.\<close>

lemma runeSize_append:
  assumes "runeSize s = Some n"
  shows "runeSize (take n s @ t) = Some n"
proof -
  have le: "n \<le> length s" using assms by (auto simp: runeSize_def split: if_splits)
  then have "take m (take n s @ t) = take m s" if "m \<le> n" for m using that by (simp add: min_def)
  with assms le show ?thesis by (auto simp: runeSize_def min_def split: if_splits)
qed

lemma unquote_rune:
  assumes "runeSize (c # w) = Some n" and "128 \<le> (of_char c :: nat)"
  shows "jsonUnquote (take n (c # w) @ s) = take n (c # w) @ jsonUnquote s"
proof -
  have n: "n \<in> {2, 3, 4}" "n \<le> Suc (length w)" using assms(1) by (auto simp: runeSize_def split: if_splits)
  then obtain r where r: "take n (c # w) = c # r" "length r = n - 1" by (cases n) auto
  have "runeSize (c # r @ s) = Some n" using runeSize_append [OF assms(1), of s] r by simp
  moreover have "take n (c # r @ s) = c # r" using r n by (cases n) auto
  moreover have "c \<noteq> CHR 0x5C" using assms(2) by auto
  ultimately show ?thesis using assms(2) r by (simp add: jsonUnquote.simps(2) unquoteStep_def)
qed

lemma unquote_jsonRune:
  assumes "runeSize (c # w) = Some n" and "128 \<le> (of_char c :: nat)"
  shows "jsonUnquote (jsonRune (take n (c # w)) @ s) = take n (c # w) @ jsonUnquote s"
proof -
  have "encodeRune 0x2028 = [CHR 0xE2, CHR 0x80, CHR 0xA8]" "encodeRune 0x2029 = [CHR 0xE2, CHR 0x80, CHR 0xA9]"
    "hex4 ''2028'' = 0x2028" "hex4 ''2029'' = 0x2029" by code_simp+
  then have "jsonUnquote ((CHR 0x5C # ''u2028'') @ s) = [CHR 0xE2, CHR 0x80, CHR 0xA8] @ jsonUnquote s"
    "jsonUnquote ((CHR 0x5C # ''u2029'') @ s) = [CHR 0xE2, CHR 0x80, CHR 0xA9] @ jsonUnquote s"
    by (simp_all add: unquote_u)
  note separators = this
  consider (line) "take n (c # w) = [CHR 0xE2, CHR 0x80, CHR 0xA8]" "jsonRune (take n (c # w)) = CHR 0x5C # ''u2028''"
    | (para) "take n (c # w) = [CHR 0xE2, CHR 0x80, CHR 0xA9]" "jsonRune (take n (c # w)) = CHR 0x5C # ''u2029''"
    | (other) "jsonRune (take n (c # w)) = take n (c # w)"
    by (cases "take n (c # w) = [CHR 0xE2, CHR 0x80, CHR 0xA8]"; cases "take n (c # w) = [CHR 0xE2, CHR 0x80, CHR 0xA9]")
      (simp_all only: jsonRune_def if_True if_False)
  then show ?thesis
  proof cases
    case line
    then show ?thesis using separators(1) by (simp only:)
  next
    case para
    then show ?thesis using separators(2) by (simp only:)
  next
    case other
    then show ?thesis using unquote_rune [OF assms, of s] by (simp only:)
  qed
qed

text \<open>The first sequence of a valid text has two, three or four bytes, and each case is a condition on them.\<close>

lemma utf8Valid_high:
  assumes "0x80 \<le> b0" and "utf8Valid (b0 # r)"
  obtains (two) Q where "\<And>r. utf8Valid (b0 # r) = (case r of b1 # r' \<Rightarrow> Q b1 \<and> utf8Valid r' | _ \<Rightarrow> False)"
  | (three) Q where "\<And>r. utf8Valid (b0 # r) = (case r of b1 # b2 # r' \<Rightarrow> Q b1 b2 \<and> utf8Valid r' | _ \<Rightarrow> False)"
  | (four) Q where "\<And>r. utf8Valid (b0 # r) = (case r of b1 # b2 # b3 # r' \<Rightarrow> Q b1 b2 b3 \<and> utf8Valid r' | _ \<Rightarrow> False)"
proof -
  have high: "(b0 < 0x80) = False" using assms(1) by simp
  consider (r2) "(0xC2 \<le> b0 \<and> b0 \<le> 0xDF) = True" | (r3) "(0xC2 \<le> b0 \<and> b0 \<le> 0xDF) = False" "(0xE0 \<le> b0 \<and> b0 \<le> 0xEF) = True"
    | (r4) "(0xC2 \<le> b0 \<and> b0 \<le> 0xDF) = False" "(0xE0 \<le> b0 \<and> b0 \<le> 0xEF) = False" "(0xF0 \<le> b0 \<and> b0 \<le> 0xF4) = True"
  proof -
    have "utf8Valid (b0 # r) = False"
      if "(0xC2 \<le> b0 \<and> b0 \<le> 0xDF) = False" "(0xE0 \<le> b0 \<and> b0 \<le> 0xEF) = False" "(0xF0 \<le> b0 \<and> b0 \<le> 0xF4) = False"
      by (simp only: utf8Valid.simps(2) high that if_False)
    with assms(2) that show thesis by argo
  qed
  then show thesis
  proof cases
    case r2
    show thesis by (rule two [of contByte]) (simp only: utf8Valid.simps(2) high r2 if_False if_True)
  next
    case r3
    show thesis
      by (rule three [of "\<lambda>b1 b2. (if b0 = 0xE0 then 0xA0 \<le> b1 \<and> b1 \<le> 0xBF
          else if b0 = 0xED then 0x80 \<le> b1 \<and> b1 \<le> 0x9F else contByte b1) \<and> contByte b2"])
        (simp only: utf8Valid.simps(2) high r3 if_False if_True conj_assoc)
  next
    case r4
    show thesis
      by (rule four [of "\<lambda>b1 b2 b3. (if b0 = 0xF0 then 0x90 \<le> b1 \<and> b1 \<le> 0xBF
          else if b0 = 0xF4 then 0x80 \<le> b1 \<and> b1 \<le> 0x8F else contByte b1) \<and> contByte b2 \<and> contByte b3"])
        (simp only: utf8Valid.simps(2) high r4 if_False if_True conj_assoc)
  qed
qed

lemma utf8Valid_split:
  assumes "utf8Valid (b0 # r)" and "0x80 \<le> b0"
  shows "\<exists>n. find (\<lambda>n. n \<le> Suc (length r) \<and> utf8Valid (take n (b0 # r))) [2, 3, 4] = Some n \<and> utf8Valid (drop n (b0 # r))"
  using assms(2,1)
proof (cases rule: utf8Valid_high)
  case (two Q)
  with assms(1) show ?thesis by (auto simp: two split: list.splits simp del: utf8Valid.simps(2))
next
  case (three Q)
  with assms(1) show ?thesis by (auto simp: three split: list.splits simp del: utf8Valid.simps(2))
next
  case (four Q)
  with assms(1) show ?thesis by (auto simp: four split: list.splits simp del: utf8Valid.simps(2))
qed

lemma utf8Valid_rest:
  assumes "utf8Valid (bytes_of (c # w))" and "128 \<le> (of_char c :: nat)"
  shows "\<exists>n. runeSize (c # w) = Some n \<and> utf8Valid (bytes_of (drop n (c # w)))"
proof -
  have "0x80 \<le> (of_char c :: byte)" using assms(2) by (simp add: word_le_nat_alt unat_of_char)
  with utf8Valid_split [of "of_char c" "bytes_of w"] assms(1) show ?thesis
    by (auto simp: runeSize_def bytes_of_def take_map drop_map simp flip: list.map(2) simp del: list.map(2))
qed

lemma unquote_jsonStringBody: "utf8Valid (bytes_of w) \<Longrightarrow> jsonUnquote (jsonStringBody w) = w"
proof (induction w rule: jsonStringBody.induct)
  case (2 c w)
  show ?case
  proof (cases "(of_char c :: nat) < 128")
    case True
    then have "utf8Valid (bytes_of w)" using 2(4) by (simp add: bytes_of_def word_less_nat_alt unat_of_char split: if_splits)
    with True 2(1) show ?thesis by (simp add: jsonStringBody.simps(2) unquote_jsonEscape)
  next
    case False
    with utf8Valid_rest [OF 2(4)] obtain n where n: "runeSize (c # w) = Some n" "utf8Valid (bytes_of (drop n (c # w)))" by auto
    with False 2(3) [OF False n(1) n(2)] unquote_jsonRune [OF n(1)] show ?thesis
      by (simp add: jsonStringBody.simps(2) del: take_Cons' drop_Cons')
  qed
qed (simp add: jsonStringBody.simps(1))

end
