(* ===== verification/Go_Flag.thy ===== *)
theory Go_Flag
  imports Complex_Main Go_Float
begin

text \<open>
  The part of the packages \<^verbatim>\<open>flag\<close>, \<^verbatim>\<open>strconv\<close>, \<^verbatim>\<open>time\<close> and \<^verbatim>\<open>path/filepath\<close> that the two commands use: the
  parser of a flag set with string, integer and duration flags, \<^verbatim>\<open>strconv.ParseInt\<close> with the base of the
  prefix, \<^verbatim>\<open>time.ParseDuration\<close>, and the paths of Unix.
\<close>

section \<open>Numbers\<close>

definition errParse :: goerr where
  "errParse = ErrNew ''parse error''"

definition errRange :: goerr where
  "errRange = ErrNew ''value out of range''"

definition baseDigit :: "char \<Rightarrow> int option" where
  "baseDigit c =
     (case digitVal c of
        Some d \<Rightarrow> Some d
      | None \<Rightarrow> (let n = of_char (lowerASCII c) :: int in if 97 \<le> n \<and> n \<le> 122 then Some (n - 87) else None))"

fun uintLoop :: "int \<Rightarrow> int \<Rightarrow> string \<Rightarrow> int result" where
  "uintLoop base acc [] = Inr acc"
| "uintLoop base acc (c # s) =
     (if c = CHR ''_'' then uintLoop base acc s
      else
        (case baseDigit c of
           None \<Rightarrow> Inl errParse
         | Some d \<Rightarrow>
             if d \<ge> base then Inl errParse
             else if acc * base + d > 2 ^ 64 - 1 then Inl errRange
             else uintLoop base (acc * base + d) s))"

text \<open>\<^verbatim>\<open>ParseUint\<close> and \<^verbatim>\<open>ParseInt\<close> with base 0 and 64 bits, with the errors a flag makes of theirs.\<close>

definition parseUint0 :: "string \<Rightarrow> int result" where
  "parseUint0 s =
     (if s = [] then Inl errParse
      else
        (let (base, digits) =
           (if hd s \<noteq> CHR ''0'' then (10, s)
            else if length s \<ge> 3 \<and> lowerASCII (s ! 1) = CHR ''b'' then (2, drop 2 s)
            else if length s \<ge> 3 \<and> lowerASCII (s ! 1) = CHR ''o'' then (8, drop 2 s)
            else if length s \<ge> 3 \<and> lowerASCII (s ! 1) = CHR ''x'' then (16, drop 2 s)
            else (8, tl s))
         in ebind (uintLoop base 0 digits) (\<lambda>n.
              if CHR ''_'' \<in> set s \<and> \<not> underscoreOK s then Inl errParse else Inr n)))"

definition parseInt0 :: "string \<Rightarrow> int result" where
  "parseInt0 s =
     (if s = [] then Inl errParse
      else
        (let neg = (hd s = CHR ''-'') in
         ebind (parseUint0 (dropSign s)) (\<lambda>n.
           if \<not> neg \<and> n \<ge> 2 ^ 63 then Inl errRange
           else if neg \<and> n > 2 ^ 63 then Inl errRange
           else Inr (if neg then - n else n))))"

section \<open>Durations\<close>

text \<open>The digits at the start of a text: their value, and the rest.\<close>

fun leadingInt :: "int \<Rightarrow> string \<Rightarrow> (int \<times> string) option" where
  "leadingInt x [] = Some (x, [])"
| "leadingInt x (c # s) =
     (case digitVal c of
        None \<Rightarrow> Some (x, c # s)
      | Some d \<Rightarrow> if x > 2 ^ 63 div 10 then None else if x * 10 + d > 2 ^ 63 then None else leadingInt (x * 10 + d) s)"

text \<open>The digits of a fraction: their value and number as far as they fit, and the rest.\<close>

fun leadingFraction :: "bool \<Rightarrow> int \<Rightarrow> nat \<Rightarrow> string \<Rightarrow> int \<times> nat \<times> string" where
  "leadingFraction overflow x n [] = (x, n, [])"
| "leadingFraction overflow x n (c # s) =
     (case digitVal c of
        None \<Rightarrow> (x, n, c # s)
      | Some d \<Rightarrow>
          if overflow \<or> x > (2 ^ 63 - 1) div 10 \<or> x * 10 + d > 2 ^ 63 then leadingFraction True x n s
          else leadingFraction False (x * 10 + d) (n + 1) s)"

definition unitChar :: "char \<Rightarrow> bool" where
  "unitChar c \<longleftrightarrow> c \<noteq> CHR ''.'' \<and> digitVal c = None"

definition durationUnit :: "string \<Rightarrow> int option" where
  "durationUnit u =
     map_of [(''ns'', 1), (''us'', 1000), ([CHR 0xC2, CHR 0xB5, CHR ''s''], 1000), ([CHR 0xCE, CHR 0xBC, CHR ''s''], 1000),
       (''ms'', 1000000), (''s'', 1000000000), (''m'', 60 * 1000000000), (''h'', 3600 * 1000000000)] u"

text \<open>One number with its unit: its nanoseconds and the rest. The fraction is computed with floating point numbers.\<close>

definition durationPart :: "(real \<Rightarrow> real) \<Rightarrow> string \<Rightarrow> (int \<times> string) option" where
  "durationPart rnd s =
     (if s = [] \<or> (hd s \<noteq> CHR ''.'' \<and> digitVal (hd s) = None) then None
      else
        (case leadingInt 0 s of
           None \<Rightarrow> None
         | Some (v, s1) \<Rightarrow>
             (let pre = (length s1 \<noteq> length s);
                  point = (s1 \<noteq> [] \<and> hd s1 = CHR ''.'');
                  (f, digits, s2) = (if point then leadingFraction False 0 0 (tl s1) else (0, 0, s1));
                  post = (point \<and> length s2 \<noteq> length (tl s1));
                  u = takeWhile unitChar s2;
                  s3 = dropWhile unitChar s2
              in if \<not> pre \<and> \<not> post then None
                 else if u = [] then None
                 else
                   (case durationUnit u of
                      None \<Rightarrow> None
                    | Some unit \<Rightarrow>
                        if v > 2 ^ 63 div unit then None
                        else
                          (let w = v * unit + (if f > 0 then \<lfloor>rnd (rnd (of_int f) * rnd (of_int unit / 10 ^ digits))\<rfloor> else 0)
                           in if w > 2 ^ 63 then None else Some (w, s3))))))"

lemma leadingInt_length: "leadingInt x s = Some (y, r) \<Longrightarrow> length r \<le> length s"
  by (induction x s rule: leadingInt.induct) (auto split: option.splits if_splits)

lemma leadingFraction_length: "length (snd (snd (leadingFraction overflow x n s))) \<le> length s"
  by (induction overflow x n s rule: leadingFraction.induct) (auto split: option.splits)

lemma dropWhile_shorter: "takeWhile P s \<noteq> [] \<Longrightarrow> length (dropWhile P s) < length s"
  by (cases s) (auto intro: le_imp_less_Suc length_dropWhile_le split: if_splits)

lemma durationPart_shorter:
  assumes "durationPart rnd s = Some (w, r)"
  shows "length r < length s"
proof -
  obtain v s1 where s1: "leadingInt 0 s = Some (v, s1)"
    using assms by (auto simp: durationPart_def split: if_splits option.splits)
  let ?s2 = "if s1 \<noteq> [] \<and> hd s1 = CHR ''.'' then snd (snd (leadingFraction False 0 0 (tl s1))) else s1"
  have "r = dropWhile unitChar ?s2 \<and> takeWhile unitChar ?s2 \<noteq> []"
    using assms s1 by (auto simp: durationPart_def Let_def split: if_splits option.splits prod.splits)
  then have "length r < length ?s2" using dropWhile_shorter by blast
  also have "length ?s2 \<le> length s1"
    using leadingFraction_length [of False 0 0 "tl s1"] by (cases s1) (auto intro: le_SucI)
  also have "length s1 \<le> length s" using leadingInt_length [OF s1] .
  finally show ?thesis .
qed

function durationLoop :: "(real \<Rightarrow> real) \<Rightarrow> int \<Rightarrow> string \<Rightarrow> int option" where
  "durationLoop rnd d s =
     (if s = [] then Some d
      else
        (case durationPart rnd s of
           None \<Rightarrow> None
         | Some (w, r) \<Rightarrow> if d + w > 2 ^ 63 then None else durationLoop rnd (d + w) r))"
  by pat_completeness auto
termination
  by (relation "measure (\<lambda>(_, _, s). length s)") (auto dest: durationPart_shorter)

declare durationLoop.simps [simp del]

text \<open>\<^verbatim>\<open>time.ParseDuration\<close>; no result is its error.\<close>

definition parseDuration :: "(real \<Rightarrow> real) \<Rightarrow> string \<Rightarrow> int option" where
  "parseDuration rnd s0 =
     (let neg = (s0 \<noteq> [] \<and> hd s0 = CHR ''-'');
          s = dropSign s0
      in if s = ''0'' then Some 0
         else if s = [] then None
         else
           (case durationLoop rnd 0 s of
              None \<Rightarrow> None
            | Some d \<Rightarrow> if neg then Some (- d) else if d > 2 ^ 63 - 1 then None else Some d))"

section \<open>Flag sets\<close>

text \<open>What a flag does with its value: the new settings, or the error.\<close>

type_synonym 'c flagSetter = "string \<Rightarrow> 'c \<Rightarrow> 'c result"

definition stringFlag :: "(string \<Rightarrow> 'c \<Rightarrow> 'c) \<Rightarrow> 'c flagSetter" where
  "stringFlag upd v cfg = Inr (upd v cfg)"

definition intFlag :: "(int \<Rightarrow> 'c \<Rightarrow> 'c) \<Rightarrow> 'c flagSetter" where
  "intFlag upd v cfg = ebind (parseInt0 v) (\<lambda>n. Inr (upd n cfg))"

definition durationFlag :: "(real \<Rightarrow> real) \<Rightarrow> (int \<Rightarrow> 'c \<Rightarrow> 'c) \<Rightarrow> 'c flagSetter" where
  "durationFlag rnd upd v cfg = (case parseDuration rnd v of None \<Rightarrow> Inl errParse | Some d \<Rightarrow> Inr (upd d cfg))"

definition flagErrHelp :: goerr where
  "flagErrHelp = ErrNew ''flag: help requested''"

definition setFlag :: "'c flagSetter \<Rightarrow> string \<Rightarrow> string \<Rightarrow> 'c \<Rightarrow> 'c result" where
  "setFlag upd name v cfg = emap (Wrapf ''invalid value %q for flag -%s: %v'' [AStr v, AStr name]) (upd v cfg)"

text \<open>The name of a flag and its value, split at an equals sign after the first character.\<close>

definition splitFlag :: "string \<Rightarrow> string \<times> string option" where
  "splitFlag s =
     (case indexByte CHR ''='' (tl s) of
        None \<Rightarrow> (s, None)
      | Some i \<Rightarrow> (take (i + 1) s, Some (drop (i + 2) s)))"

text \<open>\<^verbatim>\<open>FlagSet.Parse\<close>, for a set without flags that need no value; the arguments after the flags are ignored.\<close>

fun parseFlags :: "(string \<times> 'c flagSetter) list \<Rightarrow> 'c \<Rightarrow> string list \<Rightarrow> 'c result" where
  "parseFlags flags cfg [] = Inr cfg"
| "parseFlags flags cfg (s # rest) =
     (if length s < 2 \<or> hd s \<noteq> CHR ''-'' \<or> s = ''--'' then Inr cfg
      else
        (let name0 = (if s ! 1 = CHR ''-'' then drop 2 s else drop 1 s) in
         if name0 = [] \<or> hd name0 = CHR ''-'' \<or> hd name0 = CHR ''='' then Inl (Errorf ''bad flag syntax: %s'' [AStr s])
         else
           (let (name, val) = splitFlag name0 in
            case map_of flags name of
              None \<Rightarrow>
                if name = ''help'' \<or> name = ''h'' then Inl flagErrHelp
                else Inl (Errorf ''flag provided but not defined: -%s'' [AStr name])
            | Some upd \<Rightarrow>
                (case val of
                   Some v \<Rightarrow> (case setFlag upd name v cfg of Inl e \<Rightarrow> Inl e | Inr cfg' \<Rightarrow> parseFlags flags cfg' rest)
                 | None \<Rightarrow>
                     (case rest of
                        [] \<Rightarrow> Inl (Errorf ''flag needs an argument: -%s'' [AStr name])
                      | v # rest' \<Rightarrow> (case setFlag upd name v cfg of Inl e \<Rightarrow> Inl e | Inr cfg' \<Rightarrow> parseFlags flags cfg' rest'))))))"

section \<open>Paths\<close>

text \<open>\<^verbatim>\<open>filepath.Clean\<close>, \<^verbatim>\<open>Join\<close>, \<^verbatim>\<open>Base\<close> and \<^verbatim>\<open>Dir\<close> with the separator of Unix.\<close>

fun cleanParts :: "bool \<Rightarrow> string list \<Rightarrow> string list \<Rightarrow> string list" where
  "cleanParts rooted stack [] = rev stack"
| "cleanParts rooted stack (p # ps) =
     (if p = '''' \<or> p = ''.'' then cleanParts rooted stack ps
      else if p = ''..'' then
        (case stack of
           [] \<Rightarrow> cleanParts rooted (if rooted then [] else [''..'']) ps
         | t # ts \<Rightarrow> if t = ''..'' then cleanParts rooted (''..'' # stack) ps else cleanParts rooted ts ps)
      else cleanParts rooted (p # stack) ps)"

fun joinParts :: "string list \<Rightarrow> string" where
  "joinParts [] = ''''"
| "joinParts [p] = p"
| "joinParts (p # ps) = p @ ''/'' @ joinParts ps"

definition pathClean :: "string \<Rightarrow> string" where
  "pathClean path =
     (let rooted = hasPrefix path ''/'';
          body = joinParts (cleanParts rooted [] (splitByte CHR ''/'' path))
      in if rooted then ''/'' @ body else if body = '''' then ''.'' else body)"

definition pathJoin :: "string list \<Rightarrow> string" where
  "pathJoin parts =
     (case filter (\<lambda>p. p \<noteq> '''') parts of [] \<Rightarrow> '''' | ps \<Rightarrow> pathClean (joinParts ps))"

definition trimRightChar :: "char \<Rightarrow> string \<Rightarrow> string" where
  "trimRightChar c s = rev (dropWhile (\<lambda>x. x = c) (rev s))"

definition pathBase :: "string \<Rightarrow> string" where
  "pathBase path =
     (if path = '''' then ''.''
      else
        (let p = trimRightChar CHR ''/'' path;
             b = (case lastIndexByte CHR ''/'' p of Some i \<Rightarrow> drop (i + 1) p | None \<Rightarrow> p)
         in if b = '''' then ''/'' else b))"

definition pathDir :: "string \<Rightarrow> string" where
  "pathDir path = pathClean (case lastIndexByte CHR ''/'' path of Some i \<Rightarrow> take (i + 1) path | None \<Rightarrow> '''')"

end
