(* ===== verification/Release_Archive.thy ===== *)
theory Release_Archive
  imports Go_Flag Go_Conn "HOL-Library.Multiset"
begin

text \<open>
  The archives of \<^verbatim>\<open>cmd/release-integration/main.go\<close>: the choice of the one file a pattern matches, the version
  in its name, the copy of the released binary out of a zip or a compressed tar archive into a temporary directory,
  and the image that is loaded into the container tool. The file system and the decoders of the archives are the
  functions the package keeps in its variables; they are the fields of \<open>archiveSystem\<close>.
\<close>

section \<open>Definitions\<close>

subsection \<open>Names\<close>

definition resolveSingleFile :: "(string \<Rightarrow> string list result) \<Rightarrow> string \<Rightarrow> string result" where
  "resolveSingleFile Glob pattern =
     (case Glob pattern of
        Inl e \<Rightarrow> Inl (Wrapf ''invalid glob %q: %w'' [AStr pattern] e)
      | Inr [] \<Rightarrow> Inl (Errorf ''no files matched %q'' [AStr pattern])
      | Inr [m] \<Rightarrow> Inr m
      | Inr ms \<Rightarrow> Inl (Errorf ''glob %q matched multiple files: %v'' (AStr pattern # map AStr ms)))"

text \<open>\<^verbatim>\<open>strings.Cut\<close>.\<close>

fun cutText :: "string \<Rightarrow> string \<Rightarrow> (string \<times> string) option" where
  "cutText sep [] = (if sep = [] then Some ([], []) else None)"
| "cutText sep (c # s) =
     (if hasPrefix (c # s) sep then Some ([], drop (length sep) (c # s))
      else map_option (\<lambda>(before, after). (c # before, after)) (cutText sep s))"

fun cutFirst :: "string \<Rightarrow> string list \<Rightarrow> string option" where
  "cutFirst s [] = None"
| "cutFirst s (marker # rest) = (case cutText marker s of Some (before, _) \<Rightarrow> Some before | None \<Rightarrow> cutFirst s rest)"

definition versionFromArchiveName :: "string \<Rightarrow> string result" where
  "versionFromArchiveName archivePath =
     (let base = pathBase archivePath in
      if \<not> hasPrefix base ''minecraft-ping_'' then
        Inl (Errorf ''derive version from archive %q: unexpected name'' [AStr archivePath])
      else
        (case cutFirst base [''_Darwin_'', ''_Linux_'', ''_Windows_''] of
           Some before \<Rightarrow> Inr (trimPrefix before ''minecraft-ping_'')
         | None \<Rightarrow> Inl (Errorf ''derive version from archive %q: unsupported name'' [AStr archivePath])))"

subsection \<open>Copying\<close>

definition maxExtractedBinarySize :: int where
  "maxExtractedBinarySize = 64 * 2 ^ 20"

text \<open>
  A file that is written: it takes all bytes, or so many of them and then fails. \<open>ioCopy\<close> is \<^verbatim>\<open>io.Copy\<close> from a
  reader behind an \<^verbatim>\<open>io.LimitReader\<close>: the bytes that reach the target, and the error.
\<close>

type_synonym sink = "(nat \<times> goerr) option"

definition ioCopy :: "sink \<Rightarrow> reader \<Rightarrow> int \<Rightarrow> byte list \<times> unit result" where
  "ioCopy dst src limit =
     (let readable = take (nat limit) (fst src);
          ended = (if length (fst src) < nat limit \<and> snd src \<noteq> EOF then Inl (snd src) else Inr ())
      in case dst of
           None \<Rightarrow> (readable, ended)
         | Some (room, e) \<Rightarrow> if room < length readable then (take room readable, Inl e) else (readable, ended))"

text \<open>\<^verbatim>\<open>limit+1\<close> is an \<^verbatim>\<open>int64\<close>; the one limit the package uses is far from its end.\<close>

definition copyWithLimit :: "sink \<Rightarrow> reader \<Rightarrow> int \<Rightarrow> byte list \<times> unit result" where
  "copyWithLimit dst src limit =
     (let next = sint (word_of_int (limit + 1) :: 64 word) in
      case ioCopy dst src next of
        (written, Inl e) \<Rightarrow> (written, Inl e)
      | (written, Inr _) \<Rightarrow>
          if int (length written) > limit then
            (written, Inl (Errorf ''copied %d bytes, exceeds limit %d'' [AInt (int (length written)), AInt limit]))
          else (written, Inr ()))"

text \<open>\<^verbatim>\<open>io.CopyN\<close>.\<close>

definition copyN :: "sink \<Rightarrow> reader \<Rightarrow> int \<Rightarrow> byte list \<times> unit result" where
  "copyN dst src n =
     (case ioCopy dst src n of
        (written, r) \<Rightarrow>
          if int (length written) = n then (written, Inr ())
          else if int (length written) < n \<and> r = Inr () then (written, Inl EOF)
          else (written, r))"

subsection \<open>Extraction\<close>

record zipFile =
  zf_Name :: string
  UncompressedSize64 :: u64
  zf_Open :: "reader result"

record tarHeader =
  th_Name :: string
  th_Size :: int
  th_body :: reader

text \<open>
  The file system. \<open>ar_gzip\<close> is the stream a compressed file holds, \<open>ar_tar\<close> the headers of a tar stream with
  the error that ends them, \<^const>\<open>EOF\<close> at its regular end.
\<close>

record archiveSystem =
  ar_MkdirTemp :: "string result"
  ar_zipOpenReader :: "string \<Rightarrow> zipFile list result"
  ar_openRoot :: "string \<Rightarrow> unit result"
  ar_rootOpen :: "string \<Rightarrow> string \<Rightarrow> byte list result"
  ar_rootClose :: "string \<Rightarrow> unit result"
  ar_gzip :: "byte list \<Rightarrow> byte list result"
  ar_tar :: "byte list \<Rightarrow> tarHeader list \<times> goerr"
  ar_rootOpenFile :: "string \<Rightarrow> string \<Rightarrow> sink result"
  ar_fileClose :: "string \<Rightarrow> unit result"
  ar_rootChmod :: "string \<Rightarrow> string \<Rightarrow> unit result"

text \<open>What is acquired and given back, in order.\<close>

datatype resource = Archive string | GzipStream | Root string | SourceEntry | TargetFile string | TempDir string

datatype use = Acquire resource | Release resource

text \<open>The file in the temporary directory: its bytes and its mode.\<close>

type_synonym extractedFile = "(byte list \<times> nat) option"

type_synonym extraction = "use list \<times> extractedFile \<times> string result"

text \<open>Code between an acquisition and its deferred release.\<close>

definition holding :: "resource \<Rightarrow> extraction \<Rightarrow> extraction" where
  "holding res x = (case x of (uses, file, r) \<Rightarrow> (Acquire res # uses @ [Release res], file, r))"

definition refused :: "goerr \<Rightarrow> extraction" where
  "refused e = ([], None, Inl e)"

text \<open>
  The end both formats share: the target is created with mode 0600, filled, closed and made executable. A failed
  \<^verbatim>\<open>Close\<close> leaves nothing open.
\<close>

definition writeTarget :: "archiveSystem \<Rightarrow> string \<Rightarrow> string \<Rightarrow> string \<Rightarrow> (sink \<Rightarrow> byte list \<times> unit result) \<Rightarrow> extraction" where
  "writeTarget sys tempDir binaryName failure copy =
     (let targetPath = pathJoin [tempDir, binaryName] in
      case ar_rootOpenFile sys tempDir binaryName of
        Inl e \<Rightarrow> refused (Wrapf ''create extracted binary: %w'' [] e)
      | Inr target \<Rightarrow>
          (let uses = [Acquire (TargetFile binaryName), Release (TargetFile binaryName)] in
           case copy target of
             (written, Inl e) \<Rightarrow> (uses, Some (written, 384), Inl (Wrapf failure [] e))
           | (written, Inr _) \<Rightarrow>
               (case ar_fileClose sys targetPath of
                  Inl e \<Rightarrow> (uses, Some (written, 384), Inl (Wrapf ''close extracted binary: %w'' [] e))
                | Inr _ \<Rightarrow>
                    (case ar_rootChmod sys tempDir binaryName of
                       Inl e \<Rightarrow> (uses, Some (written, 384), Inl (Wrapf ''chmod extracted binary: %w'' [] e))
                     | Inr _ \<Rightarrow> (uses, Some (written, 448), Inr targetPath)))))"

definition notFound :: "string \<Rightarrow> string \<Rightarrow> goerr" where
  "notFound binaryName archivePath = Errorf ''binary %q not found in %s'' [AStr binaryName, AStr archivePath]"

definition invalidSize :: "string \<Rightarrow> string \<Rightarrow> int \<Rightarrow> goerr" where
  "invalidSize binaryName archivePath n =
     Errorf ''binary %q in %s has invalid size %d'' [AStr binaryName, AStr archivePath, AInt n]"

fun extractZipLoop :: "archiveSystem \<Rightarrow> string \<Rightarrow> string \<Rightarrow> string \<Rightarrow> zipFile list \<Rightarrow> extraction" where
  "extractZipLoop sys archivePath tempDir binaryName [] = refused (notFound binaryName archivePath)"
| "extractZipLoop sys archivePath tempDir binaryName (file # files) =
     (if zf_Name file \<noteq> binaryName then extractZipLoop sys archivePath tempDir binaryName files
      else if UncompressedSize64 file = 0 \<or> UncompressedSize64 file > word_of_int maxExtractedBinarySize then
        refused (invalidSize binaryName archivePath (uint (UncompressedSize64 file)))
      else
        (case zf_Open file of
           Inl e \<Rightarrow> refused (Wrapf ''open zipped file: %w'' [] e)
         | Inr source \<Rightarrow>
             holding SourceEntry (writeTarget sys tempDir binaryName ''extract zipped binary: %w''
               (\<lambda>target. copyWithLimit target source maxExtractedBinarySize))))"

definition extractZipBinary :: "archiveSystem \<Rightarrow> string \<Rightarrow> string \<Rightarrow> string \<Rightarrow> extraction" where
  "extractZipBinary sys archivePath tempDir binaryName =
     (case ar_zipOpenReader sys archivePath of
        Inl e \<Rightarrow> refused (Wrapf ''open zip archive: %w'' [] e)
      | Inr files \<Rightarrow>
          holding (Archive archivePath)
            (case ar_openRoot sys tempDir of
               Inl e \<Rightarrow> refused (Wrapf ''open temp dir root: %w'' [] e)
             | Inr _ \<Rightarrow> holding (Root tempDir) (extractZipLoop sys archivePath tempDir binaryName files)))"

text \<open>The file is opened below its directory, which is closed again; on every failure nothing stays open.\<close>

definition openReadOnlyFile :: "archiveSystem \<Rightarrow> string \<Rightarrow> use list \<times> byte list result" where
  "openReadOnlyFile sys path =
     (let dir = pathDir path; base = pathBase path in
      case ar_openRoot sys dir of
        Inl e \<Rightarrow> ([], Inl e)
      | Inr _ \<Rightarrow>
          (case ar_rootOpen sys dir base of
             Inl e \<Rightarrow> ([Acquire (Root dir), Release (Root dir)], Inl e)
           | Inr content \<Rightarrow>
               (case ar_rootClose sys dir of
                  Inl e \<Rightarrow> ([Acquire (Root dir), Acquire (Archive path), Release (Root dir), Release (Archive path)], Inl e)
                | Inr _ \<Rightarrow> ([Acquire (Root dir), Acquire (Archive path), Release (Root dir)], Inr content))))"

fun extractTarLoop :: "archiveSystem \<Rightarrow> string \<Rightarrow> string \<Rightarrow> string \<Rightarrow> goerr \<Rightarrow> tarHeader list \<Rightarrow> extraction" where
  "extractTarLoop sys archivePath tempDir binaryName end [] =
     (if errorsIs end EOF then refused (notFound binaryName archivePath) else refused (Wrapf ''read tar header: %w'' [] end))"
| "extractTarLoop sys archivePath tempDir binaryName end (header # headers) =
     (if th_Name header \<noteq> binaryName then extractTarLoop sys archivePath tempDir binaryName end headers
      else if th_Size header \<le> 0 \<or> th_Size header > maxExtractedBinarySize then
        refused (invalidSize binaryName archivePath (th_Size header))
      else
        writeTarget sys tempDir binaryName ''extract tarred binary: %w''
          (\<lambda>target. copyN target (th_body header) (th_Size header)))"

definition extractTarGzBinary :: "archiveSystem \<Rightarrow> string \<Rightarrow> string \<Rightarrow> string \<Rightarrow> extraction" where
  "extractTarGzBinary sys archivePath tempDir binaryName =
     (case openReadOnlyFile sys archivePath of
        (uses, Inl e) \<Rightarrow> (uses, None, Inl (Wrapf ''open tar.gz archive: %w'' [] e))
      | (uses, Inr archive) \<Rightarrow>
          (case (case ar_gzip sys archive of
                   Inl e \<Rightarrow> refused (Wrapf ''open gzip stream: %w'' [] e)
                 | Inr stream \<Rightarrow>
                     holding GzipStream
                       (case ar_openRoot sys tempDir of
                          Inl e \<Rightarrow> refused (Wrapf ''open temp dir root: %w'' [] e)
                        | Inr _ \<Rightarrow>
                            holding (Root tempDir)
                              (case ar_tar sys stream of
                                 (headers, end) \<Rightarrow> extractTarLoop sys archivePath tempDir binaryName end headers))) of
             (uses', file, r) \<Rightarrow> (uses @ uses' @ [Release (Archive archivePath)], file, r)))"

text \<open>
  The path of the extracted binary with the directory that the returned cleanup removes; after a failure the
  directory is gone.
\<close>

definition extractBinary :: "archiveSystem \<Rightarrow> string \<Rightarrow> string \<Rightarrow> use list \<times> extractedFile \<times> (string \<times> string) result" where
  "extractBinary sys archivePath binaryName =
     (case ar_MkdirTemp sys of
        Inl e \<Rightarrow> ([], None, Inl (Wrapf ''create temp dir: %w'' [] e))
      | Inr tempDir \<Rightarrow>
          (case (if hasSuffix archivePath ''.zip'' then extractZipBinary sys archivePath tempDir binaryName
                 else if hasSuffix archivePath ''.tar.gz'' then extractTarGzBinary sys archivePath tempDir binaryName
                 else refused (Errorf ''unsupported archive format: %s'' [AStr archivePath])) of
             (uses, file, Inl e) \<Rightarrow> (Acquire (TempDir tempDir) # uses @ [Release (TempDir tempDir)], None, Inl e)
           | (uses, file, Inr extracted) \<Rightarrow> (Acquire (TempDir tempDir) # uses, file, Inr (extracted, tempDir))))"

section \<open>Lemmas\<close>

subsection \<open>Copies\<close>

lemma copyWithLimit_ok:
  assumes "copyWithLimit dst src maxExtractedBinarySize = (written, Inr ())"
  shows "src = (written, EOF) \<and> int (length written) \<le> maxExtractedBinarySize"
proof -
  let ?n = "maxExtractedBinarySize + 1"
  have n: "sint (word_of_int ?n :: 64 word) = ?n" by (simp add: maxExtractedBinarySize_def signed_take_bit_int_eq_self)
  have copied: "ioCopy dst src ?n = (written, Inr ())" and bound: "int (length written) \<le> maxExtractedBinarySize"
    using assms unfolding copyWithLimit_def n Let_def by (auto split: prod.splits sum.splits if_splits)
  have "written = take (nat ?n) (fst src)" "\<not> (length (fst src) < nat ?n \<and> snd src \<noteq> EOF)"
    using copied by (auto simp: ioCopy_def Let_def split: option.splits if_splits)
  moreover have "length (fst src) < nat ?n" using bound calculation(1) by (auto simp: min_def split: if_splits)
  ultimately show ?thesis using bound by (cases src) auto
qed

lemma copyN_ok:
  assumes "copyN dst src n = (written, Inr ())" and "0 < n"
  shows "written = take (nat n) (fst src) \<and> int (length written) = n"
proof -
  obtain r where copied: "ioCopy dst src n = (written, r)" and all: "int (length written) = n"
    using assms by (auto simp: copyN_def ioCopy_def Let_def split: prod.splits option.splits if_splits)
  have "length (take room (take (nat n) (fst src))) < nat n" if "room < length (take (nat n) (fst src))" for room
    using that by simp
  with copied all show ?thesis by (auto simp: ioCopy_def Let_def split: option.splits if_splits)
qed

subsection \<open>What is acquired\<close>

definition acquired :: "use list \<Rightarrow> resource multiset" where
  "acquired uses = mset (concat (map (\<lambda>u. case u of Acquire r \<Rightarrow> [r] | Release _ \<Rightarrow> []) uses))"

definition released :: "use list \<Rightarrow> resource multiset" where
  "released uses = mset (concat (map (\<lambda>u. case u of Acquire _ \<Rightarrow> [] | Release r \<Rightarrow> [r]) uses))"

definition balanced :: "extraction \<Rightarrow> bool" where
  "balanced x \<longleftrightarrow> acquired (fst x) = released (fst x)"

lemma uses_simps [simp]:
  "acquired [] = {#}" "acquired (Acquire r # u) = add_mset r (acquired u)" "acquired (Release r # u) = acquired u"
  "acquired (u @ v) = acquired u + acquired v"
  "released [] = {#}" "released (Acquire r # u) = released u" "released (Release r # u) = add_mset r (released u)"
  "released (u @ v) = released u + released v"
  by (simp_all add: acquired_def released_def)

lemma balanced_refused [simp, intro]: "balanced (refused e)"
  by (simp add: balanced_def refused_def)

lemma balanced_holding [simp]: "balanced (holding r x) \<longleftrightarrow> balanced x"
  by (auto simp: balanced_def holding_def split: prod.split)

lemma balanced_writeTarget [simp, intro]: "balanced (writeTarget sys dir name failure copy)"
  by (auto simp: balanced_def writeTarget_def refused_def Let_def split: sum.split prod.split)

lemma balanced_zipLoop [simp, intro]: "balanced (extractZipLoop sys path dir name files)"
  by (induction files) (auto split: sum.split)

lemma balanced_tarLoop [simp, intro]: "balanced (extractTarLoop sys path dir name end headers)"
  by (induction headers) auto

lemma balanced_zip [simp, intro]: "balanced (extractZipBinary sys path dir name)"
  by (auto simp: extractZipBinary_def split: sum.split)

lemma openReadOnlyFile_uses:
  "openReadOnlyFile sys path = (uses, r) \<Longrightarrow>
     acquired uses = released uses + (case r of Inl _ \<Rightarrow> {#} | Inr _ \<Rightarrow> {#Archive path#})"
  by (auto simp: openReadOnlyFile_def Let_def split: sum.splits)

lemma balanced_tar [simp, intro]: "balanced (extractTarGzBinary sys path dir name)"
proof (cases "openReadOnlyFile sys path")
  case (Pair uses r)
  note opened = openReadOnlyFile_uses [OF Pair]
  show ?thesis
  proof (cases r)
    case (Inl e)
    with Pair opened show ?thesis by (simp add: extractTarGzBinary_def balanced_def)
  next
    case (Inr content)
    let ?inner = "case ar_gzip sys content of
        Inl e \<Rightarrow> refused (Wrapf ''open gzip stream: %w'' [] e)
      | Inr stream \<Rightarrow> holding GzipStream
          (case ar_openRoot sys dir of
             Inl e \<Rightarrow> refused (Wrapf ''open temp dir root: %w'' [] e)
           | Inr _ \<Rightarrow> holding (Root dir) (case ar_tar sys stream of (headers, end) \<Rightarrow> extractTarLoop sys path dir name end headers))"
    have "balanced ?inner" by (auto split: sum.split prod.split)
    with Pair Inr opened show ?thesis
      by (cases ?inner) (simp add: extractTarGzBinary_def balanced_def)
  qed
qed

subsection \<open>What is extracted\<close>

lemma holding_result [simp]: "snd (holding r x) = snd x"
  by (simp add: holding_def split: prod.split)

lemma refused_result [simp]: "snd (refused e) = (None, Inl e)"
  by (simp add: refused_def)

lemma writeTarget_ok:
  assumes "snd (writeTarget sys dir name failure copy) = (file, Inr path)"
  obtains target written where "copy target = (written, Inr ())" "file = Some (written, 448)" "path = pathJoin [dir, name]"
  using assms by (auto simp: writeTarget_def refused_def Let_def split: sum.splits prod.splits)

lemma zipLoop_ok:
  assumes "snd (extractZipLoop sys archivePath dir name files) = (file, Inr path)"
  shows "\<exists>bytes f. file = Some (bytes, 448) \<and> path = pathJoin [dir, name] \<and>
    int (length bytes) \<le> maxExtractedBinarySize \<and>
    find (\<lambda>f. zf_Name f = name) files = Some f \<and> zf_Open f = Inr (bytes, EOF) \<and> UncompressedSize64 f \<noteq> 0"
  using assms
proof (induction files)
  case (Cons f files)
  show ?case
  proof (cases "zf_Name f = name")
    case True
    with Cons.prems obtain source where source: "zf_Open f = Inr source" "UncompressedSize64 f \<noteq> 0"
      and wrote: "snd (writeTarget sys dir name ''extract zipped binary: %w''
        (\<lambda>target. copyWithLimit target source maxExtractedBinarySize)) = (file, Inr path)"
      by (auto split: if_splits sum.splits)
    with True show ?thesis by (auto elim!: writeTarget_ok dest!: copyWithLimit_ok)
  qed (use Cons in simp)
qed simp

lemma tarLoop_ok:
  assumes "snd (extractTarLoop sys archivePath dir name end headers) = (file, Inr path)"
  shows "\<exists>bytes h. file = Some (bytes, 448) \<and> path = pathJoin [dir, name] \<and>
    int (length bytes) \<le> maxExtractedBinarySize \<and>
    find (\<lambda>h. th_Name h = name) headers = Some h \<and> 0 < th_Size h \<and> int (length bytes) = th_Size h \<and>
    bytes = take (nat (th_Size h)) (fst (th_body h))"
  using assms
proof (induction headers)
  case (Cons h headers)
  show ?case
  proof (cases "th_Name h = name")
    case True
    with Cons.prems have n: "0 < th_Size h" "th_Size h \<le> maxExtractedBinarySize"
      and wrote: "snd (writeTarget sys dir name ''extract tarred binary: %w''
        (\<lambda>target. copyN target (th_body h) (th_Size h))) = (file, Inr path)"
      by (auto split: if_splits)
    from wrote obtain target written where "copyN target (th_body h) (th_Size h) = (written, Inr ())"
      "file = Some (written, 448)" "path = pathJoin [dir, name]"
      by (rule writeTarget_ok)
    with True n copyN_ok show ?thesis by auto
  qed (use Cons in simp)
qed (simp split: if_splits)

lemma zip_ok:
  assumes "snd (extractZipBinary sys archivePath dir name) = (file, Inr path)"
  shows "\<exists>bytes files f. file = Some (bytes, 448) \<and> path = pathJoin [dir, name] \<and>
    int (length bytes) \<le> maxExtractedBinarySize \<and> ar_zipOpenReader sys archivePath = Inr files \<and>
    find (\<lambda>f. zf_Name f = name) files = Some f \<and> zf_Open f = Inr (bytes, EOF) \<and> UncompressedSize64 f \<noteq> 0"
proof -
  obtain files where files: "ar_zipOpenReader sys archivePath = Inr files"
    and "snd (extractZipLoop sys archivePath dir name files) = (file, Inr path)"
    using assms by (auto simp: extractZipBinary_def split: sum.splits)
  from zipLoop_ok [OF this(2)] files show ?thesis by auto
qed

lemma tar_ok:
  assumes "snd (extractTarGzBinary sys archivePath dir name) = (file, Inr path)"
  shows "\<exists>bytes content stream h. file = Some (bytes, 448) \<and> path = pathJoin [dir, name] \<and>
    int (length bytes) \<le> maxExtractedBinarySize \<and>
    ar_rootOpen sys (pathDir archivePath) (pathBase archivePath) = Inr content \<and> ar_gzip sys content = Inr stream \<and>
    find (\<lambda>h. th_Name h = name) (fst (ar_tar sys stream)) = Some h \<and> 0 < th_Size h \<and>
    int (length bytes) = th_Size h \<and> bytes = take (nat (th_Size h)) (fst (th_body h))"
proof -
  obtain uses content stream where opened: "openReadOnlyFile sys archivePath = (uses, Inr content)"
    and gzip: "ar_gzip sys content = Inr stream"
    and loop: "snd (extractTarLoop sys archivePath dir name (snd (ar_tar sys stream)) (fst (ar_tar sys stream))) = (file, Inr path)"
    using assms by (auto simp: extractTarGzBinary_def refused_def holding_def split: sum.splits prod.splits)
  from opened have "ar_rootOpen sys (pathDir archivePath) (pathBase archivePath) = Inr content"
    by (auto simp: openReadOnlyFile_def Let_def split: sum.splits)
  with tarLoop_ok [OF loop] gzip show ?thesis by auto
qed

section \<open>Properties\<close>

text \<open>
  C35: an extraction that succeeds has written the binary and nothing else. The file has the bytes of the first
  entry of the archive with the name, whole, at most 64 MiB of them, and is executable for its owner only; its path
  is the temporary directory joined with the name. (That a name with \<^verbatim>\<open>..\<close> does not leave the directory is a
  promise of \<^verbatim>\<open>os.Root\<close>, whose \<^verbatim>\<open>OpenFile\<close> is an argument here.)
\<close>

theorem extracted_binary:
  assumes "extractBinary sys archivePath name = (uses, file, Inr (path, dir))"
  shows "\<exists>bytes. file = Some (bytes, 448) \<and> path = pathJoin [dir, name] \<and> int (length bytes) \<le> 2 ^ 26 \<and>
    (if hasSuffix archivePath ''.zip'' then
       \<exists>files f. ar_zipOpenReader sys archivePath = Inr files \<and> find (\<lambda>f. zf_Name f = name) files = Some f \<and>
         UncompressedSize64 f \<noteq> 0 \<and> zf_Open f = Inr (bytes, EOF)
     else hasSuffix archivePath ''.tar.gz'' \<and>
       (\<exists>content stream h. ar_rootOpen sys (pathDir archivePath) (pathBase archivePath) = Inr content \<and>
         ar_gzip sys content = Inr stream \<and> find (\<lambda>h. th_Name h = name) (fst (ar_tar sys stream)) = Some h \<and>
         bytes = take (nat (th_Size h)) (fst (th_body h)) \<and> 0 < int (length bytes) \<and> int (length bytes) = th_Size h))"
proof (cases "hasSuffix archivePath ''.zip''")
  case True
  with assms have "snd (extractZipBinary sys archivePath dir name) = (file, Inr path)"
    by (auto simp: extractBinary_def split: sum.splits prod.splits)
  from zip_ok [OF this] True show ?thesis by (auto simp: maxExtractedBinarySize_def)
next
  case False
  with assms have "hasSuffix archivePath ''.tar.gz''" and tar: "snd (extractTarGzBinary sys archivePath dir name) = (file, Inr path)"
    by (auto simp: extractBinary_def refused_def split: sum.splits prod.splits if_splits)
  with False tar_ok [OF tar] show ?thesis by (auto simp: maxExtractedBinarySize_def)
qed

text \<open>
  An extraction gives back all it acquired, on every path. After a success the temporary directory is all that
  is left, and after a failure not even that.
\<close>

theorem extraction_releases:
  assumes "extractBinary sys archivePath name = (uses, file, r)"
  shows "acquired uses = released uses + (case r of Inl _ \<Rightarrow> {#} | Inr (path, dir) \<Rightarrow> {#TempDir dir#}) \<and>
    (file = None \<longleftrightarrow> (\<exists>e. r = Inl e))"
proof (cases "ar_MkdirTemp sys")
  case (Inl e)
  with assms show ?thesis by (auto simp: extractBinary_def)
next
  case (Inr dir)
  let ?x = "if hasSuffix archivePath ''.zip'' then extractZipBinary sys archivePath dir name
    else if hasSuffix archivePath ''.tar.gz'' then extractTarGzBinary sys archivePath dir name
    else refused (Errorf ''unsupported archive format: %s'' [AStr archivePath])"
  have "balanced ?x" by simp
  moreover have "fst (snd ?x) \<noteq> None" if "snd (snd ?x) = Inr p" for p
    using that zip_ok [of sys archivePath dir name "fst (snd ?x)" p] tar_ok [of sys archivePath dir name "fst (snd ?x)" p]
    by (auto simp: prod_eq_iff split: if_splits)
  ultimately show ?thesis
    using assms Inr by (auto simp: extractBinary_def balanced_def split: prod.splits sum.splits)
qed

section \<open>Witnesses\<close>

text \<open>An archive with a licence and a binary of three bytes, and a directory that accepts every file.\<close>

definition exampleArchive :: archiveSystem where
  "exampleArchive =
     \<lparr>ar_MkdirTemp = Inr ''/tmp/x'', ar_zipOpenReader = (\<lambda>_. Inl (ErrOS 2)), ar_openRoot = (\<lambda>_. Inr ()),
      ar_rootOpen = (\<lambda>_ _. Inr [31, 139]), ar_rootClose = (\<lambda>_. Inr ()), ar_gzip = (\<lambda>bs. Inr (tl bs)),
      ar_tar = (\<lambda>_. ([\<lparr>th_Name = ''LICENSE'', th_Size = 1, th_body = ([65], EOF)\<rparr>,
                     \<lparr>th_Name = ''ping'', th_Size = 3, th_body = ([1, 2, 3], EOF)\<rparr>], EOF)),
      ar_rootOpenFile = (\<lambda>_ _. Inr None), ar_fileClose = (\<lambda>_. Inr ()), ar_rootChmod = (\<lambda>_ _. Inr ())\<rparr>"

lemma example_extract:
  "extractBinary exampleArchive ''dist/ping.tar.gz'' ''ping'' =
     ([Acquire (TempDir ''/tmp/x''), Acquire (Root ''dist''), Acquire (Archive ''dist/ping.tar.gz''), Release (Root ''dist''),
       Acquire GzipStream, Acquire (Root ''/tmp/x''), Acquire (TargetFile ''ping''), Release (TargetFile ''ping''),
       Release (Root ''/tmp/x''), Release GzipStream, Release (Archive ''dist/ping.tar.gz'')],
      Some ([1, 2, 3], 448), Inr (''/tmp/x/ping'', ''/tmp/x''))"
  by code_simp

theorem extracted_binary_witness:
  "\<exists>bytes. fst (snd (extractBinary exampleArchive ''dist/ping.tar.gz'' ''ping'')) = Some (bytes, 448) \<and> int (length bytes) \<le> 2 ^ 26"
  using extracted_binary [OF example_extract] by (auto simp: example_extract)

theorem extraction_releases_witness:
  "acquired (fst (extractBinary exampleArchive ''dist/ping.tar.gz'' ''ping'')) =
     released (fst (extractBinary exampleArchive ''dist/ping.tar.gz'' ''ping'')) + {#TempDir ''/tmp/x''#}"
  using extraction_releases [OF example_extract] unfolding example_extract by simp

end
