(* ===== verification/Release_Relay.thy ===== *)
theory Release_Relay
  imports Go_Text Go_Conn Steps
begin

text \<open>
  The relays of \<^verbatim>\<open>cmd/release-integration\<close>, which give a container that listens on IPv4 an address of IPv6: a
  relay for streams (\<^verbatim>\<open>ipv6Relay\<close>, with the two copying goroutines of \<^verbatim>\<open>proxyConns\<close> as a step relation) and one for
  datagrams (\<^verbatim>\<open>udpIPv6Relay\<close>). The socket option that keeps their listeners off IPv4 is set before they are bound.
\<close>

section \<open>Definitions\<close>

subsection \<open>Listening\<close>

text \<open>
  What the relays need of the system: the socket that is created, with the error of \<^verbatim>\<open>RawConn.Control\<close>, its
  options (descriptor, level, option, value), the binding and the resolver. What happens to the socket, in order.
\<close>

record relaySystem =
  rs_rawControl :: "nat result"
  rs_setsockopt :: "nat \<Rightarrow> nat \<Rightarrow> nat \<Rightarrow> int \<Rightarrow> unit result"
  rs_bind :: "string \<Rightarrow> string \<Rightarrow> unit result"
  rs_resolveUDPAddr :: "string \<Rightarrow> string \<Rightarrow> string result"

datatype socketEvent = OptionSet nat nat nat int | Bound string string | SocketClosed

definition ipprotoIPv6 :: nat where
  "ipprotoIPv6 = 41"

definition ipv6V6Only :: nat where
  "ipv6V6Only = 26"

text \<open>The files \<^verbatim>\<open>ipv6_v6only_unix.go\<close> and \<^verbatim>\<open>ipv6_v6only_windows.go\<close>.\<close>

definition setIPv6Only :: "relaySystem \<Rightarrow> nat \<Rightarrow> socketEvent list \<times> unit result" where
  "setIPv6Only sys fd =
     (case rs_setsockopt sys fd ipprotoIPv6 ipv6V6Only 1 of
        Inl e \<Rightarrow> ([], Inl e)
      | Inr _ \<Rightarrow> ([OptionSet fd ipprotoIPv6 ipv6V6Only 1], Inr ()))"

definition setIPv6Only_windows :: "relaySystem \<Rightarrow> nat \<Rightarrow> socketEvent list \<times> unit result" where
  "setIPv6Only_windows sys fd = ([], Inr ())"

text \<open>The function of the platform is an argument.\<close>

type_synonym onlyIPv6 = "relaySystem \<Rightarrow> nat \<Rightarrow> socketEvent list \<times> unit result"

definition ipv6OnlyControl :: "onlyIPv6 \<Rightarrow> relaySystem \<Rightarrow> string \<Rightarrow> string \<Rightarrow> socketEvent list \<times> unit result" where
  "ipv6OnlyControl only sys expectedNetwork network =
     (if network \<noteq> expectedNetwork then ([], Inr ())
      else (case rs_rawControl sys of Inl e \<Rightarrow> ([], Inl e) | Inr fd \<Rightarrow> only sys fd))"

text \<open>\<^verbatim>\<open>ListenConfig.Listen\<close> and \<^verbatim>\<open>ListenPacket\<close>: the control function runs on the socket before it is bound.\<close>

definition listenWith :: "relaySystem \<Rightarrow> (string \<Rightarrow> socketEvent list \<times> unit result) \<Rightarrow> string \<Rightarrow> string \<Rightarrow> socketEvent list \<times> unit result" where
  "listenWith sys control network address =
     (case control network of
        (events, Inl e) \<Rightarrow> (events @ [SocketClosed], Inl e)
      | (events, Inr _) \<Rightarrow>
          (case rs_bind sys network address of
             Inl e \<Rightarrow> (events @ [SocketClosed], Inl e)
           | Inr _ \<Rightarrow> (events @ [Bound network address], Inr ())))"

text \<open>A relay by the address it listens on and the one it passes on to.\<close>

definition newIPv6Relay ::
  "onlyIPv6 \<Rightarrow> relaySystem \<Rightarrow> string \<Rightarrow> int \<Rightarrow> string \<Rightarrow> int \<Rightarrow> socketEvent list \<times> (string \<times> string) result" where
  "newIPv6Relay only sys listenHost listenPort targetHost targetPort =
     (let address = joinHostPort listenHost (itoa listenPort) in
      case listenWith sys (ipv6OnlyControl only sys ''tcp6'') ''tcp6'' address of
        (events, Inl e) \<Rightarrow> (events, Inl (Wrapf ''listen on ipv6 relay %s: %w'' [AStr address] e))
      | (events, Inr _) \<Rightarrow> (events, Inr (address, joinHostPort targetHost (itoa targetPort))))"

definition newUDPIPv6Relay ::
  "onlyIPv6 \<Rightarrow> relaySystem \<Rightarrow> string \<Rightarrow> int \<Rightarrow> string \<Rightarrow> int \<Rightarrow> socketEvent list \<times> (string \<times> string) result" where
  "newUDPIPv6Relay only sys listenHost listenPort targetHost targetPort =
     (let address = joinHostPort listenHost (itoa listenPort) in
      case listenWith sys (ipv6OnlyControl only sys ''udp6'') ''udp6'' address of
        (events, Inl e) \<Rightarrow> (events, Inl (Wrapf ''listen on udp ipv6 relay %s: %w'' [AStr address] e))
      | (events, Inr _) \<Rightarrow>
          (case rs_resolveUDPAddr sys ''udp4'' (joinHostPort targetHost (itoa targetPort)) of
             Inl e \<Rightarrow>
               (events @ [SocketClosed],
                Inl (Wrapf ''resolve udp relay target %s:%d: %w'' [AStr targetHost, AInt targetPort] e))
           | Inr targetAddr \<Rightarrow> (events, Inr (address, targetAddr))))"

subsection \<open>Streams\<close>

text \<open>
  The other end of a connection, as the one that is written to: it takes everything, or it takes so many bytes in
  all and then a write fails, or it takes so many and no longer reads, so that a write blocks as long as the connection
  has no deadline.
\<close>

datatype sink = TakesAll | FailsAfter nat goerr | BlocksAfter nat

text \<open>
  One direction of \<^verbatim>\<open>proxyConns\<close>: the bytes its source still has, how the source ends (not at all while its peer stays
  silent), the buffer of \<^verbatim>\<open>io.Copy\<close> with what was read and not yet written, the target, what was delivered to it, and how far
  the goroutine is: it copies, the copy has ended, the deadline of the target has been set, and that of the source too.
\<close>

datatype copyPhase = Copying | Ended | TargetExpired | Finished

record flow =
  fl_pending :: "byte list"
  fl_end :: "goerr option"
  fl_buffer :: "byte list"
  fl_sink :: sink
  fl_delivered :: "byte list"
  fl_phase :: copyPhase

text \<open>
  The connections \<open>a\<close> and \<open>b\<close> have deadlines, which have passed or not; \<open>px_ab\<close> copies from \<open>a\<close> to \<open>b\<close>.
\<close>

record proxy =
  px_ab :: flow
  px_ba :: flow
  px_aExpired :: bool
  px_bExpired :: bool

fun takes :: "sink \<Rightarrow> nat \<Rightarrow> bool" where
  "takes TakesAll n = True"
| "takes (FailsAfter m e) n = (n \<le> m)"
| "takes (BlocksAfter m) n = (n \<le> m)"

text \<open>
  The steps of one direction, with the state of the deadlines of source and target before and after. The buffer is
  read into when it is empty and then written out, in as many parts as the target takes it; a write that the target
  no longer takes fails or has no step. A read or a write behind a deadline fails, also one that was blocked.
\<close>

inductive flowStep :: "bool \<Rightarrow> bool \<Rightarrow> flow \<Rightarrow> bool \<Rightarrow> bool \<Rightarrow> flow \<Rightarrow> bool" where
  readSome: "fl_phase f = Copying \<Longrightarrow> fl_buffer f = [] \<Longrightarrow> fl_pending f = x @ y \<Longrightarrow> x \<noteq> [] \<Longrightarrow>
    flowStep False tx f False tx (f\<lparr>fl_pending := y, fl_buffer := x\<rparr>)"
| sourceEnds: "fl_phase f = Copying \<Longrightarrow> fl_buffer f = [] \<Longrightarrow> fl_pending f = [] \<Longrightarrow> fl_end f = Some e \<Longrightarrow>
    flowStep False tx f False tx (f\<lparr>fl_phase := Ended\<rparr>)"
| readExpired: "fl_phase f = Copying \<Longrightarrow> fl_buffer f = [] \<Longrightarrow> flowStep True tx f True tx (f\<lparr>fl_phase := Ended\<rparr>)"
| writeSome: "fl_phase f = Copying \<Longrightarrow> fl_buffer f = x @ y \<Longrightarrow> x \<noteq> [] \<Longrightarrow> takes (fl_sink f) (length (fl_delivered f) + length x) \<Longrightarrow>
    flowStep sx False f sx False (f\<lparr>fl_buffer := y, fl_delivered := fl_delivered f @ x\<rparr>)"
| writeFails: "fl_phase f = Copying \<Longrightarrow> fl_buffer f \<noteq> [] \<Longrightarrow> fl_sink f = FailsAfter n e \<Longrightarrow> n = length (fl_delivered f) \<Longrightarrow>
    flowStep sx False f sx False (f\<lparr>fl_phase := Ended\<rparr>)"
| writeExpired: "fl_phase f = Copying \<Longrightarrow> fl_buffer f \<noteq> [] \<Longrightarrow> flowStep sx True f sx True (f\<lparr>fl_phase := Ended\<rparr>)"
| expireTarget: "fl_phase f = Ended \<Longrightarrow> flowStep sx tx f sx True (f\<lparr>fl_phase := TargetExpired\<rparr>)"
| expireSource: "fl_phase f = TargetExpired \<Longrightarrow> flowStep sx tx f True tx (f\<lparr>fl_phase := Finished\<rparr>)"

inductive proxyStep :: "proxy \<Rightarrow> proxy \<Rightarrow> bool" where
  ab: "flowStep (px_aExpired s) (px_bExpired s) (px_ab s) ax bx f \<Longrightarrow>
    proxyStep s (s\<lparr>px_ab := f, px_aExpired := ax, px_bExpired := bx\<rparr>)"
| ba: "flowStep (px_bExpired s) (px_aExpired s) (px_ba s) bx ax f \<Longrightarrow>
    proxyStep s (s\<lparr>px_ba := f, px_aExpired := ax, px_bExpired := bx\<rparr>)"

definition flowStart :: "byte list \<Rightarrow> goerr option \<Rightarrow> sink \<Rightarrow> flow" where
  "flowStart sent ending target =
     \<lparr>fl_pending = sent, fl_end = ending, fl_buffer = [], fl_sink = target, fl_delivered = [], fl_phase = Copying\<rparr>"

definition proxyStart :: "flow \<Rightarrow> flow \<Rightarrow> proxy" where
  "proxyStart ab ba = \<lparr>px_ab = ab, px_ba = ba, px_aExpired = False, px_bExpired = False\<rparr>"

definition proxyConns :: "proxy \<Rightarrow> proxy \<Rightarrow> bool" where
  "proxyConns s s' \<longleftrightarrow> proxyStep\<^sup>*\<^sup>* s s' \<and> fl_phase (px_ab s') = Finished \<and> fl_phase (px_ba s') = Finished"

text \<open>
  The loop of the relay: each accepted client with the connection that was dialled for it, or the error that is
  logged; it ends at the first error of \<^verbatim>\<open>Accept\<close>.
\<close>

datatype 'c relayed = Proxied 'c conn | DialFailed 'c goerr

fun relayServe :: "(nat \<Rightarrow> string \<Rightarrow> string \<Rightarrow> conn result) \<Rightarrow> string \<Rightarrow> nat \<Rightarrow> 'c result list \<Rightarrow> 'c relayed list" where
  "relayServe dialTCP targetAddress i [] = []"
| "relayServe dialTCP targetAddress i (Inl e # rest) = []"
| "relayServe dialTCP targetAddress i (Inr client # rest) =
     (case dialTCP i ''tcp4'' targetAddress of Inl e \<Rightarrow> DialFailed client e | Inr upstream \<Rightarrow> Proxied client upstream) #
     relayServe dialTCP targetAddress (i + 1) rest"

text \<open>
  \<^verbatim>\<open>close\<close> of the two relays, which does nothing to no relay: the listener is closed, and then the goroutines of the
  relay are awaited, whose \<^verbatim>\<open>Accept\<close> or read fails now.
\<close>

definition ipv6Relay_close :: "(string \<times> string) option \<Rightarrow> socketEvent list" where
  "ipv6Relay_close relay = (case relay of None \<Rightarrow> [] | Some _ \<Rightarrow> [SocketClosed])"

definition udpIPv6Relay_close :: "(string \<times> string) option \<Rightarrow> socketEvent list" where
  "udpIPv6Relay_close relay = (case relay of None \<Rightarrow> [] | Some _ \<Rightarrow> [SocketClosed])"

subsection \<open>Datagrams\<close>

definition udpRelayDeadlineTimeout :: int where
  "udpRelayDeadlineTimeout = 5 * 1000000000"

definition setDeadlineFromNow :: "int \<Rightarrow> conn \<Rightarrow> int \<Rightarrow> unit result" where
  "setDeadlineFromNow now c timeout = setDeadline c (now + timeout)"

definition setUDPRelayDeadline :: "int \<Rightarrow> conn \<Rightarrow> unit result" where
  "setUDPRelayDeadline now c = setDeadlineFromNow now c udpRelayDeadlineTimeout"

text \<open>One datagram: the reply that goes back to the client.\<close>

definition forwardPacket ::
  "conn result \<Rightarrow> int \<Rightarrow> (byte list \<Rightarrow> 'a \<Rightarrow> goerr option) \<Rightarrow> byte list \<Rightarrow> 'a \<Rightarrow> (byte list \<times> 'a) result" where
  "forwardPacket dialled now writeTo payload clientAddr =
     ebind dialled (\<lambda>upstream.
     ebind (setUDPRelayDeadline now upstream) (\<lambda>_.
     ebind (connWrite upstream payload) (\<lambda>upstream1.
     ebind (readDatagram 2048 upstream1) (\<lambda>reply.
       (case writeTo reply clientAddr of Some e \<Rightarrow> Inl e | None \<Rightarrow> Inr (reply, clientAddr))))))"

text \<open>
  The loop: the datagrams that arrive with their senders, until a read fails. For the \<open>i\<close>-th of them, \<open>dialUDP i\<close> is
  the connection dialled and \<open>now i\<close> the time. What was sent back, and the errors that were logged.
\<close>

fun udpRelayServe ::
  "(nat \<Rightarrow> conn result) \<Rightarrow> (nat \<Rightarrow> int) \<Rightarrow> (byte list \<Rightarrow> 'a \<Rightarrow> goerr option) \<Rightarrow> nat \<Rightarrow> (byte list \<times> 'a) result list \<Rightarrow>
     (byte list \<times> 'a) list \<times> goerr list" where
  "udpRelayServe dialUDP now writeTo i [] = ([], [])"
| "udpRelayServe dialUDP now writeTo i (Inl e # rest) = ([], [])"
| "udpRelayServe dialUDP now writeTo i (Inr (datagram, clientAddr) # rest) =
     (case udpRelayServe dialUDP now writeTo (i + 1) rest of
        (sent, logged) \<Rightarrow>
          (case forwardPacket (dialUDP i) (now i) writeTo (take 2048 datagram) clientAddr of
             Inl e \<Rightarrow> (sent, e # logged)
           | Inr reply \<Rightarrow> (reply # sent, logged)))"

section \<open>Lemmas\<close>

subsection \<open>One direction\<close>

text \<open>What the source sent is what was delivered, what is in the buffer and what is pending, in this order.\<close>

definition flowInv :: "byte list \<Rightarrow> goerr option \<Rightarrow> sink \<Rightarrow> flow \<Rightarrow> bool" where
  "flowInv sent ending target f \<longleftrightarrow> fl_end f = ending \<and> fl_sink f = target \<and>
     sent = fl_delivered f @ fl_buffer f @ fl_pending f \<and> takes target (length (fl_delivered f))"

fun phaseRank :: "copyPhase \<Rightarrow> nat" where
  "phaseRank Copying = 3"
| "phaseRank Ended = 2"
| "phaseRank TargetExpired = 1"
| "phaseRank Finished = 0"

definition flowRank :: "flow \<Rightarrow> nat" where
  "flowRank f = 2 * length (fl_pending f) + length (fl_buffer f) + phaseRank (fl_phase f)"

text \<open>
  A direction is complete when its source has ended and all was delivered, or when its target has failed. It waits when
  its source is silent, or when its target no longer reads what was read from the source.
\<close>

definition flowComplete :: "flow \<Rightarrow> bool" where
  "flowComplete f \<longleftrightarrow> fl_end f \<noteq> None \<and> fl_buffer f = [] \<and> fl_pending f = [] \<or>
     (\<exists>n e. fl_sink f = FailsAfter n e \<and> length (fl_delivered f) = n)"

definition flowWaits :: "flow \<Rightarrow> bool" where
  "flowWaits f \<longleftrightarrow> fl_phase f = Copying \<and>
     (fl_end f = None \<and> fl_buffer f = [] \<and> fl_pending f = [] \<or>
      (\<exists>n. fl_sink f = BlocksAfter n \<and> length (fl_delivered f) = n \<and> fl_buffer f \<noteq> []))"

lemma flowInv_step: "flowStep sx tx f sx' tx' f' \<Longrightarrow> flowInv sent ending target f \<Longrightarrow> flowInv sent ending target f'"
  by (auto simp: flowInv_def elim!: flowStep.cases)

lemma flowInv_prefix: "flowInv sent ending target f \<Longrightarrow> \<exists>rest. sent = fl_delivered f @ rest"
  by (auto simp: flowInv_def)

lemma flowInv_complete: "flowInv sent ending target f \<Longrightarrow> flowComplete f \<Longrightarrow>
    ending \<noteq> None \<and> fl_delivered f = sent \<or> (\<exists>m e. target = FailsAfter m e \<and> length (fl_delivered f) = m)"
  by (auto simp: flowInv_def flowComplete_def)

lemma flowInv_waits: "flowInv sent ending target f \<Longrightarrow> flowWaits f \<Longrightarrow>
    fl_phase f = Copying \<and> (ending = None \<and> fl_delivered f = sent \<or>
      (\<exists>m < length sent. target = BlocksAfter m \<and> fl_delivered f = take m sent))"
  by (auto simp: flowInv_def flowWaits_def)

lemma flowRank_step: "flowStep sx tx f sx' tx' f' \<Longrightarrow> flowRank f' < flowRank f"
  by (auto simp: flowRank_def elim!: flowStep.cases)

text \<open>A copy that no deadline has disturbed ends only when its direction is complete, and stays complete.\<close>

lemma flowComplete_step:
  "flowStep sx tx f sx' tx' f' \<Longrightarrow> fl_phase f' \<noteq> Copying \<Longrightarrow> (fl_phase f = Copying \<Longrightarrow> \<not> sx \<and> \<not> tx) \<Longrightarrow>
    (fl_phase f \<noteq> Copying \<Longrightarrow> flowComplete f) \<Longrightarrow> flowComplete f'"
  by (auto simp: flowComplete_def elim!: flowStep.cases)

text \<open>The first byte of the buffer is taken, makes the write fail, or blocks.\<close>

lemma flow_writes:
  assumes "fl_phase f = Copying" and "fl_buffer f \<noteq> []" and "takes (fl_sink f) (length (fl_delivered f))" and "\<not> flowWaits f \<or> tx"
  shows "\<exists>sx' tx' f'. flowStep sx tx f sx' tx' f'"
proof -
  obtain b y where buffer: "fl_buffer f = [b] @ y" using assms(2) by (cases "fl_buffer f") auto
  consider tx | "\<not> tx" "takes (fl_sink f) (length (fl_delivered f) + length [b])"
    | n e where "\<not> tx" "fl_sink f = FailsAfter n e" "n = length (fl_delivered f)"
    using assms by (cases "fl_sink f") (fastforce simp: flowWaits_def)+
  then show ?thesis
  proof cases
    case 1
    then show ?thesis using flowStep.writeExpired [OF assms(1,2)] by auto
  next
    case 2
    then show ?thesis using flowStep.writeSome [OF assms(1) buffer, of sx] by auto
  next
    case 3
    then show ?thesis using flowStep.writeFails [OF assms(1,2) 3(2,3), of sx] by auto
  qed
qed

lemma flow_moves:
  assumes "fl_phase f \<noteq> Finished" and "takes (fl_sink f) (length (fl_delivered f))" and "\<not> flowWaits f \<or> sx \<and> tx"
  shows "\<exists>sx' tx' f'. flowStep sx tx f sx' tx' f'"
proof (cases "fl_phase f")
  case Copying
  show ?thesis
  proof (cases "fl_buffer f = []")
    case True
    consider sx | "\<not> sx" "fl_pending f \<noteq> []" | e where "\<not> sx" "fl_pending f = []" "fl_end f = Some e"
      using assms(3) Copying True by (cases "fl_end f") (auto simp: flowWaits_def)
    then show ?thesis
    proof cases
      case 1
      then show ?thesis using flowStep.readExpired [OF Copying True, of tx] by auto
    next
      case 2
      then show ?thesis using flowStep.readSome [OF Copying True, of "fl_pending f" "[]" tx] by auto
    next
      case 3
      then show ?thesis using flowStep.sourceEnds [OF Copying True 3(2,3), of tx] by auto
    qed
  next
    case False
    with flow_writes [OF Copying False assms(2)] assms(3) show ?thesis by blast
  qed
qed (use assms flowStep.expireTarget flowStep.expireSource in blast)+

subsection \<open>Both directions\<close>

text \<open>
  A direction that has set deadlines has set them: none is lifted again. As long as both directions copy there is no
  deadline, and the first one to end was complete.
\<close>

definition deadlinesSet :: "flow \<Rightarrow> bool \<Rightarrow> bool \<Rightarrow> bool" where
  "deadlinesSet f sx tx \<longleftrightarrow> (fl_phase f = TargetExpired \<longrightarrow> tx) \<and> (fl_phase f = Finished \<longrightarrow> sx \<and> tx)"

lemma deadlinesSet_step:
  "flowStep sx tx f sx' tx' f' \<Longrightarrow> deadlinesSet f sx tx \<Longrightarrow> deadlinesSet f' sx' tx' \<and> (sx \<longrightarrow> sx') \<and> (tx \<longrightarrow> tx')"
  by (auto simp: deadlinesSet_def elim!: flowStep.cases)

definition firstComplete :: "flow \<Rightarrow> flow \<Rightarrow> bool \<Rightarrow> bool \<Rightarrow> bool" where
  "firstComplete f g sx tx \<longleftrightarrow>
     (if fl_phase f = Copying \<and> fl_phase g = Copying then \<not> sx \<and> \<not> tx
      else fl_phase f \<noteq> Copying \<and> flowComplete f \<or> fl_phase g \<noteq> Copying \<and> flowComplete g)"

lemma firstComplete_swap: "firstComplete f g sx tx \<longleftrightarrow> firstComplete g f tx sx"
  by (auto simp: firstComplete_def)

lemma flowStep_phase:
  "flowStep sx tx f sx' tx' f' \<Longrightarrow> fl_phase f' = Copying \<Longrightarrow> fl_phase f = Copying \<and> sx' = sx \<and> tx' = tx"
  "flowStep sx tx f sx' tx' f' \<Longrightarrow> fl_phase f \<noteq> Copying \<Longrightarrow> fl_phase f' \<noteq> Copying \<and> flowComplete f' = flowComplete f"
  by (auto simp: flowComplete_def elim!: flowStep.cases)

lemma firstComplete_step:
  assumes step: "flowStep sx tx f sx' tx' f'" and first: "firstComplete f g sx tx"
  shows "firstComplete f' g sx' tx'"
proof (cases "fl_phase f' = Copying")
  case True
  with flowStep_phase(1) [OF step True] first show ?thesis by (auto simp: firstComplete_def split: if_splits)
next
  case False
  with first show ?thesis
    using flowComplete_step [OF step False] flowStep_phase(2) [OF step]
    by (auto simp: firstComplete_def split: if_splits)
qed

definition proxyInv :: "flow \<Rightarrow> flow \<Rightarrow> proxy \<Rightarrow> bool" where
  "proxyInv ab ba s \<longleftrightarrow> flowInv (fl_pending ab) (fl_end ab) (fl_sink ab) (px_ab s) \<and> flowInv (fl_pending ba) (fl_end ba) (fl_sink ba) (px_ba s) \<and>
     deadlinesSet (px_ab s) (px_aExpired s) (px_bExpired s) \<and> deadlinesSet (px_ba s) (px_bExpired s) (px_aExpired s) \<and>
     firstComplete (px_ab s) (px_ba s) (px_aExpired s) (px_bExpired s)"

definition proxyRank :: "proxy \<Rightarrow> nat" where
  "proxyRank s = flowRank (px_ab s) + flowRank (px_ba s)"

definition proxyDone :: "proxy \<Rightarrow> bool" where
  "proxyDone s \<longleftrightarrow> fl_phase (px_ab s) = Finished \<and> fl_phase (px_ba s) = Finished"

definition proxyWaits :: "proxy \<Rightarrow> bool" where
  "proxyWaits s \<longleftrightarrow> flowWaits (px_ab s) \<and> flowWaits (px_ba s)"

lemma proxyInv_step:
  assumes "proxyStep s s'" and "proxyInv ab ba s"
  shows "proxyInv ab ba s'"
  using assms
proof cases
  case (ab ax bx f)
  with assms(2) show ?thesis
    using flowInv_step [OF ab(2)] deadlinesSet_step [OF ab(2)] firstComplete_step [OF ab(2)]
    by (simp add: proxyInv_def) (auto simp: deadlinesSet_def)
next
  case (ba bx ax f)
  with assms(2) show ?thesis
    using flowInv_step [OF ba(2)] deadlinesSet_step [OF ba(2)] firstComplete_step [OF ba(2)]
      firstComplete_swap [of "px_ab s"]
    by (simp add: proxyInv_def) (auto simp: deadlinesSet_def firstComplete_swap [of "px_ab s" f])
qed

text \<open>With a direction that has finished, both deadlines are set and the other one moves.\<close>

lemma proxy_moves:
  assumes inv: "proxyInv ab ba s" and "\<not> (proxyDone s \<or> proxyWaits s)"
  shows "\<exists>s'. proxyStep s s'"
proof -
  have taken: "takes (fl_sink (px_ab s)) (length (fl_delivered (px_ab s)))" "takes (fl_sink (px_ba s)) (length (fl_delivered (px_ba s)))"
    using inv by (simp_all add: proxyInv_def flowInv_def)
  have "fl_phase (px_ab s) \<noteq> Finished \<and> (\<not> flowWaits (px_ab s) \<or> px_aExpired s \<and> px_bExpired s) \<or>
      fl_phase (px_ba s) \<noteq> Finished \<and> (\<not> flowWaits (px_ba s) \<or> px_bExpired s \<and> px_aExpired s)"
    using assms by (auto simp: proxyInv_def proxyDone_def proxyWaits_def deadlinesSet_def flowWaits_def)
  then show ?thesis
    using flow_moves [OF _ taken(1)] flow_moves [OF _ taken(2)] by (meson proxyStep.ab proxyStep.ba)
qed

interpretation proxy: shrinking_system proxyStep "proxyInv ab ba" proxyRank "\<lambda>s. proxyDone s \<or> proxyWaits s"
proof
  fix s s'
  show "proxyStep s s' \<Longrightarrow> proxyInv ab ba s \<Longrightarrow> proxyInv ab ba s'" by (rule proxyInv_step)
  show "proxyStep s s' \<Longrightarrow> proxyInv ab ba s \<Longrightarrow> proxyRank s' < proxyRank s"
    by (auto simp: proxyRank_def elim!: proxyStep.cases dest: flowRank_step)
  show "proxyInv ab ba s \<Longrightarrow> \<not> (proxyDone s \<or> proxyWaits s) \<Longrightarrow> \<exists>s'. proxyStep s s'" by (rule proxy_moves)
qed

lemma flowStart_sel [simp]:
  "fl_pending (flowStart sent ending target) = sent" "fl_end (flowStart sent ending target) = ending"
  "fl_sink (flowStart sent ending target) = target" "fl_buffer (flowStart sent ending target) = []"
  "fl_delivered (flowStart sent ending target) = []" "fl_phase (flowStart sent ending target) = Copying"
  by (simp_all add: flowStart_def)

lemma proxyInv_start:
  "ab = flowStart sentA endA sinkB \<Longrightarrow> ba = flowStart sentB endB sinkA \<Longrightarrow> proxyInv ab ba (proxyStart ab ba)"
  by (cases sinkA; cases sinkB)
    (simp_all add: proxyInv_def proxyStart_def flowInv_def deadlinesSet_def firstComplete_def)

lemma proxy_stuck:
  assumes "proxyInv ab ba s" and "\<nexists>s'. proxyStep s s'"
  shows "proxyDone s \<or> \<not> px_aExpired s \<and> \<not> px_bExpired s \<and> flowWaits (px_ab s) \<and> flowWaits (px_ba s)"
proof -
  have "proxyDone s \<or> proxyWaits s" using proxy.not_stuck [OF assms(1)] assms(2) by blast
  moreover have "proxyWaits s \<Longrightarrow> fl_phase (px_ab s) = Copying \<and> fl_phase (px_ba s) = Copying"
    by (simp add: proxyWaits_def flowWaits_def)
  ultimately show ?thesis using assms(1) by (auto simp: proxyWaits_def proxyInv_def firstComplete_def)
qed

subsection \<open>Datagrams\<close>

lemma forwardPacket_ok:
  assumes "conn_wfail u = (\<lambda>_. None)" and "conn_dlfail u = (\<lambda>_. None)" and "conn_sent u = []"
  shows "forwardPacket (Inr u) now (\<lambda>_ _. None) payload client =
    (case conn_reply u payload of None \<Rightarrow> Inl (conn_rerr u) | Some d \<Rightarrow> Inr (take 2048 d, client))"
  using assms by (simp add: forwardPacket_def setUDPRelayDeadline_def setDeadlineFromNow_def setDeadline_def connWrite_ok
      readDatagram_def split: option.split)

section \<open>Properties\<close>

text \<open>
  C36: the proxy of the relay never invents, reorders or skips a byte, and what it waits for. In every interleaving of its
  two goroutines what arrives at a side is a beginning of what the other side sent, and the number of steps is bounded
  by the bytes sent. A copy ends, and deadlines cut the other one, only after one direction was complete: its source had
  ended and everything was delivered, or its target had failed. A run that cannot go on has finished both directions,
  or no deadline was ever set and each direction still copies and waits: for a source that is silent, with everything
  delivered, or in a write to a target that no longer reads. So the proxy ends when one side ends and the other one reads; with
  a target that stops reading it may wait for ever, even though the source has ended.
\<close>

theorem proxy_delivers_and_ends:
  assumes "(proxyStep ^^ n) (proxyStart (flowStart sentA endA sinkB) (flowStart sentB endB sinkA)) s"
  shows "(\<exists>rest. sentA = fl_delivered (px_ab s) @ rest) \<and> (\<exists>rest. sentB = fl_delivered (px_ba s) @ rest) \<and>
    n \<le> 2 * (length sentA + length sentB) + 6 \<and>
    (fl_phase (px_ab s) \<noteq> Copying \<or> fl_phase (px_ba s) \<noteq> Copying \<longrightarrow>
       endA \<noteq> None \<and> fl_delivered (px_ab s) = sentA \<or> (\<exists>m e. sinkB = FailsAfter m e \<and> length (fl_delivered (px_ab s)) = m) \<or>
       endB \<noteq> None \<and> fl_delivered (px_ba s) = sentB \<or> (\<exists>m e. sinkA = FailsAfter m e \<and> length (fl_delivered (px_ba s)) = m)) \<and>
    ((\<nexists>s'. proxyStep s s') \<longrightarrow>
       fl_phase (px_ab s) = Finished \<and> fl_phase (px_ba s) = Finished \<or>
       \<not> px_aExpired s \<and> \<not> px_bExpired s \<and> fl_phase (px_ab s) = Copying \<and> fl_phase (px_ba s) = Copying \<and>
       (endA = None \<and> fl_delivered (px_ab s) = sentA \<or>
        (\<exists>m < length sentA. sinkB = BlocksAfter m \<and> fl_delivered (px_ab s) = take m sentA)) \<and>
       (endB = None \<and> fl_delivered (px_ba s) = sentB \<or>
        (\<exists>m < length sentB. sinkA = BlocksAfter m \<and> fl_delivered (px_ba s) = take m sentB)))"
proof -
  let ?ab = "flowStart sentA endA sinkB" and ?ba = "flowStart sentB endB sinkA"
  note init = proxyInv_start [of ?ab sentA endA sinkB ?ba sentB endB sinkA, OF refl refl]
  have inv: "proxyInv ?ab ?ba s"
    using proxy.inv_run [OF relpowp_imp_rtranclp [OF assms] init] .
  then have flows: "flowInv sentA endA sinkB (px_ab s)" "flowInv sentB endB sinkA (px_ba s)" by (simp_all add: proxyInv_def)
  have bound: "n \<le> 2 * (length sentA + length sentB) + 6"
    using proxy.run_length [OF assms init] by (simp add: proxyRank_def proxyStart_def flowRank_def)
  have first: "flowComplete (px_ab s) \<or> flowComplete (px_ba s)"
    if "fl_phase (px_ab s) \<noteq> Copying \<or> fl_phase (px_ba s) \<noteq> Copying"
    using inv that by (auto simp: proxyInv_def firstComplete_def)
  have stuck: "proxyDone s \<or> \<not> px_aExpired s \<and> \<not> px_bExpired s \<and> flowWaits (px_ab s) \<and> flowWaits (px_ba s)"
    if "\<nexists>s'. proxyStep s s'"
    using proxy_stuck [OF inv that] .
  show ?thesis
    using bound first stuck flowInv_prefix [OF flows(1)] flowInv_prefix [OF flows(2)] flowInv_complete [OF flows(1)]
      flowInv_complete [OF flows(2)] flowInv_waits [OF flows(1)] flowInv_waits [OF flows(2)]
    unfolding proxyDone_def by blast
qed

text \<open>
  The proxy does not end when a target stops reading and its own side stays silent, even after the source has
  ended: both directions copy for ever, and \<^verbatim>\<open>close\<close> of the relay waits for them.
\<close>

theorem proxy_waits_for_reader:
  assumes "proxyStep\<^sup>*\<^sup>* (proxyStart (flowStart sentA endA (BlocksAfter m)) (flowStart sentB None sinkA)) s"
    and "m < length sentA" and "sinkA = TakesAll \<or> sinkA = BlocksAfter k"
  shows "fl_phase (px_ab s) = Copying \<and> fl_phase (px_ba s) = Copying"
proof -
  have "proxyInv (flowStart sentA endA (BlocksAfter m)) (flowStart sentB None sinkA) s"
    using proxy.inv_run [OF assms(1) proxyInv_start [OF refl refl]] .
  then show ?thesis
    using assms(2,3) by (auto simp: proxyInv_def flowInv_def firstComplete_def flowComplete_def split: if_splits)
qed

text \<open>
  The relay for datagrams is transparent. Over connections that take its datagrams, every datagram of a client,
  cut to its buffer, goes to the target, and the target's answer, cut to the buffer, goes back to that client, in
  the order of arrival; a datagram without an answer is skipped, and none of this stops the relay before the read fails.
\<close>

theorem udp_relay_transparent:
  assumes "\<And>i. dialUDP i = Inr (udpTo reply remote)"
  shows "udpRelayServe dialUDP now (\<lambda>_ _. None) i (map Inr packets @ Inl e # later) =
    (concat (map (\<lambda>(d, client). case reply (take 2048 d) of None \<Rightarrow> [] | Some r \<Rightarrow> [(take 2048 r, client)]) packets),
     concat (map (\<lambda>(d, client). case reply (take 2048 d) of None \<Rightarrow> [ErrTimeout] | Some r \<Rightarrow> []) packets))"
proof (induction packets arbitrary: i)
  case (Cons packet packets)
  obtain d client where "packet = (d, client)" by (cases packet)
  moreover have "forwardPacket (dialUDP i) (now i) (\<lambda>_ _. None) (take 2048 d) client =
      (case reply (take 2048 d) of None \<Rightarrow> Inl ErrTimeout | Some r \<Rightarrow> Inr (take 2048 r, client))"
    unfolding assms by (subst forwardPacket_ok) (simp_all add: udpTo_def connTo_def split: option.split)
  ultimately show ?case using Cons.IH [of "i + 1"] by (simp split: option.split)
qed simp

text \<open>
  A relay listens on IPv6 only. Where the option of the socket can be set, a relay that was made has set it to 1
  before it bound its address, for both kinds of relay; where it cannot be set, no relay is made. On Windows nothing is set.
\<close>

theorem relay_listens_on_ipv6_only:
  assumes "relay \<in> {newIPv6Relay setIPv6Only, newUDPIPv6Relay setIPv6Only}"
  shows "case relay sys listenHost listenPort targetHost targetPort of
      (events, Inl e) \<Rightarrow> True
    | (events, Inr (address, target)) \<Rightarrow> address = joinHostPort listenHost (itoa listenPort) \<and>
        (\<exists>fd network. rs_rawControl sys = Inr fd \<and> rs_setsockopt sys fd 41 26 1 = Inr () \<and>
          network \<in> {''tcp6'', ''udp6''} \<and> events = [OptionSet fd 41 26 1, Bound network address])"
  using assms
  by (auto simp: newIPv6Relay_def newUDPIPv6Relay_def listenWith_def ipv6OnlyControl_def setIPv6Only_def
      ipprotoIPv6_def ipv6V6Only_def Let_def split: sum.splits prod.splits)

section \<open>Witnesses\<close>

text \<open>A run into a write that blocks: one of two bytes is delivered, and the proxy waits although the source has ended.\<close>

definition exampleBlocked :: "byte list \<Rightarrow> byte list \<Rightarrow> byte list \<Rightarrow> proxy" where
  "exampleBlocked delivered0 buffer pending =
     proxyStart
       \<lparr>fl_pending = pending, fl_end = Some EOF, fl_buffer = buffer, fl_sink = BlocksAfter 1, fl_delivered = delivered0, fl_phase = Copying\<rparr>
       (flowStart [] None TakesAll)"

lemma exampleBlocked_run:
  "(proxyStep ^^ 2) (proxyStart (flowStart [1, 2] (Some EOF) (BlocksAfter 1)) (flowStart [] None TakesAll)) (exampleBlocked [1] [2] [])"
  "\<nexists>s. proxyStep (exampleBlocked [1] [2] []) s"
proof -
  have step: "proxyStep (exampleBlocked d x y) (exampleBlocked d' x' y')"
    if "flowStep False False (px_ab (exampleBlocked d x y)) False False (px_ab (exampleBlocked d' x' y'))" for d x y d' x' y'
    using proxyStep.ab [of "exampleBlocked d x y" False False "px_ab (exampleBlocked d' x' y')"] that
    by (simp add: exampleBlocked_def proxyStart_def)
  have "flowStep False False (px_ab (exampleBlocked [] [] [1, 2])) False False (px_ab (exampleBlocked [] [1, 2] []))"
    using flowStep.readSome [of "px_ab (exampleBlocked [] [] [1, 2])" "[1, 2]" "[]" False] by (simp add: exampleBlocked_def proxyStart_def)
  moreover have "flowStep False False (px_ab (exampleBlocked [] [1, 2] [])) False False (px_ab (exampleBlocked [1] [2] []))"
    using flowStep.writeSome [of "px_ab (exampleBlocked [] [1, 2] [])" "[1]" "[2]" False] by (simp add: exampleBlocked_def proxyStart_def)
  ultimately have "(proxyStep ^^ 2) (exampleBlocked [] [] [1, 2]) (exampleBlocked [1] [2] [])"
    unfolding numeral_2_eq_2 by (blast intro: step relpowp_0_I relpowp_Suc_I)
  then show "(proxyStep ^^ 2) (proxyStart (flowStart [1, 2] (Some EOF) (BlocksAfter 1)) (flowStart [] None TakesAll)) (exampleBlocked [1] [2] [])"
    by (simp add: exampleBlocked_def flowStart_def)
  show "\<nexists>s. proxyStep (exampleBlocked [1] [2] []) s"
    by (auto simp: exampleBlocked_def proxyStart_def flowStart_def append_eq_Cons_conv elim!: proxyStep.cases flowStep.cases)
qed

theorem proxy_delivers_and_ends_witness:
  "fl_phase (px_ab (exampleBlocked [1] [2] [])) = Finished \<or> fl_delivered (px_ab (exampleBlocked [1] [2] [])) = take 1 [1, 2]"
  using proxy_delivers_and_ends [OF exampleBlocked_run(1)] exampleBlocked_run(2) by auto

theorem udp_relay_transparent_witness:
  "udpRelayServe (\<lambda>_. Inr (udpTo (\<lambda>d. Some (rev d)) ''127.0.0.1:19132'')) (\<lambda>_. 0) (\<lambda>_ _. None) 0 [Inr ([1, 2], ''::1''), Inl ErrClosed] =
    ([([2, 1], ''::1'')], [])"
  using udp_relay_transparent [of "\<lambda>_. Inr (udpTo (\<lambda>d. Some (rev d)) ''127.0.0.1:19132'')" "\<lambda>d. Some (rev d)" "''127.0.0.1:19132''"
      "\<lambda>_. 0" 0 "[([1, 2], ''::1'')]" ErrClosed "[]"] by simp

definition exampleRelaySystem :: relaySystem where
  "exampleRelaySystem =
     \<lparr>rs_rawControl = Inr 7, rs_setsockopt = (\<lambda>_ _ _ _. Inr ()), rs_bind = (\<lambda>_ _. Inr ()), rs_resolveUDPAddr = (\<lambda>_ a. Inr a)\<rparr>"

theorem relay_listens_on_ipv6_only_witness:
  "fst (newUDPIPv6Relay setIPv6Only exampleRelaySystem ''::1'' 49133 ''127.0.0.1'' 49132) \<in>
     {[OptionSet 7 41 26 1, Bound network ''[::1]:49133''] | network. network \<in> {''tcp6'', ''udp6''}}"
proof -
  have "snd (newUDPIPv6Relay setIPv6Only exampleRelaySystem ''::1'' 49133 ''127.0.0.1'' 49132) = Inr (''[::1]:49133'', ''127.0.0.1:49132'')"
    by code_simp
  then show ?thesis
    using relay_listens_on_ipv6_only [where relay = "newUDPIPv6Relay setIPv6Only" and sys = exampleRelaySystem
        and listenHost = "''::1''" and listenPort = 49133 and targetHost = "''127.0.0.1''" and targetPort = 49132]
    by (auto simp: exampleRelaySystem_def split: prod.splits)
qed

end
