(* ===== verification/Release.thy ===== *)
theory Release
  imports Cli Staging_Serve Go_Unmarshal Release_Archive Release_Relay
begin

text \<open>
  \<^verbatim>\<open>cmd/release-integration\<close>: the program that runs a released binary against the staging server. Its flags and
  their checks, the four probes with their arguments and the decoding of their output, the version check, the
  container, the wait for a listener, the start of the backends, and the order of all this with the cleanup. The
  archives and the relays have theories of their own. The names the package shares with the client carry the prefix
  \<open>release_\<close>.
\<close>

section \<open>Definitions\<close>

subsection \<open>Settings\<close>

record config =
  archiveGlob :: string
  backend :: string
  binaryName :: string
  binaryPath :: string
  containerCLI :: string
  containerName :: string
  expectedVersion :: string
  imageArchive :: string
  imageTag :: string
  ipv4Host :: string
  ipv6Host :: string
  javaIPv4Port :: int
  javaIPv6Port :: int
  bedrockIPv4Port :: int
  bedrockIPv6Port :: int
  probeTimeout :: int
  serverBinary :: string

text \<open>The defaults of the flags; the name of the container comes from the process.\<close>

definition release_bindFlags :: "string \<Rightarrow> config" where
  "release_bindFlags container =
     \<lparr>archiveGlob = '''', backend = ''binary'', binaryName = '''', binaryPath = '''', containerCLI = ''docker'', containerName = container,
      expectedVersion = '''', imageArchive = '''', imageTag = ''minecraft-staging-image:ci'', ipv4Host = ''127.0.0.1'', ipv6Host = ''::1'',
      javaIPv4Port = 45565, javaIPv6Port = 45566, bedrockIPv4Port = 49132, bedrockIPv6Port = 49133,
      probeTimeout = 12 * 1000000000, serverBinary = ''''\<rparr>"

definition release_flags :: "(real \<Rightarrow> real) \<Rightarrow> (string \<times> config flagSetter) list" where
  "release_flags rnd =
     [(''backend'', stringFlag (\<lambda>v cfg. cfg\<lparr>backend := v\<rparr>)),
      (''binary-archive-glob'', stringFlag (\<lambda>v cfg. cfg\<lparr>archiveGlob := v\<rparr>)),
      (''binary-name'', stringFlag (\<lambda>v cfg. cfg\<lparr>binaryName := v\<rparr>)),
      (''binary'', stringFlag (\<lambda>v cfg. cfg\<lparr>binaryPath := v\<rparr>)),
      (''container-cli'', stringFlag (\<lambda>v cfg. cfg\<lparr>containerCLI := v\<rparr>)),
      (''container-name'', stringFlag (\<lambda>v cfg. cfg\<lparr>containerName := v\<rparr>)),
      (''expected-version'', stringFlag (\<lambda>v cfg. cfg\<lparr>expectedVersion := v\<rparr>)),
      (''image-archive'', stringFlag (\<lambda>v cfg. cfg\<lparr>imageArchive := v\<rparr>)),
      (''image-tag'', stringFlag (\<lambda>v cfg. cfg\<lparr>imageTag := v\<rparr>)),
      (''ipv4-host'', stringFlag (\<lambda>v cfg. cfg\<lparr>ipv4Host := v\<rparr>)),
      (''ipv6-host'', stringFlag (\<lambda>v cfg. cfg\<lparr>ipv6Host := v\<rparr>)),
      (''java-ipv4-port'', intFlag (\<lambda>v cfg. cfg\<lparr>javaIPv4Port := v\<rparr>)),
      (''java-ipv6-port'', intFlag (\<lambda>v cfg. cfg\<lparr>javaIPv6Port := v\<rparr>)),
      (''bedrock-ipv4-port'', intFlag (\<lambda>v cfg. cfg\<lparr>bedrockIPv4Port := v\<rparr>)),
      (''bedrock-ipv6-port'', intFlag (\<lambda>v cfg. cfg\<lparr>bedrockIPv6Port := v\<rparr>)),
      (''probe-timeout'', durationFlag rnd (\<lambda>v cfg. cfg\<lparr>probeTimeout := v\<rparr>)),
      (''server-binary'', stringFlag (\<lambda>v cfg. cfg\<lparr>serverBinary := v\<rparr>))]"

record probeSpec =
  sp_label :: string
  editionArg :: string
  familyFlag :: string
  sp_host :: string
  sp_port :: int

definition probeSpecs :: "config \<Rightarrow> probeSpec list" where
  "probeSpecs cfg =
     [\<lparr>sp_label = ''java-ipv4'', editionArg = '''', familyFlag = ''-4'', sp_host = ipv4Host cfg, sp_port = javaIPv4Port cfg\<rparr>,
      \<lparr>sp_label = ''java-ipv6'', editionArg = '''', familyFlag = ''-6'', sp_host = ipv6Host cfg, sp_port = javaIPv6Port cfg\<rparr>,
      \<lparr>sp_label = ''bedrock-ipv4'', editionArg = ''--bedrock'', familyFlag = ''-4'', sp_host = ipv4Host cfg, sp_port = bedrockIPv4Port cfg\<rparr>,
      \<lparr>sp_label = ''bedrock-ipv6'', editionArg = ''--bedrock'', familyFlag = ''-6'', sp_host = ipv6Host cfg, sp_port = bedrockIPv6Port cfg\<rparr>]"

definition validatePort :: "string \<Rightarrow> int \<Rightarrow> unit result" where
  "validatePort flagName port =
     (if port < 1 \<or> port > 65535 then
        Inl (Errorf ''invalid %s: %d (must be between 1 and 65535)'' [AStr flagName, AInt port])
      else Inr ())"

fun validatePorts :: "(string \<times> int) list \<Rightarrow> unit result" where
  "validatePorts [] = Inr ()"
| "validatePorts ((flagName, port) # rest) = ebind (validatePort flagName port) (\<lambda>_. validatePorts rest)"

definition validateConfig :: "config \<Rightarrow> unit result" where
  "validateConfig cfg =
     (let hasBinaryPath = (trimSpace (binaryPath cfg) \<noteq> '''');
          hasArchiveGlob = (trimSpace (archiveGlob cfg) \<noteq> '''');
          hasBinaryName = (trimSpace (binaryName cfg) \<noteq> '''')
      in if hasBinaryPath \<and> (hasArchiveGlob \<or> hasBinaryName) then
           Inl (ErrNew ''choose either -binary or -binary-archive-glob/-binary-name, not both'')
         else if \<not> hasBinaryPath \<and> \<not> hasArchiveGlob \<and> \<not> hasBinaryName then
           Inl (ErrNew ''either -binary or both -binary-archive-glob and -binary-name are required'')
         else if \<not> hasBinaryPath \<and> (\<not> hasArchiveGlob \<or> \<not> hasBinaryName) then
           Inl (ErrNew ''both -binary-archive-glob and -binary-name are required when -binary is not set'')
         else if probeTimeout cfg \<le> 0 then Inl (ErrNew ''invalid -probe-timeout: must be greater than 0'')
         else
           ebind (validatePorts
             [(''-java-ipv4-port'', javaIPv4Port cfg), (''-java-ipv6-port'', javaIPv6Port cfg),
              (''-bedrock-ipv4-port'', bedrockIPv4Port cfg), (''-bedrock-ipv6-port'', bedrockIPv6Port cfg)]) (\<lambda>_.
             if backend cfg = ''binary'' then
               (if trimSpace (serverBinary cfg) = '''' then Inl (ErrNew ''missing -server-binary for -backend=binary'')
                else Inr ())
             else if backend cfg = ''container'' then
               (if trimSpace (containerCLI cfg) = '''' then Inl (ErrNew ''missing -container-cli for -backend=container'')
                else if trimSpace (containerName cfg) = '''' then Inl (ErrNew ''missing -container-name for -backend=container'')
                else Inr ())
             else Inl (Errorf ''unsupported -backend %q'' [AStr (backend cfg)])))"

subsection \<open>Commands\<close>

text \<open>
  A command that ran: its error, where it exited with one (\<^verbatim>\<open>exec.ExitError\<close>, with what it wrote to the second
  stream) or could not run, and its output.
\<close>

datatype execErr = ExitError goerr string | OtherError goerr

type_synonym commandRunner = "string \<Rightarrow> string list \<Rightarrow> execErr + string"

text \<open>\<^verbatim>\<open>CombinedOutput\<close> gives the output in both cases.\<close>

type_synonym combinedRunner = "string \<Rightarrow> string list \<Rightarrow> string \<times> execErr option"

fun execError :: "execErr \<Rightarrow> goerr" where
  "execError (ExitError e _) = e"
| "execError (OtherError e) = e"

definition release_versionLine :: "string \<Rightarrow> string" where
  "release_versionLine version = ''minecraft-ping '' @ version"

definition assertVersion :: "commandRunner \<Rightarrow> string \<Rightarrow> string \<Rightarrow> unit result" where
  "assertVersion exec path expected =
     (case exec path [''-V''] of
        Inl (ExitError e stderr) \<Rightarrow> Inl (Wrapf ''version check failed: %w: %s'' [AStr (trimSpace stderr)] e)
      | Inl (OtherError e) \<Rightarrow> Inl (Wrapf ''run version check: %w'' [] e)
      | Inr stdout \<Rightarrow>
          (let got = trimSpace stdout; want = release_versionLine expected in
           if got \<noteq> want then Inl (Errorf ''version check failed: got %q, want %q'' [AStr got, AStr want])
           else Inr ()))"

text \<open>\<^verbatim>\<open>Seconds\<close> of a duration: the whole seconds and the rest, as floating point numbers.\<close>

definition durationSeconds :: "(real \<Rightarrow> real) \<Rightarrow> int \<Rightarrow> real" where
  "durationSeconds rnd d =
     (let sec = (if d < 0 then - (- d div 1000000000) else d div 1000000000);
          nsec = d - sec * 1000000000
      in rnd (rnd (of_int sec) + rnd (rnd (of_int nsec) / 1000000000)))"

definition formatProbeTimeout :: "(real \<Rightarrow> real) \<Rightarrow> int \<Rightarrow> string" where
  "formatProbeTimeout rnd timeout =
     trimRightChar CHR ''.'' (trimRightChar CHR ''0'' (fixedText 3 (durationSeconds rnd timeout)))"

definition probeArgs :: "(real \<Rightarrow> real) \<Rightarrow> int \<Rightarrow> probeSpec \<Rightarrow> string list" where
  "probeArgs rnd timeout spec =
     [''-j'', ''--allow-private'', ''-W'', formatProbeTimeout rnd timeout] @
     (if editionArg spec \<noteq> '''' then [editionArg spec] else []) @
     [familyFlag spec, joinHostPort (sp_host spec) (itoa (sp_port spec))]"

record release_pingResult =
  rp_Server :: string
  rp_LatencyMS :: int

text \<open>
  \<^verbatim>\<open>json.Unmarshal\<close> into the result: a member sets the field of its name, other members are skipped, and the first
  error of a value is the error of the call. The text of a syntax error is not kept.
\<close>

fun storeMembers :: "(string \<times> string) list \<Rightarrow> release_pingResult \<Rightarrow> goerr option \<Rightarrow> release_pingResult result" where
  "storeMembers [] r failed = (case failed of Some e \<Rightarrow> Inl e | None \<Rightarrow> Inr r)"
| "storeMembers ((key, v) # rest) r failed =
     (if sameName ''server'' key then
        (case storeString v (rp_Server r) of
           Inl e \<Rightarrow> storeMembers rest r (orElse failed e)
         | Inr x \<Rightarrow> storeMembers rest (r\<lparr>rp_Server := x\<rparr>) failed)
      else if sameName ''latency_ms'' key then
        (case storeInt64 v (rp_LatencyMS r) of
           Inl e \<Rightarrow> storeMembers rest r (orElse failed e)
         | Inr x \<Rightarrow> storeMembers rest (r\<lparr>rp_LatencyMS := x\<rparr>) failed)
      else storeMembers rest r failed)"

definition unmarshalPingResult :: "string \<Rightarrow> release_pingResult result" where
  "unmarshalPingResult s =
     (if \<not> jsonValid s then Inl (ErrNew ''json: syntax error'')
      else
        (let zero = \<lparr>rp_Server = '''', rp_LatencyMS = 0\<rparr>; body = trimJson s in
         if hd body = CHR ''{'' then storeMembers (objectMembers s) zero None
         else if body = ''null'' then Inr zero
         else Inl (typeError body ''main.pingResult'')))"

definition runProbe ::
  "(real \<Rightarrow> real) \<Rightarrow> commandRunner \<Rightarrow> string \<Rightarrow> int \<Rightarrow> probeSpec \<Rightarrow> release_pingResult result" where
  "runProbe rnd exec path timeout spec =
     (case exec path (probeArgs rnd timeout spec) of
        Inl (ExitError e stderr) \<Rightarrow> Inl (Wrapf ''command failed: %w: %s'' [AStr (trimSpace stderr)] e)
      | Inl (OtherError e) \<Rightarrow> Inl e
      | Inr stdout \<Rightarrow>
          (case unmarshalPingResult stdout of
             Inl e \<Rightarrow> Inl (Wrapf ''decode probe output %q: %w'' [AStr (trimSpace stdout)] e)
           | Inr r \<Rightarrow> Inr r))"

fun containsText :: "string \<Rightarrow> string \<Rightarrow> bool" where
  "containsText [] p \<longleftrightarrow> p = []"
| "containsText (c # s) p \<longleftrightarrow> hasPrefix (c # s) p \<or> containsText s p"

definition isContainerNotFoundError :: "string \<Rightarrow> bool" where
  "isContainerNotFoundError message =
     (let lower = toLower message in
      containsText lower ''no such container'' \<or> containsText lower ''no container with name or id'')"

definition removeContainer :: "combinedRunner \<Rightarrow> string \<Rightarrow> string \<Rightarrow> unit result" where
  "removeContainer exec cli container =
     (case exec cli [''rm'', ''-f'', container] of
        (output, Some (ExitError e _)) \<Rightarrow>
          (let message = trimSpace output in
           if isContainerNotFoundError message then Inr ()
           else Inl (Wrapf ''%s rm -f %s: %w: %s'' [AStr cli, AStr container, AStr message] e))
      | (output, Some (OtherError e)) \<Rightarrow> Inl e
      | (output, None) \<Rightarrow> Inr ())"

definition startContainer :: "combinedRunner \<Rightarrow> config \<Rightarrow> unit result" where
  "startContainer exec cfg =
     (case exec (containerCLI cfg)
        [''run'', ''-d'', ''--name'', containerName cfg,
         ''-p'', ''127.0.0.1:'' @ itoa (javaIPv4Port cfg) @ '':25565/tcp'',
         ''-p'', ''127.0.0.1:'' @ itoa (bedrockIPv4Port cfg) @ '':19132/udp'',
         imageTag cfg] of
        (output, Some e) \<Rightarrow> Inl (Wrapf ''%s run: %w: %s'' [AStr (containerCLI cfg), AStr (trimSpace output)] (execError e))
      | (output, None) \<Rightarrow> Inr ())"

text \<open>The image goes to the tool through its standard input; the archive and its decoder are closed on every path.\<close>

definition loadImage ::
  "archiveSystem \<Rightarrow> (byte list \<Rightarrow> combinedRunner) \<Rightarrow> string \<Rightarrow> string \<Rightarrow> use list \<times> unit result" where
  "loadImage sys execWithInput cli archivePath =
     (if archivePath = '''' then ([], Inr ())
      else
        (case openReadOnlyFile sys archivePath of
           (uses, Inl e) \<Rightarrow> (uses, Inl (Wrapf ''open image archive: %w'' [] e))
         | (uses, Inr archive) \<Rightarrow>
             (case ar_gzip sys archive of
                Inl e \<Rightarrow> (uses @ [Release (Archive archivePath)], Inl (Wrapf ''open image archive gzip stream: %w'' [] e))
              | Inr stream \<Rightarrow>
                  (uses @ [Acquire GzipStream, Release GzipStream, Release (Archive archivePath)],
                   (case execWithInput stream cli [''load''] of
                      (output, Some e) \<Rightarrow> Inl (Wrapf ''%s load: %w: %s'' [AStr cli, AStr (trimSpace output)] (execError e))
                    | (output, None) \<Rightarrow> Inr ())))))"

subsection \<open>Waiting for a listener\<close>

definition listenerReadyTimeout :: int where
  "listenerReadyTimeout = 2 * 60 * 1000000000"

definition listenerProbeTimeout :: int where
  "listenerProbeTimeout = 2 * 1000000000"

text \<open>
  The loop: the clock is read once before it and once for each round; \<open>probe i\<close> is the probe of the \<open>i\<close>-th
  round, \<open>ctxEnds i\<close> the error of a context that ends before the pause after it is over. No result means that
  the loop has not ended within its rounds.
\<close>

fun waitLoop ::
  "(nat \<Rightarrow> int) \<Rightarrow> int \<Rightarrow> (nat \<Rightarrow> unit result) \<Rightarrow> (nat \<Rightarrow> goerr option) \<Rightarrow> goerr \<Rightarrow> nat \<Rightarrow> nat \<Rightarrow> unit result option" where
  "waitLoop now deadline probe ctxEnds timedOut 0 i = None"
| "waitLoop now deadline probe ctxEnds timedOut (Suc fuel) i =
     (if now (i + 1) < deadline then
        (case probe i of
           Inr _ \<Rightarrow> Some (Inr ())
         | Inl _ \<Rightarrow>
             (case ctxEnds i of
                Some e \<Rightarrow> Some (Inl e)
              | None \<Rightarrow> waitLoop now deadline probe ctxEnds timedOut fuel (i + 1)))
      else Some (Inl timedOut))"

definition waitForListener ::
  "(nat \<Rightarrow> int) \<Rightarrow> (nat \<Rightarrow> goerr option) \<Rightarrow> nat \<Rightarrow> string \<Rightarrow> (nat \<Rightarrow> string \<Rightarrow> string \<Rightarrow> int \<Rightarrow> int \<Rightarrow> unit result) \<Rightarrow>
     string \<Rightarrow> string \<Rightarrow> int \<Rightarrow> unit result option" where
  "waitForListener now ctxEnds fuel kind probe network host port =
     (let address = joinHostPort host (itoa port);
          deadline = now 0 + listenerReadyTimeout
      in waitLoop now deadline (\<lambda>i. probe i network host port listenerProbeTimeout) ctxEnds
           (Errorf ''timed out waiting for %s %s listener on %s'' [AStr kind, AStr network, AStr address]) fuel 0)"

text \<open>The probes of the package \<^verbatim>\<open>stagingserver\<close>, with the dials and the clock they meet in each round.\<close>

definition waitForJava ::
  "(nat \<Rightarrow> int) \<Rightarrow> (nat \<Rightarrow> goerr option) \<Rightarrow> nat \<Rightarrow> (nat \<Rightarrow> int \<Rightarrow> string \<Rightarrow> string \<Rightarrow> conn result) \<Rightarrow> (nat \<Rightarrow> int) \<Rightarrow>
     string \<Rightarrow> string \<Rightarrow> int \<Rightarrow> unit result option" where
  "waitForJava now ctxEnds fuel dial probeNow =
     waitForListener now ctxEnds fuel ''java'' (\<lambda>i network host port timeout. Probe (dial i) (probeNow i) network host port timeout)"

definition waitForBedrock ::
  "(nat \<Rightarrow> int) \<Rightarrow> (nat \<Rightarrow> goerr option) \<Rightarrow> nat \<Rightarrow> (nat \<Rightarrow> int \<Rightarrow> string \<Rightarrow> string \<Rightarrow> conn result) \<Rightarrow> (nat \<Rightarrow> nat \<Rightarrow> int) \<Rightarrow>
     string \<Rightarrow> string \<Rightarrow> int \<Rightarrow> unit result option" where
  "waitForBedrock now ctxEnds fuel dial probeNow =
     waitForListener now ctxEnds fuel ''bedrock'' (\<lambda>i network host port timeout. ProbeBedrock (dial i) (probeNow i) network host port timeout)"

subsection \<open>The run\<close>

text \<open>
  The functions \<^verbatim>\<open>run\<close> calls through the variables of the package, which its tests replace. A wait may not end.
\<close>

record releaseHooks =
  hk_resolveSingleFile :: "string \<Rightarrow> string result"
  hk_versionFromArchive :: "string \<Rightarrow> string result"
  hk_extractBinary :: "string \<Rightarrow> string \<Rightarrow> (string \<times> string) result"
  hk_assertVersion :: "string \<Rightarrow> string \<Rightarrow> unit result"
  hk_startServer :: "string \<Rightarrow> string list \<Rightarrow> unit result"
  hk_waitForJava :: "string \<Rightarrow> string \<Rightarrow> int \<Rightarrow> unit result option"
  hk_waitForBedrock :: "string \<Rightarrow> string \<Rightarrow> int \<Rightarrow> unit result option"
  hk_loadImage :: "string \<Rightarrow> string \<Rightarrow> unit result"
  hk_removeContainer :: "string \<Rightarrow> string \<Rightarrow> unit result"
  hk_startContainer :: "config \<Rightarrow> unit result"
  hk_newIPv6Relay :: "string \<Rightarrow> int \<Rightarrow> string \<Rightarrow> int \<Rightarrow> (string \<times> string) result"
  hk_newUDPIPv6Relay :: "string \<Rightarrow> int \<Rightarrow> string \<Rightarrow> int \<Rightarrow> (string \<times> string) result"
  hk_runProbe :: "string \<Rightarrow> int \<Rightarrow> probeSpec \<Rightarrow> release_pingResult result"

text \<open>What \<^verbatim>\<open>runCleanup\<close> undoes; the closures are listed in the order they were appended.\<close>

datatype cleanup = RemoveTempDir string | StopServer | RemoveContainer string string | CloseRelay | CloseUDPRelay

definition runCleanup :: "cleanup list \<Rightarrow> cleanup list" where
  "runCleanup actions = rev actions"

text \<open>The waits one after the other, up to the first error.\<close>

fun waitInTurn :: "unit result option list \<Rightarrow> unit result option" where
  "waitInTurn [] = Some (Inr ())"
| "waitInTurn (wait # waits) =
     (case wait of None \<Rightarrow> None | Some (Inl e) \<Rightarrow> Some (Inl e) | Some (Inr _) \<Rightarrow> waitInTurn waits)"

definition waitForAll :: "releaseHooks \<Rightarrow> config \<Rightarrow> unit result option" where
  "waitForAll hooks cfg =
     waitInTurn
       [hk_waitForJava hooks ''tcp4'' (ipv4Host cfg) (javaIPv4Port cfg),
        hk_waitForJava hooks ''tcp6'' (ipv6Host cfg) (javaIPv6Port cfg),
        hk_waitForBedrock hooks ''udp4'' (ipv4Host cfg) (bedrockIPv4Port cfg),
        hk_waitForBedrock hooks ''udp6'' (ipv6Host cfg) (bedrockIPv6Port cfg)]"

definition serverArgs :: "config \<Rightarrow> string list" where
  "serverArgs cfg =
     [''-listen4'', joinHostPort (ipv4Host cfg) (itoa (javaIPv4Port cfg)),
      ''-listen6'', joinHostPort (ipv6Host cfg) (itoa (javaIPv6Port cfg)),
      ''-bedrock-listen4'', joinHostPort (ipv4Host cfg) (itoa (bedrockIPv4Port cfg)),
      ''-bedrock-listen6'', joinHostPort (ipv6Host cfg) (itoa (bedrockIPv6Port cfg))]"

definition startBinaryBackend :: "releaseHooks \<Rightarrow> config \<Rightarrow> cleanup list \<Rightarrow> (unit result \<times> cleanup list) option" where
  "startBinaryBackend hooks cfg actions =
     (case hk_startServer hooks (serverBinary cfg) (serverArgs cfg) of
        Inl e \<Rightarrow> Some (Inl (Wrapf ''start staging backend: %w'' [] e), actions)
      | Inr _ \<Rightarrow> map_option (\<lambda>r. (r, actions @ [StopServer])) (waitForAll hooks cfg))"

definition startContainerBackend :: "releaseHooks \<Rightarrow> config \<Rightarrow> cleanup list \<Rightarrow> (unit result \<times> cleanup list) option" where
  "startContainerBackend hooks cfg actions0 =
     (let actions = actions0 @ [RemoveContainer (containerCLI cfg) (containerName cfg)] in
      case ebind (hk_loadImage hooks (containerCLI cfg) (imageArchive cfg)) (\<lambda>_.
           ebind (hk_removeContainer hooks (containerCLI cfg) (containerName cfg)) (\<lambda>_.
             hk_startContainer hooks cfg)) of
        Inl e \<Rightarrow> Some (Inl e, actions)
      | Inr _ \<Rightarrow>
          (case hk_newIPv6Relay hooks (ipv6Host cfg) (javaIPv6Port cfg) (ipv4Host cfg) (javaIPv4Port cfg) of
             Inl e \<Rightarrow> Some (Inl e, actions)
           | Inr _ \<Rightarrow>
               (case hk_newUDPIPv6Relay hooks (ipv6Host cfg) (bedrockIPv6Port cfg) (ipv4Host cfg) (bedrockIPv4Port cfg) of
                  Inl e \<Rightarrow> Some (Inl e, actions @ [CloseRelay])
                | Inr _ \<Rightarrow> map_option (\<lambda>r. (r, actions @ [CloseRelay, CloseUDPRelay])) (waitForAll hooks cfg))))"

definition startBackend :: "releaseHooks \<Rightarrow> config \<Rightarrow> cleanup list \<Rightarrow> (unit result \<times> cleanup list) option" where
  "startBackend hooks cfg actions =
     (if backend cfg = ''binary'' then startBinaryBackend hooks cfg actions
      else if backend cfg = ''container'' then startContainerBackend hooks cfg actions
      else Some (Inl (Errorf ''unsupported backend %q'' [AStr (backend cfg)]), actions))"

fun runProbes :: "releaseHooks \<Rightarrow> string \<Rightarrow> int \<Rightarrow> probeSpec list \<Rightarrow> unit result" where
  "runProbes hooks path timeout [] = Inr ()"
| "runProbes hooks path timeout (spec # rest) =
     (case hk_runProbe hooks path timeout spec of
        Inl e \<Rightarrow> Inl (Wrapf ''%s probe failed: %w'' [AStr (sp_label spec)] e)
      | Inr _ \<Rightarrow> runProbes hooks path timeout rest)"

text \<open>The binary to run: the extracted one with its expected version, or the given one.\<close>

definition releaseBinary :: "releaseHooks \<Rightarrow> config \<Rightarrow> (string \<times> config \<times> cleanup list) result" where
  "releaseBinary hooks cfg =
     (if archiveGlob cfg \<noteq> '''' then
        ebind (hk_resolveSingleFile hooks (archiveGlob cfg)) (\<lambda>archivePath.
        ebind (if expectedVersion cfg = '''' then hk_versionFromArchive hooks archivePath else Inr (expectedVersion cfg)) (\<lambda>version.
        ebind (hk_extractBinary hooks archivePath (binaryName cfg)) (\<lambda>(path, tempDir).
          Inr (path, cfg\<lparr>expectedVersion := version\<rparr>, [RemoveTempDir tempDir]))))
      else Inr (binaryPath cfg, cfg, []))"

text \<open>The result and the cleanup that was done, in its order; nothing while a wait goes on.\<close>

definition release_run :: "releaseHooks \<Rightarrow> config \<Rightarrow> (unit result \<times> cleanup list) option" where
  "release_run hooks cfg0 =
     (case releaseBinary hooks cfg0 of
        Inl e \<Rightarrow> Some (Inl e, [])
      | Inr (path, cfg, actions) \<Rightarrow>
          (case (if expectedVersion cfg \<noteq> '''' then hk_assertVersion hooks path (expectedVersion cfg) else Inr ()) of
             Inl e \<Rightarrow> Some (Inl e, runCleanup actions)
           | Inr _ \<Rightarrow>
               (case startBackend hooks cfg actions of
                  None \<Rightarrow> None
                | Some (Inl e, actions') \<Rightarrow> Some (Inl e, runCleanup actions')
                | Some (Inr _, actions') \<Rightarrow>
                    Some (runProbes hooks path (probeTimeout cfg) (probeSpecs cfg), runCleanup actions'))))"

text \<open>
  What the process meets: patterns, archives, commands (with and without the error output apart, and the start of the
  server), sockets, and for the wait on each of the four networks its clock, context, dials and the clock of its probes.
\<close>

record releaseWorld =
  rw_rnd :: "real \<Rightarrow> real"
  rw_Glob :: "string \<Rightarrow> string list result"
  rw_archives :: archiveSystem
  rw_exec :: commandRunner
  rw_combined :: "byte list \<Rightarrow> combinedRunner"
  rw_start :: "string \<Rightarrow> string list \<Rightarrow> unit result"
  rw_only :: onlyIPv6
  rw_sockets :: relaySystem
  rw_now :: "string \<Rightarrow> nat \<Rightarrow> int"
  rw_ctxEnds :: "string \<Rightarrow> nat \<Rightarrow> goerr option"
  rw_dial :: "string \<Rightarrow> nat \<Rightarrow> int \<Rightarrow> string \<Rightarrow> string \<Rightarrow> conn result"
  rw_probeNow :: "string \<Rightarrow> nat \<Rightarrow> nat \<Rightarrow> int"

text \<open>The values the package gives its variables; \<open>fuel\<close> bounds the rounds of a wait.\<close>

definition packageHooks :: "releaseWorld \<Rightarrow> nat \<Rightarrow> releaseHooks" where
  "packageHooks w fuel =
     \<lparr>hk_resolveSingleFile = resolveSingleFile (rw_Glob w),
      hk_versionFromArchive = versionFromArchiveName,
      hk_extractBinary = (\<lambda>archivePath name. snd (snd (extractBinary (rw_archives w) archivePath name))),
      hk_assertVersion = assertVersion (rw_exec w),
      hk_startServer = rw_start w,
      hk_waitForJava = (\<lambda>network. waitForJava (rw_now w network) (rw_ctxEnds w network) fuel (rw_dial w network)
        (\<lambda>i. rw_probeNow w network i 0) network),
      hk_waitForBedrock = (\<lambda>network. waitForBedrock (rw_now w network) (rw_ctxEnds w network) fuel (rw_dial w network)
        (rw_probeNow w network) network),
      hk_loadImage = (\<lambda>cli archivePath. snd (loadImage (rw_archives w) (rw_combined w) cli archivePath)),
      hk_removeContainer = removeContainer (rw_combined w []),
      hk_startContainer = startContainer (rw_combined w []),
      hk_newIPv6Relay = (\<lambda>host port target targetPort. snd (newIPv6Relay (rw_only w) (rw_sockets w) host port target targetPort)),
      hk_newUDPIPv6Relay = (\<lambda>host port target targetPort. snd (newUDPIPv6Relay (rw_only w) (rw_sockets w) host port target targetPort)),
      hk_runProbe = runProbe (rw_rnd w) (rw_exec w)\<rparr>"

subsection \<open>The programs\<close>

text \<open>
  \<^verbatim>\<open>runCLI\<close> with the number of the process: the exit code, and the error that is logged; nothing while the run goes on.
\<close>

definition runCLI ::
  "(real \<Rightarrow> real) \<Rightarrow> int \<Rightarrow> (config \<Rightarrow> unit result option) \<Rightarrow> string list \<Rightarrow> (int \<times> goerr option) option" where
  "runCLI rnd pid releaseRun args =
     (let cfg0 = release_bindFlags (''minecraft-ping-release-integration-'' @ itoa pid) in
      case parseFlags (release_flags rnd) cfg0 args of
        Inl e \<Rightarrow> Some (2, Some e)
      | Inr cfg \<Rightarrow>
          (case validateConfig cfg of
             Inl e \<Rightarrow> Some (2, Some e)
           | Inr _ \<Rightarrow>
               map_option (\<lambda>r. case r of Inl e \<Rightarrow> (1, Some e) | Inr _ \<Rightarrow> (0, None)) (releaseRun cfg)))"

text \<open>The first argument is the name of the program, which is always there.\<close>

definition mainWithArgs ::
  "releaseWorld \<Rightarrow> nat \<Rightarrow> int \<Rightarrow> string list \<Rightarrow> (int \<times> goerr option) option" where
  "mainWithArgs w fuel pid args =
     runCLI (rw_rnd w) pid (\<lambda>cfg. map_option fst (release_run (packageHooks w fuel) cfg)) (drop 1 args)"

definition release_main :: "releaseWorld \<Rightarrow> nat \<Rightarrow> int \<Rightarrow> string list \<Rightarrow> int option" where
  "release_main w fuel pid args = map_option fst (mainWithArgs w fuel pid args)"

definition server_flags :: "(real \<Rightarrow> real) \<Rightarrow> (string \<times> Config flagSetter) list" where
  "server_flags rnd =
     [(''listen4'', stringFlag (\<lambda>v cfg. cfg\<lparr>ListenIPv4 := v\<rparr>)),
      (''listen6'', stringFlag (\<lambda>v cfg. cfg\<lparr>ListenIPv6 := v\<rparr>)),
      (''bedrock-listen4'', stringFlag (\<lambda>v cfg. cfg\<lparr>BedrockListenIPv4 := v\<rparr>)),
      (''bedrock-listen6'', stringFlag (\<lambda>v cfg. cfg\<lparr>BedrockListenIPv6 := v\<rparr>)),
      (''status-json'', stringFlag (\<lambda>v cfg. cfg\<lparr>StatusJSON := v\<rparr>)),
      (''bedrock-status'', stringFlag (\<lambda>v cfg. cfg\<lparr>BedrockStatus := v\<rparr>)),
      (''deadline'', durationFlag rnd (\<lambda>v cfg. cfg\<lparr>ConnectionDeadline := v\<rparr>))]"

text \<open>
  \<^verbatim>\<open>main\<close> of \<^verbatim>\<open>cmd/staging-server\<close>: \<^verbatim>\<open>flag.Parse\<close> ends the process with 0 after a request for help and with 2 after
  another error; \<open>serve\<close> is \<^verbatim>\<open>stagingserver.Serve\<close>.
\<close>

definition server_main :: "(real \<Rightarrow> real) \<Rightarrow> (Config \<Rightarrow> unit result) \<Rightarrow> string list \<Rightarrow> int" where
  "server_main rnd serve args =
     (case parseFlags (server_flags rnd) bindFlags args of
        Inl e \<Rightarrow> if e = flagErrHelp then 0 else 2
      | Inr cfg \<Rightarrow> serverExitCode (serve cfg))"

end
