(* ===== verification/Release_Probe.thy ===== *)
theory Release_Probe
  imports Release
begin

text \<open>
  The probes of the release check against the binary: the decoder reads what the client prints, the parser of the client
  reads the arguments that are written, and together they make the result of a probe that of the binary's run. The
  version check in the same way.
\<close>


section \<open>Lemmas\<close>

subsection \<open>The output of a probe\<close>

lemma trimJson_keeps: "s \<noteq> [] \<Longrightarrow> \<not> jsonSpace (hd s) \<Longrightarrow> \<not> jsonSpace (last s) \<Longrightarrow> trimJson s = s"
  using dropWhile_eq_self_iff [of jsonSpace s] dropWhile_eq_self_iff [of jsonSpace "rev s"] by (simp add: trimJson_def hd_rev)

lemma trimJson_jsonString: "trimJson (jsonString w) = jsonString w"
  by (rule trimJson_keeps) (simp_all add: jsonString_def jsonSpace_def)

lemma literalText_jsonString: "literalText (jsonString w) = jsonUnquote (jsonStringBody w)"
  by (simp add: literalText_def jsonString_def butlast_append)

lemma digit_not_space: "digitVal c \<noteq> None \<Longrightarrow> \<not> jsonSpace c"
  by (auto simp: jsonSpace_def digitVal_def)

lemma trimJson_natText: "0 \<le> n \<Longrightarrow> trimJson (natText n) = natText n"
  by (rule trimJson_keeps) (simp_all add: digit_not_space natText_digits)

lemma storeInt64_natText:
  assumes "0 \<le> n" and "n < 2 ^ 63"
  shows "storeInt64 (natText n) old = Inr n"
proof -
  have "digitVal (hd (natText n)) \<noteq> None" using assms(1) natText_digits [of n "hd (natText n)"] by simp
  moreover from this have "natText n \<noteq> ''null''" by (auto simp: digitVal_def)
  moreover have "atoi (natText n) = Inr n" using assms atoi_itoa [of n] by (simp add: itoa_def)
  ultimately show ?thesis by (simp add: storeInt64_def isDigit_def emap_def)
qed

lemma storeString_jsonString: "storeString (jsonString w) old = Inr (jsonUnquote (jsonStringBody w))"
  by (simp add: storeString_def literalText_jsonString) (simp add: jsonString_def)

lemma field_names:
  "jsonUnquote (jsonStringBody ''server'') = ''server''" "jsonUnquote (jsonStringBody ''latency_ms'') = ''latency_ms''"
  "sameName ''server'' ''server''" "\<not> sameName ''server'' ''latency_ms''" "sameName ''latency_ms'' ''latency_ms''"
  by code_simp+

lemma marshal_scan:
  assumes "0 < LatencyMs r"
  shows "foldl jstep (beginValue, []) (marshalPingResult r) = (endTop, [])"
    and "jsonMembers (beginValue, []) [] [] (marshalPingResult r @ rest) =
      [(jsonString ''server'', jsonString (Server r)), (jsonString ''latency_ms'', natText (LatencyMs r))]"
proof -
  have digits: "\<not> isDigit CHR ''}''" "itoa (LatencyMs r) = natText (LatencyMs r)"
    using assms by (simp_all add: isDigit_def digitVal_def itoa_def)
  note scanner = marshalPingResult_def digits stepBeginValue_def jsonSpace_def jpush_def stepZero_def jpop_def stepEndTop_def
  show "foldl jstep (beginValue, []) (marshalPingResult r) = (endTop, [])"
    using scan_natText [OF assms, of "[parseObjectValue]"] by (simp add: scanner scan_jsonString)
  show "jsonMembers (beginValue, []) [] [] (marshalPingResult r @ rest) =
      [(jsonString ''server'', jsonString (Server r)), (jsonString ''latency_ms'', natText (LatencyMs r))]"
    using members_natText [OF assms, of "[parseObjectValue]"] by (simp add: scanner members_jsonString Let_def)
qed

lemma unmarshal_marshal:
  assumes "0 < LatencyMs r" and "LatencyMs r < 2 ^ 63"
  shows "unmarshalPingResult (marshalPingResult r @ newline) =
    Inr \<lparr>rp_Server = jsonUnquote (jsonStringBody (Server r)), rp_LatencyMS = LatencyMs r\<rparr>"
proof -
  have "jsonValid (marshalPingResult r @ newline)"
    using marshal_scan(1) [OF assms(1)] by (simp add: jsonValid_def newline_def stepEndTop_def jsonSpace_def)
  moreover have "hd (trimJson (marshalPingResult r @ newline)) = CHR ''{''"
    by (simp add: trimJson_def marshalPingResult_def newline_def jsonSpace_def dropWhile_append)
  moreover have "objectMembers (marshalPingResult r @ newline) =
      [(''server'', jsonString (Server r)), (''latency_ms'', natText (LatencyMs r))]"
    using assms by (simp add: objectMembers_def marshal_scan trimJson_jsonString literalText_jsonString trimJson_natText field_names)
  ultimately show ?thesis
    using assms by (simp add: unmarshalPingResult_def storeString_jsonString storeInt64_natText field_names Let_def)
qed

subsection \<open>The arguments of a probe\<close>

lemma roundHalfEven_int: "roundHalfEven (of_int k) = k"
  by (simp add: roundHalfEven_def)

lemma trimRightChar_append: "trimRightChar c (s @ [x]) = (if x = c then trimRightChar c s else s @ [x])"
  by (simp add: trimRightChar_def)

lemma trimRightChar_natText:
  assumes "0 \<le> k" and "digitVal c = None"
  shows "trimRightChar c (natText k) = natText k"
proof -
  have "last (natText k) \<noteq> c" using natText_digits [OF assms(1), of "last (natText k)"] assms(2) by auto
  then show ?thesis
    using trimRightChar_append [of c "butlast (natText k)" "last (natText k)"] by simp
qed

lemma fixedText_whole: "0 \<le> k \<Longrightarrow> fixedText 3 (of_int k) = natText k @ ''.000''"
proof -
  assume "0 \<le> k"
  have "roundHalfEven (\<bar>of_int k :: real\<bar> * 10 ^ 3) = k * 1000"
    using roundHalfEven_int [of "k * 1000"] \<open>0 \<le> k\<close> by simp
  moreover have "padZeros 3 (natText 0) = ''000''" by code_simp
  ultimately show ?thesis using \<open>0 \<le> k\<close> by (simp add: fixedText_def Let_def)
qed

text \<open>Floating point numbers hold the whole numbers up to 2 to the 53.\<close>

definition exactOnWhole :: "(real \<Rightarrow> real) \<Rightarrow> bool" where
  "exactOnWhole rnd \<longleftrightarrow> (\<forall>n. \<bar>n\<bar> \<le> 2 ^ 53 \<longrightarrow> rnd (of_int n) = of_int n)"

lemma formatProbeTimeout_whole:
  assumes "exactOnWhole rnd" and "0 \<le> k" and "k \<le> 2 ^ 53"
  shows "formatProbeTimeout rnd (k * 1000000000) = natText k"
proof -
  have "rnd (of_int k) = of_int k" "rnd 0 = 0"
    using assms by (auto simp: exactOnWhole_def dest: spec [of _ k] spec [of _ 0])
  then have "durationSeconds rnd (k * 1000000000) = of_int k"
    using assms(2) by (simp add: durationSeconds_def Let_def)
  moreover have "trimRightChar CHR ''.'' (trimRightChar CHR ''0'' (natText k @ ''.000'')) = natText k"
    using trimRightChar_append [of "CHR ''0''" "natText k @ ''.00''" "CHR ''0''"]
      trimRightChar_append [of "CHR ''0''" "natText k @ ''.0''" "CHR ''0''"]
      trimRightChar_append [of "CHR ''0''" "natText k @ ''.''" "CHR ''0''"]
      trimRightChar_append [of "CHR ''0''" "natText k" "CHR ''.''"]
      trimRightChar_append [of "CHR ''.''" "natText k" "CHR ''.''"] trimRightChar_natText [OF assms(2), of "CHR ''.''"]
    by (simp add: digitVal_def)
  ultimately show ?thesis using assms(2) by (simp add: formatProbeTimeout_def fixedText_whole)
qed

text \<open>One argument after the other.\<close>

lemma scan_flags:
  assumes "\<not> raw_showHelp raw" and "\<not> raw_showVersion raw"
  shows "scanLoop raw (''-j'' # rest) = scanLoop (raw\<lparr>raw_json := True\<rparr>) rest"
    and "scanLoop raw (''-W'' # t # rest) = scanLoop (raw\<lparr>raw_timeout := t\<rparr>) rest"
    and "scanLoop raw (''-4'' # rest) = scanLoop (raw\<lparr>raw_forceIPv4 := True\<rparr>) rest"
    and "scanLoop raw (''-6'' # rest) = scanLoop (raw\<lparr>raw_forceIPv6 := True\<rparr>) rest"
    and "scanLoop raw (''--allow-private'' # rest) = scanLoop (raw\<lparr>raw_allowPrivate := True\<rparr>) rest"
    and "scanLoop raw (''--bedrock'' # rest) = scanLoop (raw\<lparr>raw_bedrockAlias := True\<rparr>) rest"
  by (subst scanLoop.simps(2), simp add: hasPrefix_def setShortValue_def consumeLongFlag_def assms)+

lemma scan_destination:
  assumes "\<not> hasPrefix d ''-''" and "d \<noteq> ''''" and "raw_destination raw = ''''"
  shows "scanLoop raw [d] = (raw\<lparr>raw_destination := d\<rparr>, parseStatusOK)"
proof -
  have "d \<noteq> ''--''" using assms(1) by (auto simp: hasPrefix_def)
  with assms show ?thesis by (subst scanLoop.simps(2)) (simp add: scanLoop.simps(1))
qed

lemma scanLoop_probe:
  assumes "ed \<in> {'''', ''--bedrock''}" and "fam \<in> {''-4'', ''-6''}" and "\<not> hasPrefix d ''-''" and "d \<noteq> ''''"
  shows "scanLoop zeroRaw ([''-j'', ''--allow-private'', ''-W'', t] @ (if ed \<noteq> '''' then [ed] else []) @ [fam, d]) =
    (zeroRaw\<lparr>raw_json := True, raw_allowPrivate := True, raw_timeout := t, raw_bedrockAlias := (ed \<noteq> ''''),
       raw_forceIPv4 := (fam = ''-4''), raw_forceIPv6 := (fam = ''-6''), raw_destination := d\<rparr>, parseStatusOK)"
proof -
  have zero: "\<not> raw_showHelp zeroRaw" "\<not> raw_showVersion zeroRaw" "raw_destination zeroRaw = ''''" by (simp_all add: zeroRaw_def)
  from assms(1,2) show ?thesis
    using scan_destination [OF assms(3,4)] zero by (auto simp: scan_flags) (simp_all add: zeroRaw_def)
qed

definition probeTarget :: "probeSpec \<Rightarrow> targetSpec" where
  "probeTarget spec = \<lparr>t_Host = sp_host spec, t_Port = sp_port spec, PortExplicit = True\<rparr>"

text \<open>The configuration a probe is meant to run the binary with.\<close>

definition probeConfig :: "probeSpec \<Rightarrow> int \<Rightarrow> cliConfig" where
  "probeConfig spec timeout =
     \<lparr>Target = probeTarget spec, Edition = (if editionArg spec = '''' then editionJava else editionBedrock),
      Options = \<lparr>addressFamily_of = (if familyFlag spec = ''-4'' then addressFamily4 else addressFamily6), allowPrivateAddresses = True\<rparr>,
      Count = 0, Interval = 1000000000, Deadline = 0, Timeout = timeout, Quiet = False, Timestamp = False, Numeric = False,
      JSON = True, ShowHelp = False, ShowVersion = False\<rparr>"

definition usableHost :: "string \<Rightarrow> bool" where
  "usableHost host \<longleftrightarrow> normalizeHost host = host \<and> \<not> hasPrefix host ''-'' \<and> trimSpace host \<noteq> [] \<and>
     validateServerAddress host = Inr ()"

lemma parseTimeout_whole:
  "1 \<le> k \<Longrightarrow> parseTimeout (natText k) = (if k \<le> 30 then Some (k * 1000000000) else None)"
  using parseSecondsDuration_whole [of k] by (simp add: parseTimeout_def itoa_def maxAllowedTimeout_def)

lemma parse_probeArgs:
  assumes "exactOnWhole rnd" and "1 \<le> k" and "k \<le> 2 ^ 53"
    and ed: "editionArg spec \<in> {'''', ''--bedrock''}" and fam: "familyFlag spec \<in> {''-4'', ''-6''}"
    and host: "usableHost (sp_host spec)" and port: "1 \<le> sp_port spec" "sp_port spec \<le> 65535"
  shows "parseCLIConfig (probeArgs rnd (k * 1000000000) spec) =
    (if k \<le> 30 then (Some (probeConfig spec (k * 1000000000)), parseStatusOK) else (None, parseStatusInvalid))"
proof -
  let ?d = "joinHostPort (sp_host spec) (itoa (sp_port spec))"
  have valid: "target_validate (probeTarget spec) = Inr ()" and normal: "normalizeHost (sp_host spec) = sp_host spec"
    using host port by (simp_all add: usableHost_def probeTarget_def target_validate_def)
  have nonempty: "sp_host spec \<noteq> ''''" using host trimSpace_keeps [of "[]"] by (auto simp: usableHost_def)
  have dest: "parseDestination ?d = Inr (probeTarget spec)"
    using parseDestination_port [OF valid] normal by (simp add: probeTarget_def)
  have plain: "\<not> hasPrefix ?d ''-''" "?d \<noteq> ''''"
    using host nonempty by (cases "sp_host spec") (simp_all add: joinHostPort_def usableHost_def hasPrefix_def)
  have args: "probeArgs rnd (k * 1000000000) spec =
      [''-j'', ''--allow-private'', ''-W'', natText k] @ (if editionArg spec \<noteq> '''' then [editionArg spec] else []) @
      [familyFlag spec, ?d]"
    using formatProbeTimeout_whole [OF assms(1), of k] assms(2,3) by (simp add: probeArgs_def)
  have "scanArgv (probeArgs rnd (k * 1000000000) spec) =
      (zeroRaw\<lparr>raw_json := True, raw_allowPrivate := True, raw_timeout := natText k, raw_bedrockAlias := (editionArg spec \<noteq> ''''),
        raw_forceIPv4 := (familyFlag spec = ''-4''), raw_forceIPv6 := (familyFlag spec = ''-6''), raw_destination := ?d\<rparr>,
       parseStatusOK)" (is "_ = (?raw, _)")
    unfolding scanArgv_def args scanLoop_probe [OF ed fam plain] by (simp add: zeroRaw_def)
  moreover have "normalizeCLIConfig ?raw = (if k \<le> 30 then Some (probeConfig spec (k * 1000000000)) else None)"
    using fam plain dest valid parseTimeout_whole [OF assms(2)]
    by (auto simp: normalizeCLIConfig_def zeroRaw_def chooseEdition_def optionalSetting_def probeConfig_def defaultConfig_def Let_def)
  ultimately show ?thesis by (simp add: parseCLIConfig_def)
qed

subsection \<open>The binary as a command\<close>

text \<open>
  A command that runs the program: its output when it exits with 0, an \<^verbatim>\<open>exec.ExitError\<close> with the second stream
  otherwise; a run that does not end is killed by the context.
\<close>

definition binaryRunner :: "process \<Rightarrow> nat \<Rightarrow> commandRunner" where
  "binaryRunner pr fuel path args =
     (case run pr fuel (path # args) of
        None \<Rightarrow> Inl (ExitError (ErrNew ''signal: killed'') [])
      | Some out \<Rightarrow>
          if out_code out = 0 then Inr (out_stdout out)
          else Inl (ExitError (Errorf ''exit status %d'' [AInt (out_code out)]) (out_stderr out)))"

lemma runProbe_binary:
  assumes "parseCLIConfig (probeArgs rnd timeout spec) = (Some cfg, parseStatusOK)" and "JSON cfg" and "\<not> ShowVersion cfg"
    and "\<And>p s. prepareProbe (pr_system pr) (pr_signalContext pr) cfg = Inr p \<Longrightarrow>
      any_probe p (se_probe (pr_rounds pr) 0) (Timeout cfg) = Inr s \<Longrightarrow> latency s < 2 ^ 63"
  shows "runProbe rnd (binaryRunner pr fuel) path timeout spec =
    (case prepareProbe (pr_system pr) (pr_signalContext pr) cfg of
       Inl e \<Rightarrow> Inl (Wrapf ''command failed: %w: %s'' [AStr (trimSpace (pr_errorText pr e @ newline))] (Errorf ''exit status %d'' [AInt 2]))
     | Inr p \<Rightarrow>
         (case any_probe p (se_probe (pr_rounds pr) 0) (Timeout cfg) of
            Inl e \<Rightarrow> Inl (Wrapf ''command failed: %w: %s'' [AStr (trimSpace (pr_errorText pr e @ newline))] (Errorf ''exit status %d'' [AInt 1]))
          | Inr s \<Rightarrow> Inr \<lparr>rp_Server = jsonUnquote (jsonStringBody (t_Host (Target cfg))), rp_LatencyMS = max 1 (milliseconds (latency s))\<rparr>))"
proof -
  have ms: "durationToLatencyMs d = max 1 (milliseconds d)" "0 < durationToLatencyMs d" for d
    using durationToLatencyMs_pos [of d] by (simp_all add: durationToLatencyMs_def Let_def max_def)
  have small: "durationToLatencyMs d < 2 ^ 63" if "d < 2 ^ 63" for d
    using that unfolding ms(1) by (auto simp: milliseconds_def)
  note decode = unmarshal_marshal [of "\<lparr>Server = t_Host (Target cfg), LatencyMs = durationToLatencyMs d\<rparr>" for d]
  have run: "run pr fuel (path # probeArgs rnd timeout spec) =
    (case prepareProbe (pr_system pr) (pr_signalContext pr) cfg of
       Inl e \<Rightarrow> Some (toStderr (pr_errorText pr e) 2)
     | Inr p \<Rightarrow>
         (case any_probe p (se_probe (pr_rounds pr) 0) (Timeout cfg) of
            Inl e \<Rightarrow> Some (toStderr (pr_errorText pr e) 1)
          | Inr s \<Rightarrow> Some (toStdout (marshalPingResult \<lparr>Server = t_Host (Target cfg), LatencyMs = durationToLatencyMs (latency s)\<rparr>) 0)))"
    using assms(1-3) by (simp add: run_eq cong: sum.case_cong)
  note child = runProbe_def binaryRunner_def run toStdout_def toStderr_def
  show ?thesis
  proof (cases "prepareProbe (pr_system pr) (pr_signalContext pr) cfg")
    case (Inl e)
    then show ?thesis by (simp add: child)
  next
    case (Inr p)
    show ?thesis
    proof (cases "any_probe p (se_probe (pr_rounds pr) 0) (Timeout cfg)")
      case (Inl e)
      with Inr show ?thesis by (simp add: child)
    next
      case ok: (Inr s)
      from assms(4) [OF Inr ok] Inr ok ms(2) [of "latency s"] small show ?thesis
        by (simp add: child decode flip: ms(1))
    qed
  qed
qed

lemma trimSpace_newline:
  assumes "s \<noteq> []" and "visible (hd s)" and "visible (last s)"
  shows "trimSpace (s @ newline) = s"
proof -
  have left: "trimSeqs spaceRunes (s @ newline) = s @ newline"
    by (rule trimSeqs_keeps) (use assms spaceRunes_ends in auto)
  have "trimSeqs (map rev spaceRunes) (CHR 10 # rev s) = trimSeqs (map rev spaceRunes) (rev s)"
    by (subst trimSeqs.simps) (simp add: spaceRunes_def hasPrefix_def)
  also have "\<dots> = rev s"
    by (rule trimSeqs_keeps) (use assms spaceRunes_ends in \<open>auto simp: hd_rev\<close>)
  finally show ?thesis using left by (simp add: trimSpace_def newline_def)
qed

lemma probeArgs_parse:
  assumes "validateConfig cfg = Inr ()" and "usableHost (ipv4Host cfg)" and "usableHost (ipv6Host cfg)"
    and "exactOnWhole rnd" and "probeTimeout cfg = k * 1000000000" and "k \<le> 2 ^ 53" and "spec \<in> set (probeSpecs cfg)"
  shows "parseCLIConfig (probeArgs rnd (probeTimeout cfg) spec) =
    (if k \<le> 30 then (Some (probeConfig spec (probeTimeout cfg)), parseStatusOK) else (None, parseStatusInvalid))"
proof -
  have valid: "0 < probeTimeout cfg" "\<forall>port \<in> {javaIPv4Port cfg, javaIPv6Port cfg, bedrockIPv4Port cfg, bedrockIPv6Port cfg}. 1 \<le> port \<and> port \<le> 65535"
    using assms(1) by (auto simp: validateConfig_def validatePort_def ebind_def Let_def split: if_splits sum.splits)
  have "editionArg spec \<in> {'''', ''--bedrock''}" "familyFlag spec \<in> {''-4'', ''-6''}" "usableHost (sp_host spec)"
    "1 \<le> sp_port spec" "sp_port spec \<le> 65535"
    using assms(2,3,7) valid(2) by (auto simp: probeSpecs_def)
  moreover have "1 \<le> k" using valid(1) assms(5) by simp
  ultimately show ?thesis using parse_probeArgs [OF assms(4) _ assms(6)] unfolding assms(5) by blast
qed

section \<open>Properties\<close>

text \<open>
  C30: what a probe of the release check passes to the binary is what the binary takes it for. With usable hosts and
  valid ports, a timeout of whole seconds up to 30 reaches the binary as the target, edition, address family, JSON mode,
  permission for private addresses and timeout that were meant; a longer one, which the check of the flags accepts as
  well, makes the binary refuse its arguments.
\<close>

theorem release_probe_args:
  assumes "validateConfig cfg = Inr ()" and "usableHost (ipv4Host cfg)" and "usableHost (ipv6Host cfg)"
    and "exactOnWhole rnd" and "probeTimeout cfg = k * 1000000000" and "k \<le> 2 ^ 53" and "spec \<in> set (probeSpecs cfg)"
  shows "parseCLIConfig (probeArgs rnd (probeTimeout cfg) spec) =
    (if k \<le> 30 then (Some (probeConfig spec (probeTimeout cfg)), parseStatusOK) else (None, parseStatusInvalid))"
  using assms by (rule probeArgs_parse)

text \<open>
  C7: a probe of the release check tells how the binary fared. With the binary as its command, it fails exactly when the
  preparation or the ping of that binary failed, with the exit code 2 or 1 and the error text of the binary; otherwise
  it decodes from the JSON line the host it asked for and the latency, of at least one millisecond.
\<close>

theorem release_probe_result:
  assumes "validateConfig cfg = Inr ()" and "usableHost (ipv4Host cfg)" and "usableHost (ipv6Host cfg)"
    and "exactOnWhole rnd" and "probeTimeout cfg = k * 1000000000" and "k \<le> 30" and "spec \<in> set (probeSpecs cfg)"
    and "utf8Valid (bytes_of (sp_host spec))"
    and "\<And>p s. prepareProbe (pr_system pr) (pr_signalContext pr) (probeConfig spec (probeTimeout cfg)) = Inr p \<Longrightarrow>
      any_probe p (se_probe (pr_rounds pr) 0) (probeTimeout cfg) = Inr s \<Longrightarrow> latency s < 2 ^ 63"
  shows "runProbe rnd (binaryRunner pr fuel) path (probeTimeout cfg) spec =
    (case prepareProbe (pr_system pr) (pr_signalContext pr) (probeConfig spec (probeTimeout cfg)) of
       Inl e \<Rightarrow> Inl (Wrapf ''command failed: %w: %s'' [AStr (trimSpace (pr_errorText pr e @ newline))] (Errorf ''exit status %d'' [AInt 2]))
     | Inr p \<Rightarrow>
         (case any_probe p (se_probe (pr_rounds pr) 0) (probeTimeout cfg) of
            Inl e \<Rightarrow> Inl (Wrapf ''command failed: %w: %s'' [AStr (trimSpace (pr_errorText pr e @ newline))] (Errorf ''exit status %d'' [AInt 1]))
          | Inr s \<Rightarrow> Inr \<lparr>rp_Server = sp_host spec, rp_LatencyMS = max 1 (milliseconds (latency s))\<rparr>))"
proof -
  let ?c = "probeConfig spec (probeTimeout cfg)"
  have sel: "JSON ?c" "\<not> ShowVersion ?c" "Timeout ?c = probeTimeout cfg" "t_Host (Target ?c) = sp_host spec"
    by (simp_all add: probeConfig_def probeTarget_def)
  have args: "parseCLIConfig (probeArgs rnd (probeTimeout cfg) spec) = (Some ?c, parseStatusOK)"
    using probeArgs_parse [OF assms(1-5) _ assms(7)] assms(6) by simp
  show ?thesis
    using runProbe_binary [OF args sel(1,2), where pr = pr and fuel = fuel and path = path] assms(9)
      unquote_jsonStringBody [OF assms(8)] sel(3,4)
    by (simp cong: sum.case_cong)
qed

text \<open>
  The version check passes exactly when the binary was built with the expected version, for versions that begin
  and end with visible characters.
\<close>

theorem release_version_check:
  assumes "pr_version pr \<noteq> ''''" and "visible (last (pr_version pr))"
  shows "(assertVersion (binaryRunner pr fuel) path expected = Inr ()) \<longleftrightarrow> pr_version pr = expected"
proof -
  have scan: "scanLoop zeroRaw [''-V''] = (zeroRaw\<lparr>raw_showVersion := True\<rparr>, parseStatusOK)"
    by (subst scanLoop.simps(2)) (simp add: hasPrefix_def)
  have "parseCLIConfig [''-V''] = (Some (defaultConfig\<lparr>ShowVersion := True\<rparr>), parseStatusOK)"
    by (simp add: parseCLIConfig_def scanArgv_def scan normalizeCLIConfig_version) (simp add: zeroRaw_def)
  then have run: "run pr fuel [path, ''-V''] = Some (toStdout (versionLine (pr_version pr)) 0)"
    by (simp add: run_eq)
  have "trimSpace (versionLine (pr_version pr) @ newline) = versionLine (pr_version pr)"
    using assms by (intro trimSpace_newline) (simp_all add: versionLine_def visible_def)
  then show ?thesis
    by (simp add: assertVersion_def binaryRunner_def run toStdout_def versionLine_def release_versionLine_def Let_def)
qed

section \<open>Witnesses\<close>

text \<open>The default flags, with the paths of two binaries.\<close>

definition exampleRelease :: config where
  "exampleRelease = (release_bindFlags ''c'')\<lparr>binaryPath := ''./minecraft-ping'', serverBinary := ''./staging-server''\<rparr>"

lemma example_release:
  "validateConfig exampleRelease = Inr ()" "usableHost (ipv4Host exampleRelease)" "usableHost (ipv6Host exampleRelease)"
  "probeTimeout exampleRelease = 12 * 1000000000"
  by code_simp+

lemma exact_id: "exactOnWhole (\<lambda>x. x)"
  by (simp add: exactOnWhole_def)

definition exampleSpec :: probeSpec where
  "exampleSpec = \<lparr>sp_label = ''java-ipv4'', editionArg = '''', familyFlag = ''-4'', sp_host = ''127.0.0.1'', sp_port = 45565\<rparr>"

lemma example_spec: "exampleSpec \<in> set (probeSpecs exampleRelease)" "utf8Valid (bytes_of (sp_host exampleSpec))"
  by (simp add: exampleSpec_def probeSpecs_def exampleRelease_def release_bindFlags_def) code_simp

theorem release_probe_args_witness:
  "parseCLIConfig (probeArgs (\<lambda>x. x) (probeTimeout exampleRelease) exampleSpec) =
     (Some (probeConfig exampleSpec (probeTimeout exampleRelease)), parseStatusOK)"
  using release_probe_args [OF example_release(1-3) exact_id example_release(4) _ example_spec(1)] by simp

definition exampleSpecRoute :: endpointRoute where
  "exampleSpecRoute = \<lparr>Dial = \<lparr>Host = ''127.0.0.1'', Port = 45565\<rparr>, Handshake = \<lparr>Host = ''127.0.0.1'', Port = 45565\<rparr>\<rparr>"

definition exampleSpecCandidates :: "dialCandidate list" where
  "exampleSpecCandidates = [\<lparr>cand_address = addrPortFrom (Addr4 0x7F000001) 45565\<rparr>]"

lemma example_spec_resolved:
  "resolveJavaRouteContext exampleSystem (env_ctx exampleEnv) (newPingClient exampleSystem) (probeTarget exampleSpec) = Inr exampleSpecRoute"
  "resolveDialCandidates (newPingClient exampleSystem) (Dial exampleSpecRoute)
     \<lparr>addressFamily_of = addressFamily4, allowPrivateAddresses = True\<rparr> = Inr exampleSpecCandidates"
  "utf8Valid (bytes_of (Host (Handshake exampleSpecRoute)))" "int (length (Host (Handshake exampleSpecRoute))) \<le> 255"
  "uint16Port (Handshake exampleSpecRoute) = Inr 45565"
  by code_simp+

lemma example_spec_dial:
  "exampleSpecCandidates \<noteq> []"
  "dialCandidates (withDefaults (env_sys exampleEnv) (newPingClient exampleSystem)) (env_sched exampleEnv) exampleSpecCandidates =
   Inr ((connTo (stagingPeer DefaultStatusJSON))\<lparr>conn_remote := Some (cand_String (hd exampleSpecCandidates))\<rparr>)"
  by (simp_all add: dialCandidates_def exampleSpecCandidates_def newPingClient_def exampleSystem_def exampleEnv_def
      withDefaults_def orElse_def)

lemma example_spec_probe:
  "\<exists>p remote. prepareProbe exampleSystem (env_ctx exampleEnv) (probeConfig exampleSpec t) = Inr p \<and>
     any_probe p exampleEnv t' = Inr \<lparr>latency = 5000000, remote = remote\<rparr>"
proof -
  let ?p = "\<lparr>jp_client = newPingClient exampleSystem, jp_target = probeTarget exampleSpec, jp_route = exampleSpecRoute,
      jp_candidates = exampleSpecCandidates, jp_displayTarget = cand_address (hd exampleSpecCandidates)\<rparr>"
  have "probeConfig exampleSpec t = (probeConfig exampleSpec t)\<lparr>Target := probeTarget exampleSpec, Edition := editionJava,
      Options := \<lparr>addressFamily_of = addressFamily4, allowPrivateAddresses = True\<rparr>\<rparr>"
    by (simp add: probeConfig_def exampleSpec_def)
  then have sel: "Target (probeConfig exampleSpec t) = probeTarget exampleSpec" "Edition (probeConfig exampleSpec t) = editionJava"
    "Options (probeConfig exampleSpec t) = \<lparr>addressFamily_of = addressFamily4, allowPrivateAddresses = True\<rparr>"
    by (simp_all add: probeConfig_def exampleSpec_def)
  have "prepareProbe exampleSystem (env_ctx exampleEnv) (probeConfig exampleSpec t) = Inr (JavaProbe ?p)"
    using example_spec_resolved by (simp add: prepareProbe_def prepareJavaProbe_def sel emap_def Let_def exampleSpecCandidates_def)
  moreover have "java_probe ?p exampleEnv t' =
      Inr \<lparr>latency = 5000000, remote = remoteAddrPort (env_lookupPort exampleEnv) (Some (cand_String (hd exampleSpecCandidates)))\<rparr>"
    using pingJava_staging [OF example_spec_dial example_spec_resolved(3-5) defaultStatusJSON_ok example_client(1,2), of t']
      example_client(3) [of 1] example_client(3) [of 2]
    by (simp add: java_probe_def)
  ultimately show ?thesis by auto
qed

theorem release_probe_result_witness:
  "runProbe (\<lambda>x. x) (binaryRunner exampleProcess 0) ''./minecraft-ping'' (probeTimeout exampleRelease) exampleSpec =
     Inr \<lparr>rp_Server = ''127.0.0.1'', rp_LatencyMS = 5\<rparr>"
proof -
  let ?t = "probeTimeout exampleRelease"
  from example_spec_probe [of ?t ?t] obtain p a where p: "prepareProbe exampleSystem (env_ctx exampleEnv) (probeConfig exampleSpec ?t) = Inr p"
    and s: "any_probe p exampleEnv ?t = Inr \<lparr>latency = 5000000, remote = a\<rparr>" by blast
  have latency: "latency s < 2 ^ 63"
    if "prepareProbe (pr_system exampleProcess) (pr_signalContext exampleProcess) (probeConfig exampleSpec ?t) = Inr q"
      "any_probe q (se_probe (pr_rounds exampleProcess) 0) ?t = Inr s" for q s
    using that p s by auto
  have "12 \<le> (30 :: int)" by simp
  from release_probe_result [where pr = exampleProcess and fuel = 0 and path = "''./minecraft-ping''",
      OF example_release(1-3) exact_id example_release(4) this example_spec latency] p s
  show ?thesis by (simp add: milliseconds_def exampleSpec_def)
qed

theorem release_version_check_witness:
  "assertVersion (binaryRunner exampleProcess 0) ''./minecraft-ping'' ''dev'' = Inr ()"
proof -
  have "pr_version exampleProcess = ''dev''" by (simp add: exampleProcess_def cliVersion_def)
  moreover have "visible (last ''dev'')" by code_simp
  ultimately show ?thesis using release_version_check [of exampleProcess 0 "''./minecraft-ping''" "''dev''"] by simp
qed

end
