(* ===== verification/Release_Run.thy ===== *)
theory Release_Run
  imports Release_Probe
begin

text \<open>
  The run of the release check: the wait for a listener ends and finds the staging server, the server that is started
  listens where it is looked for, and a run undoes all it has started.
\<close>

section \<open>Lemmas\<close>

subsection \<open>Waiting\<close>

lemma waitLoop_ends:
  assumes "deadline \<le> now (n + 1)" and "i \<le> n"
  shows "\<exists>r. waitLoop now deadline probe ctxEnds timedOut (Suc (n - i)) i = Some r"
  using assms
proof (induction "n - i" arbitrary: i)
  case (Suc d)
  then have "d = n - (i + 1)" "i + 1 \<le> n" "n - i = Suc (n - (i + 1))" by simp_all
  with Suc.hyps(1) [OF this(1)] Suc.prems show ?case by (auto split: sum.split option.split)
qed simp

lemma waitLoop_fuel:
  "waitLoop now deadline probe ctxEnds timedOut fuel i = Some r \<Longrightarrow> fuel \<le> fuel' \<Longrightarrow>
     waitLoop now deadline probe ctxEnds timedOut fuel' i = Some r"
proof (induction fuel arbitrary: fuel' i)
  case (Suc fuel)
  obtain k where k: "fuel' = Suc k" "fuel \<le> k" using Suc.prems(2) by (cases fuel') auto
  then have "waitLoop now deadline probe ctxEnds timedOut fuel (i + 1) = Some r \<Longrightarrow>
      waitLoop now deadline probe ctxEnds timedOut k (i + 1) = Some r"
    using Suc.IH by blast
  with Suc.prems(1) k show ?case by (auto split: sum.splits option.splits if_splits)
qed simp

text \<open>Round \<open>j\<close> is reached when no earlier probe succeeded, no pause before it was cut short and no clock reading was late.\<close>

definition waitReaches :: "(nat \<Rightarrow> int) \<Rightarrow> int \<Rightarrow> (nat \<Rightarrow> unit result) \<Rightarrow> (nat \<Rightarrow> goerr option) \<Rightarrow> nat \<Rightarrow> nat \<Rightarrow> bool" where
  "waitReaches now deadline probe ctxEnds i j \<longleftrightarrow>
     (\<forall>m. i \<le> m \<and> m < j \<longrightarrow> now (m + 1) < deadline \<and> probe m \<noteq> Inr () \<and> ctxEnds m = None)"

lemma waitLoop_Some:
  assumes "waitLoop now deadline probe ctxEnds timedOut fuel i = Some r"
  shows "\<exists>j \<ge> i. waitReaches now deadline probe ctxEnds i j \<and>
    r = (if now (j + 1) < deadline then (if probe j = Inr () then Inr () else Inl (the (ctxEnds j))) else Inl timedOut) \<and>
    (now (j + 1) < deadline \<longrightarrow> probe j = Inr () \<or> ctxEnds j \<noteq> None)"
  using assms
proof (induction fuel arbitrary: i)
  case (Suc fuel)
  show ?case
  proof (cases "now (i + 1) < deadline \<and> probe i \<noteq> Inr () \<and> ctxEnds i = None")
    case True
    then obtain e where "probe i = Inl e" by (cases "probe i") auto
    with True Suc.prems have "waitLoop now deadline probe ctxEnds timedOut fuel (i + 1) = Some r" by simp
    from Suc.IH [OF this] obtain j where j: "j \<ge> i + 1" "waitReaches now deadline probe ctxEnds (i + 1) j"
      "r = (if now (j + 1) < deadline then (if probe j = Inr () then Inr () else Inl (the (ctxEnds j))) else Inl timedOut)"
      "now (j + 1) < deadline \<longrightarrow> probe j = Inr () \<or> ctxEnds j \<noteq> None" by blast
    have "waitReaches now deadline probe ctxEnds i j"
      using j(2) True unfolding waitReaches_def by (metis Suc_eq_plus1 Suc_leI le_neq_implies_less)
    with j show ?thesis by (intro exI [of _ j]) auto
  next
    case False
    have "r = (if now (i + 1) < deadline then (if probe i = Inr () then Inr () else Inl (the (ctxEnds i))) else Inl timedOut)"
      using Suc.prems False by (auto split: sum.splits option.splits if_splits)
    with False show ?thesis by (intro exI [of _ i]) (auto simp: waitReaches_def)
  qed
qed simp

text \<open>The round that ended the wait is the first that could.\<close>

lemma waitLoop_succeeds:
  assumes "waitLoop now deadline probe ctxEnds timedOut fuel 0 = Some r"
  shows "r = Inr () \<longleftrightarrow> (\<exists>j. now (j + 1) < deadline \<and> probe j = Inr () \<and> waitReaches now deadline probe ctxEnds 0 j)"
proof -
  from waitLoop_Some [OF assms] obtain j where j: "waitReaches now deadline probe ctxEnds 0 j"
    "r = (if now (j + 1) < deadline then (if probe j = Inr () then Inr () else Inl (the (ctxEnds j))) else Inl timedOut)"
    "now (j + 1) < deadline \<longrightarrow> probe j = Inr () \<or> ctxEnds j \<noteq> None" by blast
  have "k = j" if "now (k + 1) < deadline" "probe k = Inr ()" "waitReaches now deadline probe ctxEnds 0 k" for k
  proof (rule linorder_cases)
    show "k < j \<Longrightarrow> k = j" using that(2) j(1) by (simp add: waitReaches_def)
    show "j < k \<Longrightarrow> k = j" using that(3) j(3) by (simp add: waitReaches_def)
  qed
  note unique = this
  show ?thesis
  proof
    assume "r = Inr ()"
    with j(2) have "now (j + 1) < deadline" "probe j = Inr ()" by (simp_all split: if_split_asm)
    with j(1) show "\<exists>j. now (j + 1) < deadline \<and> probe j = Inr () \<and> waitReaches now deadline probe ctxEnds 0 j" by blast
  next
    assume "\<exists>j. now (j + 1) < deadline \<and> probe j = Inr () \<and> waitReaches now deadline probe ctxEnds 0 j"
    with unique have "now (j + 1) < deadline" "probe j = Inr ()" by blast+
    then show "r = Inr ()" using j(2) by simp
  qed
qed

lemma waitLoop_finds:
  assumes "i \<le> j" and "waitReaches now deadline probe ctxEnds i j" and "now (j + 1) < deadline" and "probe j = Inr ()"
  shows "waitLoop now deadline probe ctxEnds timedOut (Suc (j - i)) i = Some (Inr ())"
  using assms(1,2)
proof (induction "j - i" arbitrary: i)
  case 0
  then show ?case using assms(3,4) by simp
next
  case (Suc d)
  then have i: "now (i + 1) < deadline" "probe i \<noteq> Inr ()" "ctxEnds i = None" "waitReaches now deadline probe ctxEnds (i + 1) j"
    by (auto simp: waitReaches_def)
  then obtain e where "probe i = Inl e" by (cases "probe i") auto
  moreover have "Suc (j - i) = Suc (Suc (j - (i + 1)))" using Suc.hyps(2) by simp
  moreover have "waitLoop now deadline probe ctxEnds timedOut (Suc (j - (i + 1))) (i + 1) = Some (Inr ())"
    using Suc.hyps(1) [of "i + 1"] Suc.hyps(2) i(4) by simp
  ultimately show ?case using i(1,3) by (simp only: waitLoop.simps(2) [of _ _ _ _ _ "Suc n" for n] if_True sum.case option.case)
qed

subsection \<open>The backend\<close>

text \<open>What the backend leaves to be undone, in the order it was started.\<close>

definition backendActions :: "releaseHooks \<Rightarrow> config \<Rightarrow> cleanup list" where
  "backendActions hooks cfg =
     (if backend cfg = ''binary'' then
        (case hk_startServer hooks (serverBinary cfg) (serverArgs cfg) of Inl _ \<Rightarrow> [] | Inr _ \<Rightarrow> [StopServer])
      else if backend cfg = ''container'' then
        RemoveContainer (containerCLI cfg) (containerName cfg) #
        (if hk_loadImage hooks (containerCLI cfg) (imageArchive cfg) = Inr () \<and>
            hk_removeContainer hooks (containerCLI cfg) (containerName cfg) = Inr () \<and> hk_startContainer hooks cfg = Inr () then
           (case hk_newIPv6Relay hooks (ipv6Host cfg) (javaIPv6Port cfg) (ipv4Host cfg) (javaIPv4Port cfg) of
              Inl _ \<Rightarrow> []
            | Inr _ \<Rightarrow> CloseRelay #
                (case hk_newUDPIPv6Relay hooks (ipv6Host cfg) (bedrockIPv6Port cfg) (ipv4Host cfg) (bedrockIPv4Port cfg) of
                   Inl _ \<Rightarrow> [] | Inr _ \<Rightarrow> [CloseUDPRelay]))
         else [])
      else [])"

lemma ebind_unit: "ebind m k = Inr x \<longleftrightarrow> (\<exists>y. m = Inr y \<and> k y = Inr x)"
  by (cases m) auto

lemma startBackend_actions:
  assumes "startBackend hooks cfg actions = Some (r, actions')"
  shows "actions' = actions @ backendActions hooks cfg"
proof -
  have "\<exists>y. ebind m k = Inr y \<Longrightarrow> ebind m k = Inr ()" for m :: "unit result" and k :: "unit \<Rightarrow> unit result" by auto
  with assms show ?thesis
    by (auto simp: startBackend_def startBinaryBackend_def startContainerBackend_def backendActions_def Let_def
        ebind_unit ebind_def split: if_splits sum.splits)
qed

lemma startBackend_waits: "startBackend hooks cfg actions = Some (Inr (), actions') \<Longrightarrow> waitForAll hooks cfg = Some (Inr ())"
  by (auto simp: startBackend_def startBinaryBackend_def startContainerBackend_def Let_def split: if_splits sum.splits)

lemma waitInTurn_ok: "waitInTurn waits = Some (Inr ()) \<longleftrightarrow> (\<forall>w \<in> set waits. w = Some (Inr ()))"
  by (induction waits) (auto split: option.splits sum.splits)

lemma runProbes_ok:
  "runProbes hooks path timeout specs = Inr () \<longleftrightarrow> (\<forall>spec \<in> set specs. \<exists>x. hk_runProbe hooks path timeout spec = Inr x)"
  by (induction specs) (auto split: sum.splits)

lemma default_status_valid:
  assumes "0 \<le> p4" "p4 \<le> 65535" "0 \<le> p6" "p6 \<le> 65535"
  shows "validateBedrockStatus (DefaultBedrockStatus p4 p6) = Inr ()"
proof -
  let ?a = "''MCPE;minecraft-ping staging;924;1.26.3;0;10;1;staging;Creative;1;''"
  have status: "DefaultBedrockStatus p4 p6 = ?a @ natText p4 @ '';'' @ natText p6 @ '';0;''"
    using assms by (simp add: DefaultBedrockStatus_def itoa_def)
  have "length (natText p4) \<le> 5" "length (natText p6) \<le> 5"
    using natText_length [of p4 4] natText_length [of p6 4] assms by simp_all
  then have "int (length (DefaultBedrockStatus p4 p6)) \<le> maxBedrockStatusLength"
    by (simp add: status maxBedrockStatusLength_def)
  moreover have "\<forall>b \<in> set (bytes_of (natText p)). b < 0x80" if "0 \<le> p" for p
    using natText_digits [OF that] digit_byte by (auto simp: bytes_of_def)
  moreover have "\<forall>b \<in> set (bytes_of ?a) \<union> set (bytes_of '';'') \<union> set (bytes_of '';0;''). b < 0x80" by code_simp
  ultimately have "utf8Valid (bytes_of (DefaultBedrockStatus p4 p6))"
    using assms unfolding status by (intro utf8Valid_ascii) (auto simp: bytes_of_def)
  with \<open>int _ \<le> _\<close> show ?thesis
    by (simp add: validateBedrockStatus_def status hasPrefix_def)
qed

lemma listenerPorts_range:
  assumes "\<forall>l \<in> set listeners. \<forall>ip port. l = Some (ip, port) \<longrightarrow> 0 \<le> port \<and> port \<le> 65535"
    and "0 \<le> p4" "p4 \<le> 65535" "0 \<le> p6" "p6 \<le> 65535"
  shows "case listenerPorts listeners (p4, p6) of (q4, q6) \<Rightarrow> 0 \<le> q4 \<and> q4 \<le> 65535 \<and> 0 \<le> q6 \<and> q6 \<le> 65535"
  using assms
proof (induction listeners "(p4, p6)" arbitrary: p4 p6 rule: listenerPorts.induct)
  case (3 ip port rest p4 p6)
  then show ?case by (cases "is4 (unmap ip)"; cases "is6 ip") auto
qed simp_all

lemma default_status_for_listeners:
  assumes "\<forall>l \<in> set listeners. \<forall>ip port. l = Some (ip, port) \<longrightarrow> 0 \<le> port \<and> port \<le> 65535"
  shows "validateBedrockStatus (defaultBedrockStatusForListeners listeners) = Inr ()"
    and "defaultBedrockStatusForListeners listeners \<noteq> ''''"
  using listenerPorts_range [OF assms, of 19132 19133] default_status_valid
  by (auto simp: defaultBedrockStatusForListeners_def DefaultBedrockStatus_def split: prod.splits)

section \<open>Properties\<close>

text \<open>
  C32: the wait for a listener ends. Once the clock shows that two minutes have passed, the loop has returned, within so
  many rounds; it has returned without an error exactly when in some round that began in time, with no success and no
  end of the context before it, the probe succeeded.
\<close>

theorem wait_for_listener:
  assumes "now 0 + 120000000000 \<le> now (n + 1)"
  shows "\<exists>r. (\<forall>fuel > n. waitForListener now ctxEnds fuel kind probe network host port = Some r) \<and>
    (r = Inr () \<longleftrightarrow>
       (\<exists>j. now (j + 1) < now 0 + 120000000000 \<and> probe j network host port 2000000000 = Inr () \<and>
          (\<forall>m < j. now (m + 1) < now 0 + 120000000000 \<and> probe m network host port 2000000000 \<noteq> Inr () \<and> ctxEnds m = None)))"
proof -
  let ?d = "now 0 + 120000000000" and ?p = "\<lambda>i. probe i network host port 2000000000"
  define timedOut where "timedOut = Errorf ''timed out waiting for %s %s listener on %s'' [AStr kind, AStr network, AStr (joinHostPort host (itoa port))]"
  have wait: "waitForListener now ctxEnds fuel kind probe network host port = waitLoop now ?d ?p ctxEnds timedOut fuel 0" for fuel
    by (simp add: waitForListener_def timedOut_def listenerReadyTimeout_def listenerProbeTimeout_def)
  from waitLoop_ends [of ?d now n 0 ?p ctxEnds timedOut] assms
  obtain r where r: "waitLoop now ?d ?p ctxEnds timedOut (Suc n) 0 = Some r" by auto
  have "\<forall>fuel > n. waitLoop now ?d ?p ctxEnds timedOut fuel 0 = Some r"
    using waitLoop_fuel [OF r] by simp
  moreover have "r = Inr () \<longleftrightarrow> (\<exists>j. now (j + 1) < ?d \<and> ?p j = Inr () \<and> waitReaches now ?d ?p ctxEnds 0 j)"
    by (rule waitLoop_succeeds [OF r])
  ultimately show ?thesis unfolding wait waitReaches_def by auto
qed

text \<open>
  C33: the waits find the staging server. When the dials of a wait fail up to some round and then reach the server, and
  the round begins within two minutes, the wait returns without an error in that round: for the Java listeners and for
  the Bedrock listeners with a status that fits a datagram of the probe.
\<close>

theorem waits_find_staging_server:
  assumes "\<forall>m \<le> j. now (m + 1) < now 0 + 120000000000" and "\<forall>m < j. ctxEnds m = None"
    and "\<forall>m < j. \<exists>e. dial m = (\<lambda>_ _ _. Inl e)" and "0 \<le> port" and "port \<le> 65535"
  shows "(dial j = (\<lambda>_ _ _. Inr (connTo (stagingPeer json))) \<and> utf8Valid (bytes_of host) \<and> int (length host) \<le> 255 \<and>
      utf8Valid (bytes_of json) \<and> int (length json) \<le> maxStatusJSONLength \<longrightarrow>
      waitForJava now ctxEnds (j + 1) dial probeNow network host port = Some (Inr ())) \<and>
    (dial j = (\<lambda>_ _ _. Inr (udpTo (stagingReply status) ra)) \<and> validateBedrockStatus status = Inr () \<and> length status \<le> 2013 \<longrightarrow>
      waitForBedrock now ctxEnds (j + 1) dial probeNow' network host port = Some (Inr ()))"
proof -
  have reaches: "waitReaches now (now 0 + 120000000000) p ctxEnds 0 j" if "\<forall>m < j. p m \<noteq> Inr ()" for p
    using assms(1,2) that by (simp add: waitReaches_def)
  have round: "now (j + 1) < now 0 + 120000000000" using assms(1) by simp
  have waits: "\<exists>timedOut. waitForJava now ctxEnds (j + 1) dial probeNow network host port =
      waitLoop now (now 0 + 120000000000) (\<lambda>i. Probe (dial i) (probeNow i) network host port listenerProbeTimeout) ctxEnds timedOut (Suc (j - 0)) 0"
    "\<exists>timedOut. waitForBedrock now ctxEnds (j + 1) dial probeNow' network host port =
      waitLoop now (now 0 + 120000000000) (\<lambda>i. ProbeBedrock (dial i) (probeNow' i) network host port listenerProbeTimeout) ctxEnds timedOut (Suc (j - 0)) 0"
    by (auto simp add: waitForJava_def waitForBedrock_def waitForListener_def listenerReadyTimeout_def Let_def simp del: waitLoop.simps)
  have failing: "Probe (dial m) t network host port d \<noteq> Inr ()" "ProbeBedrock (dial m) t' network host port d \<noteq> Inr ()"
    if "m < j" for m t t' d
  proof -
    from assms(3) that obtain e where "dial m = (\<lambda>_ _ _. Inl e)" by blast
    then show "Probe (dial m) t network host port d \<noteq> Inr ()" "ProbeBedrock (dial m) t' network host port d \<noteq> Inr ()"
      by (simp_all add: Probe_def ProbeBedrock_def)
  qed
  show ?thesis
  proof (intro conjI impI)
    assume server: "dial j = (\<lambda>_ _ _. Inr (connTo (stagingPeer json))) \<and> utf8Valid (bytes_of host) \<and> int (length host) \<le> 255 \<and>
      utf8Valid (bytes_of json) \<and> int (length json) \<le> maxStatusJSONLength"
    then have "Probe (dial j) (probeNow j) network host port listenerProbeTimeout = Inr ()"
      using assms(4,5) by (intro harness_java_probe_succeeds [of _ _ _ _ _ json]) simp_all
    then show "waitForJava now ctxEnds (j + 1) dial probeNow network host port = Some (Inr ())" (is ?thesis)
    proof -
      assume ok: "Probe (dial j) (probeNow j) network host port listenerProbeTimeout = Inr ()"
      show ?thesis using waits(1) waitLoop_finds [OF le0 reaches [of "\<lambda>i. Probe (dial i) (probeNow i) network host port listenerProbeTimeout"] round ok]
          failing(1) by auto
    qed
  next
    assume server: "dial j = (\<lambda>_ _ _. Inr (udpTo (stagingReply status) ra)) \<and> validateBedrockStatus status = Inr () \<and> length status \<le> 2013"
    then have "ProbeBedrock (dial j) (probeNow' j) network host port listenerProbeTimeout = Inr ()"
      using assms(4,5) by (intro harness_bedrock_probe_succeeds [of _ _ _ _ _ status ra]) simp_all
    then show "waitForBedrock now ctxEnds (j + 1) dial probeNow' network host port = Some (Inr ())" (is ?thesis)
    proof -
      assume ok: "ProbeBedrock (dial j) (probeNow' j) network host port listenerProbeTimeout = Inr ()"
      show ?thesis using waits(2) waitLoop_finds [OF le0 reaches [of "\<lambda>i. ProbeBedrock (dial i) (probeNow' i) network host port listenerProbeTimeout"] round ok]
          failing(2) by auto
    qed
  qed
qed

text \<open>
  C31: a run undoes all it has started, on every path and in the opposite order: the relays, the container or the server,
  and last the directory of the extracted binary. It passes only when every listener was found and every one of the
  four probes succeeded.
\<close>

theorem release_cleanup:
  assumes "release_run hooks cfg = Some (r, undone)"
  shows "case releaseBinary hooks cfg of
      Inl e \<Rightarrow> r = Inl e \<and> undone = []
    | Inr (path, cfg', temp) \<Rightarrow>
        undone = rev (temp @
          (if expectedVersion cfg' = '''' \<or> hk_assertVersion hooks path (expectedVersion cfg') = Inr () then backendActions hooks cfg' else [])) \<and>
        (r = Inr () \<longrightarrow>
          hk_waitForJava hooks ''tcp4'' (ipv4Host cfg') (javaIPv4Port cfg') = Some (Inr ()) \<and>
          hk_waitForJava hooks ''tcp6'' (ipv6Host cfg') (javaIPv6Port cfg') = Some (Inr ()) \<and>
          hk_waitForBedrock hooks ''udp4'' (ipv4Host cfg') (bedrockIPv4Port cfg') = Some (Inr ()) \<and>
          hk_waitForBedrock hooks ''udp6'' (ipv6Host cfg') (bedrockIPv6Port cfg') = Some (Inr ()) \<and>
          (\<forall>spec \<in> set (probeSpecs cfg'). \<exists>x. hk_runProbe hooks path (probeTimeout cfg') spec = Inr x))"
proof (cases "releaseBinary hooks cfg")
  case (Inl e)
  with assms show ?thesis by (simp add: release_run_def)
next
  case (Inr b)
  obtain path cfg' temp where b: "b = (path, cfg', temp)" by (cases b)
  show ?thesis
  proof (cases "expectedVersion cfg' = '''' \<or> hk_assertVersion hooks path (expectedVersion cfg') = Inr ()")
    case True
    with assms Inr b obtain r' actions where start: "startBackend hooks cfg' temp = Some (r', actions)"
      and undone: "undone = rev actions" and r: "r = ebind r' (\<lambda>_. runProbes hooks path (probeTimeout cfg') (probeSpecs cfg'))"
      by (auto simp: release_run_def runCleanup_def split: option.splits sum.splits if_splits prod.splits)
    have "waitForAll hooks cfg' = Some (Inr ()) \<and> runProbes hooks path (probeTimeout cfg') (probeSpecs cfg') = Inr ()" if "r = Inr ()"
      using that r start startBackend_waits [of hooks cfg' temp actions] by (cases r') auto
    then have "r = Inr () \<longrightarrow> waitForAll hooks cfg' = Some (Inr ()) \<and> (\<forall>spec \<in> set (probeSpecs cfg'). \<exists>x. hk_runProbe hooks path (probeTimeout cfg') spec = Inr x)"
      by (simp add: runProbes_ok)
    with True Inr b undone startBackend_actions [OF start] show ?thesis
      by (simp add: waitForAll_def waitInTurn_ok del: waitInTurn.simps)
  next
    case False
    with assms Inr b show ?thesis
      by (auto simp: release_run_def runCleanup_def split: sum.splits)
  qed
qed

text \<open>
  C34: the staging server that is started listens exactly where the probes will look for it. Its flag parser turns the
  arguments into a configuration with the four addresses, and where the system grants the listeners, the server opens
  these four, two for Java and two for Bedrock, with valid statuses.
\<close>

theorem backend_listens_where_probed:
  assumes "\<And>network address. ls_Listen sys network address = Inr ()"
    and "\<And>network address. ls_ListenPacket sys network address = Inr (loc network)"
    and "\<And>network ip port. loc network = Some (ip, port) \<Longrightarrow> 0 \<le> port \<and> port \<le> 65535"
  shows "\<exists>server trace server'. parseFlags (server_flags rnd) bindFlags (serverArgs cfg) = Inr server \<and>
    serveSetup sys server = (trace, Inr (server',
      [StreamListener ''tcp4'' (joinHostPort (ipv4Host cfg) (itoa (javaIPv4Port cfg))),
       StreamListener ''tcp6'' (joinHostPort (ipv6Host cfg) (itoa (javaIPv6Port cfg))),
       PacketListener ''udp4'' (joinHostPort (ipv4Host cfg) (itoa (bedrockIPv4Port cfg))) (loc ''udp4''),
       PacketListener ''udp6'' (joinHostPort (ipv6Host cfg) (itoa (bedrockIPv6Port cfg))) (loc ''udp6'')])) \<and>
    validateStatusJSON (StatusJSON server') = Inr () \<and> validateBedrockStatus (BedrockStatus server') = Inr ()"
proof -
  define a1 a2 a3 a4 where "a1 = joinHostPort (ipv4Host cfg) (itoa (javaIPv4Port cfg))"
    and "a2 = joinHostPort (ipv6Host cfg) (itoa (javaIPv6Port cfg))"
    and "a3 = joinHostPort (ipv4Host cfg) (itoa (bedrockIPv4Port cfg))"
    and "a4 = joinHostPort (ipv6Host cfg) (itoa (bedrockIPv6Port cfg))"
  note address = this
  have nonempty: "a1 \<noteq> ''''" "a2 \<noteq> ''''" "a3 \<noteq> ''''" "a4 \<noteq> ''''" by (simp_all add: address joinHostPort_def)
  let ?server = "bindFlags\<lparr>ListenIPv4 := a1, ListenIPv6 := a2, BedrockListenIPv4 := a3, BedrockListenIPv6 := a4\<rparr>"
  have "parseFlags (server_flags rnd) bindFlags (serverArgs cfg) = Inr ?server"
    by (simp add: serverArgs_def flip: address) (simp add: server_flags_def splitFlag_def stringFlag_def setFlag_def emap_def)
  moreover have json: "validateStatusJSON DefaultStatusJSON = Inr ()" "DefaultStatusJSON \<noteq> ''''" by code_simp+
  have local: "\<forall>l \<in> set [loc ''udp4'', loc ''udp6'']. \<forall>ip port. l = Some (ip, port) \<longrightarrow> 0 \<le> port \<and> port \<le> 65535"
    using assms(3) by simp
  let ?status = "defaultBedrockStatusForListeners [loc ''udp4'', loc ''udp6'']"
  have "config_withDefaults ?server = ?server" "StatusJSON ?server = DefaultStatusJSON" "BedrockStatus ?server = ''''"
    using json(2) by (simp_all add: config_withDefaults_def bindFlags_def)
  then have "serveSetup sys ?server =
      (map Opened [StreamListener ''tcp4'' a1, StreamListener ''tcp6'' a2, PacketListener ''udp4'' a3 (loc ''udp4''), PacketListener ''udp6'' a4 (loc ''udp6'')],
       Inr (?server\<lparr>BedrockStatus := ?status\<rparr>,
         [StreamListener ''tcp4'' a1, StreamListener ''tcp6'' a2, PacketListener ''udp4'' a3 (loc ''udp4''), PacketListener ''udp6'' a4 (loc ''udp6'')]))"
    using assms(1,2) json(1) nonempty default_status_for_listeners [OF local]
    by (simp add: serveSetup_def wanted_def packetAddrs_def Let_def)
  moreover have "validateStatusJSON (StatusJSON (?server\<lparr>BedrockStatus := ?status\<rparr>)) = Inr ()"
    "validateBedrockStatus (BedrockStatus (?server\<lparr>BedrockStatus := ?status\<rparr>)) = Inr ()"
    using json(1) default_status_for_listeners(1) [OF local] \<open>StatusJSON ?server = DefaultStatusJSON\<close> by simp_all
  ultimately show ?thesis unfolding address [symmetric] by blast
qed

section \<open>Witnesses\<close>

theorem wait_for_listener_witness:
  "waitForListener (\<lambda>i. int i * 60000000000) (\<lambda>_. None) 2 ''java'' (\<lambda>_ _ _ _ _. Inl EOF) ''tcp4'' ''127.0.0.1'' 45565 \<noteq> Some (Inr ())"
proof -
  have "(\<lambda>i. int i * 60000000000) 0 + 120000000000 \<le> (\<lambda>i. int i * 60000000000) (1 + 1)" by simp
  from wait_for_listener [OF this, of "\<lambda>_. None" "''java''" "\<lambda>_ _ _ _ _. Inl EOF" "''tcp4''" "''127.0.0.1''" 45565]
  show ?thesis by force
qed

theorem waits_find_staging_server_witness:
  "waitForJava (\<lambda>_. 0) (\<lambda>_. None) 1 (\<lambda>_ _ _ _. Inr (connTo (stagingPeer DefaultStatusJSON))) (\<lambda>_. 0) ''tcp4'' ''127.0.0.1'' 45565 = Some (Inr ())"
proof -
  have "utf8Valid (bytes_of ''127.0.0.1'')" "int (length ''127.0.0.1'') \<le> 255" by code_simp+
  with waits_find_staging_server [of 0 "\<lambda>_. 0" "\<lambda>_. None" "\<lambda>_ _ _ _. Inr (connTo (stagingPeer DefaultStatusJSON))" 45565 DefaultStatusJSON
      "''127.0.0.1''" "\<lambda>_. 0" "''tcp4''"] defaultStatusJSON_ok(1,2)
  show ?thesis by simp
qed

text \<open>A run whose server starts, is found and answers, and one whose version is wrong.\<close>

definition exampleHooks :: releaseHooks where
  "exampleHooks =
     \<lparr>hk_resolveSingleFile = (\<lambda>_. Inr ''minecraft-ping_2.0.0_Linux_x86_64.tar.gz''), hk_versionFromArchive = versionFromArchiveName,
      hk_extractBinary = (\<lambda>_ n. Inr (''/tmp/x/'' @ n, ''/tmp/x'')), hk_assertVersion = (\<lambda>_ _. Inr ()), hk_startServer = (\<lambda>_ _. Inr ()),
      hk_waitForJava = (\<lambda>_ _ _. Some (Inr ())), hk_waitForBedrock = (\<lambda>_ _ _. Some (Inr ())), hk_loadImage = (\<lambda>_ _. Inr ()),
      hk_removeContainer = (\<lambda>_ _. Inr ()), hk_startContainer = (\<lambda>_. Inr ()), hk_newIPv6Relay = (\<lambda>_ _ _ _. Inr ('''', '''')),
      hk_newUDPIPv6Relay = (\<lambda>_ _ _ _. Inr ('''', '''')), hk_runProbe = (\<lambda>_ _ s. Inr \<lparr>rp_Server = sp_host s, rp_LatencyMS = 1\<rparr>)\<rparr>"

theorem release_cleanup_witness:
  "\<exists>undone. release_run exampleHooks (exampleRelease\<lparr>archiveGlob := ''*.tar.gz'', binaryName := ''ping''\<rparr>) = Some (Inr (), undone) \<and>
     undone = rev ([RemoveTempDir ''/tmp/x''] @ [StopServer])"
proof -
  let ?cfg = "exampleRelease\<lparr>archiveGlob := ''*.tar.gz'', binaryName := ''ping''\<rparr>"
  have run: "release_run exampleHooks ?cfg = Some (Inr (), [StopServer, RemoveTempDir ''/tmp/x''])" by code_simp
  have "releaseBinary exampleHooks ?cfg = Inr (''/tmp/x/ping'', ?cfg\<lparr>expectedVersion := ''2.0.0''\<rparr>, [RemoveTempDir ''/tmp/x''])"
    "backendActions exampleHooks (?cfg\<lparr>expectedVersion := ''2.0.0''\<rparr>) = [StopServer]" "hk_assertVersion exampleHooks ''/tmp/x/ping'' ''2.0.0'' = Inr ()"
    by code_simp+
  with release_cleanup [OF run] run show ?thesis by simp
qed

theorem backend_listens_where_probed_witness:
  "\<exists>server trace server' ls. parseFlags (server_flags (\<lambda>x. x)) bindFlags (serverArgs exampleRelease) = Inr server \<and>
     serveSetup exampleListenSystem server = (trace, Inr (server', ls)) \<and> length ls = 4"
proof -
  have "ls_Listen exampleListenSystem n a = Inr ()" "ls_ListenPacket exampleListenSystem n a = Inr ((\<lambda>_. None) n)" for n a
    by (simp_all add: exampleListenSystem_def)
  from backend_listens_where_probed [of exampleListenSystem "\<lambda>_. None" "\<lambda>x. x" exampleRelease, OF this] show ?thesis by fastforce
qed

end
