(* ===== verification/Spec2Isabelle.thy ===== *)
theory Spec2Isabelle
  imports Dial_Race Release_Run
begin

text \<open>
  \<^bold>\<open>A verification library for minecraft-ping.\<close>

  The repository holds three programs in Go. \<^verbatim>\<open>minecraft-ping\<close> measures the latency of a Minecraft server, of the Java
  edition over TCP and of the Bedrock edition over UDP, in a session like that of \<^verbatim>\<open>ping\<close> or once with JSON output.
  \<^verbatim>\<open>cmd/staging-server\<close> is a server of both protocols for tests. \<^verbatim>\<open>cmd/release-integration\<close> runs a released binary of
  the first against the second. This library models all three and proves what makes them correct.

  \<^bold>\<open>Conventions.\<close> A Go function is a HOL function with the name it has in the source; \<open>ss_\<close> marks the functions of the
  package \<^verbatim>\<open>stagingserver\<close> and \<open>release_\<close> those of the release check whose names the client uses too. An \<^verbatim>\<open>error\<close> is a
  value of \<^typ>\<open>goerr\<close> and a fallible result a sum with the error on the left. Strings are lists of bytes. Numbers on the
  wire are words of their width; \<^verbatim>\<open>int\<close> and durations in nanoseconds are integers, with their range written out where it
  matters. What the programs meet (the resolver, the dialer, the clock, the random source, contexts, commands, files,
  sockets) is an argument: a field of a record such as \<^typ>\<open>system\<close>, \<^typ>\<open>probeEnv\<close>, \<^typ>\<open>process\<close>, \<^typ>\<open>archiveSystem\<close> or
  \<^typ>\<open>releaseWorld\<close>. A clock that is read several times is a function of the number of the reading; a ping counts its
  readings from zero, and the dialer and the random source of a client are the same in all rounds of a session. Code in several
  goroutines is a step relation over a record of their common state, and a theorem about it holds for every interleaving.

  \<^bold>\<open>The Go library\<close>, as far as the sources use it:
  \<^item> \<open>Prelude\<close>: errors, sequencing, byte streams, big-endian numbers, and the lemmas on lists, words and results that
    the other theories share. \<open>Steps\<close>: the contracts of step relations as locales (an invariant, a rank that shrinks, a
    goal that can be reached).
  \<^item> \<open>Go_Text\<close>: \<^verbatim>\<open>strings\<close>, \<^verbatim>\<open>strconv\<close>, UTF-8 and \<^verbatim>\<open>net.SplitHostPort\<close>. \<open>Go_Netip\<close>: \<^verbatim>\<open>net/netip\<close>. \<open>Go_Conn\<close>: connections as
    exchanges with a peer. \<open>Go_Json\<close> and \<open>Go_Unmarshal\<close>: the scanner, the encoder and the decoder of \<^verbatim>\<open>encoding/json\<close>.
    \<open>Go_Float\<close>: \<^verbatim>\<open>ParseFloat\<close> and \<^verbatim>\<open>big.Rat\<close>. \<open>Go_Flag\<close>: \<^verbatim>\<open>flag\<close>, \<^verbatim>\<open>time.ParseDuration\<close> and \<^verbatim>\<open>path/filepath\<close>.

  \<^bold>\<open>The client\<close>:
  \<^item> \<open>Endpoint\<close> (\<^verbatim>\<open>endpoint.go\<close>): hosts, families and the filter of non-public addresses, shown as ranges of numbers.
  \<^item> \<open>Editions\<close> (\<^verbatim>\<open>editions.go\<close>): targets and the parser of destinations, with the round trip through their text.
  \<^item> \<open>Address\<close> (\<^verbatim>\<open>address.go\<close>): the candidates of a resolution are the permitted addresses without duplicates, the families
    in alternation and each of them in the order of the resolver.
  \<^item> \<open>Client\<close> (\<^verbatim>\<open>client.go\<close>): the dial as a function of the order in which its attempts arrive. \<open>Dial_Race\<close>: its goroutines,
    channel and context as a step relation that refines this function; and the connection it can lose.
  \<^item> \<open>Wire\<close>: the laws of a wire format as locales. \<open>Protocol\<close> (\<^verbatim>\<open>protocol.go\<close>) interprets them: VarInts, packets, strings
    and messages with their round trips and bounds.
  \<^item> \<open>Prepared_Probe\<close>: the interface between a session and a probe as a locale. \<open>Java\<close> (\<^verbatim>\<open>java.go\<close>) and \<open>Bedrock\<close>
    (\<^verbatim>\<open>bedrock.go\<close>) interpret it: what a probe dials, what it accepts, and that it succeeds against the staging server.
  \<^item> \<open>Session\<close> (\<^verbatim>\<open>session.go\<close>): the loop, its end, and its statistics and exit code in terms of the replies of its probes.
  \<^item> \<open>Cli\<close> (\<^verbatim>\<open>cli.go\<close>, \<^verbatim>\<open>version.go\<close>, \<^verbatim>\<open>minecraft-ping.go\<close>): arguments, configuration and the whole run: it reaches
    permitted addresses only, and its output and exit codes are what they should be.

  \<^bold>\<open>The staging server\<close>:
  \<^item> \<open>Staging_Java\<close> and \<open>Staging_Bedrock\<close> (\<^verbatim>\<open>internal/stagingserver\<close>): the handlers and probes of the two protocols, which
    interpret the same laws, so that client and server are shown to speak one format.
  \<^item> \<open>Staging_Serve\<close>: \<^verbatim>\<open>Serve\<close> with its listeners, accept loops, error channel and shutdown.

  \<^bold>\<open>The release check\<close> (\<^verbatim>\<open>cmd/release-integration\<close>):
  \<^item> \<open>Release_Archive\<close>: the extraction of the binary, its limit of 64 MiB, and that nothing stays open.
  \<^item> \<open>Release_Relay\<close>: the relays from IPv6 to IPv4; the two copying goroutines of a stream as a step relation, in
    which a write may fail, or block on a peer that does not read, so that the relay may wait for ever.
  \<^item> \<open>Release\<close>: flags, validation, probes, waits, backends, cleanup and exit codes, and \<^verbatim>\<open>main\<close> of \<^verbatim>\<open>cmd/staging-server\<close>.
  \<^item> \<open>Release_Probe\<close> and \<open>Release_Run\<close>, where the three programs meet: the arguments the check writes are parsed by the
    client's own parser, the JSON the client prints is decoded by the check, the flags for the staging server are parsed
    into the listeners it opens, the waits find that server, and a run undoes what it has started.

  \<^bold>\<open>Loops and fuel.\<close> Loops over data are structural or have a measure. Two loops may not end, the rounds of a text session
  and the wait for a listener: they take a number of rounds and give no result when it does not suffice. The theorems on
  their end state how many are enough: the count of a session, or the first round in which the clock shows the deadline.

  \<^bold>\<open>Not modelled.\<close> Rounding to floating point numbers is a function that is an argument; where a theorem needs it, it says
  which numbers are kept. The texts of the operating system's errors, and the text of a JSON syntax error, are not kept.
  The decoders of zip, gzip and tar and the file system are arguments, since the package itself calls them through
  variables. How long a step takes is not modelled, so the delays between dial attempts and the pause between probes
  show as orders of events only. Tests, scripts, workflows, packaging and documents are not modelled.
\<close>

end
